(* ===== verification/Beach_Prelude.thy ===== *)
theory Beach_Prelude
  imports Complex_Main "HOL-Library.Sublist"
begin

text \<open>
  Shared vocabulary of the beach-nourishment development: the Python error values the
  modelled code can raise, Python's indexing and \<open>min\<close> with their errors, ASCII
  \<open>str.lower\<close> and substring search (\<open>in\<close> on strings), the collection of model
  definitions that component proofs unfold, and generic lemmas on lists of reals
  (strictly increasing abscissae, \<open>Min\<close>/\<open>Max\<close> of a list) shared by the
  interpolation and profile theories.  Python floats are idealised as \<open>real\<close>; a
  NaN sample is \<open>None\<close> in a \<open>real option\<close>.
\<close>

type_synonym pyfloat = real

datatype py_error =
    IndexError | ValueError | KeyError | ZeroDivisionError | AttributeError | InvalidIndexError

named_theorems model_defs "definitions of the model unfolded by component proofs"
named_theorems sorted_facts "facts about strictly increasing abscissa lists"

subsection \<open>Python indexing, \<open>xs[-1]\<close> and \<open>min\<close>\<close>

definition py_last :: "'a list \<Rightarrow> py_error + 'a" where
  "py_last xs = (if xs = [] then Inl IndexError else Inr (last xs))"

definition py_min :: "real list \<Rightarrow> py_error + real" where
  "py_min xs = (if xs = [] then Inl ValueError else Inr (Min (set xs)))"

definition py_index :: "'a list \<Rightarrow> nat \<Rightarrow> py_error + 'a" where
  "py_index xs i = (if i < length xs then Inr (xs ! i) else Inl IndexError)"

text \<open>A list comprehension whose element expression may raise: the first error wins.\<close>

fun map_sum :: "('a \<Rightarrow> 'e + 'b) \<Rightarrow> 'a list \<Rightarrow> 'e + 'b list" where
  "map_sum f [] = Inr []"
| "map_sum f (x # xs) =
     (case f x of
        Inl e \<Rightarrow> Inl e
      | Inr y \<Rightarrow> (case map_sum f xs of Inl e \<Rightarrow> Inl e | Inr ys \<Rightarrow> Inr (y # ys)))"

subsection \<open>Strings: \<open>str.lower\<close> and \<open>in\<close>\<close>

definition lower_char :: "char \<Rightarrow> char" where
  "lower_char c =
     (case map_of (zip ''ABCDEFGHIJKLMNOPQRSTUVWXYZ'' ''abcdefghijklmnopqrstuvwxyz'') c of
        Some d \<Rightarrow> d
      | None \<Rightarrow> c)"

definition lower :: "string \<Rightarrow> string" where
  "lower s = map lower_char s"

fun str_contains :: "string \<Rightarrow> string \<Rightarrow> bool" where
  "str_contains pat [] = (pat = [])"
| "str_contains pat (c # cs) = (take (length pat) (c # cs) = pat \<or> str_contains pat cs)"

subsection \<open>Generic lemmas\<close>

lemma prefix_iff_take: "prefix xs ys \<longleftrightarrow> take (length xs) ys = xs"
  by (metis prefix_def take_is_prefix append_eq_conv_conj)

text \<open>The executable substring search is Python's \<open>pat in s\<close>, i.e.\ \<open>sublist\<close>.\<close>

lemma str_contains_sublist: "str_contains pat s \<longleftrightarrow> sublist pat s"
  by (induction pat s rule: str_contains.induct)
     (auto simp: sublist_Cons_right prefix_iff_take)

lemma py_last_Inr [simp]: "xs \<noteq> [] \<Longrightarrow> py_last xs = Inr (last xs)"
  by (simp add: py_last_def)

lemma py_min_Inr [simp]: "xs \<noteq> [] \<Longrightarrow> py_min xs = Inr (Min (set xs))"
  by (simp add: py_min_def)

lemma py_index_Inr [simp]: "i < length xs \<Longrightarrow> py_index xs i = Inr (xs ! i)"
  by (simp add: py_index_def)

lemma map_sum_Inr:
  "\<forall>x\<in>set xs. f x = Inr (g x) \<Longrightarrow> map_sum f xs = Inr (map g xs)"
  by (induction xs) simp_all

lemma map_sum_Inr_length: "map_sum f xs = Inr ys \<Longrightarrow> length ys = length xs"
  by (induction xs arbitrary: ys) (auto split: sum.splits)

lemma length_filter_mono_pred:
  "(\<And>x. P x \<Longrightarrow> Q x) \<Longrightarrow> length (filter P xs) \<le> length (filter Q xs)"
  by (induction xs) auto

lemma sum_list_map_uminus: "sum_list (map uminus xs) = - sum_list (xs :: real list)"
  by (induction xs) simp_all

lemma sum_list_pos: "xs \<noteq> [] \<Longrightarrow> \<forall>x\<in>set xs. 0 < x \<Longrightarrow> 0 < sum_list (xs :: real list)"
proof (induction xs)
  case Nil
  then show ?case by simp
next
  case (Cons x xs)
  then show ?case by (cases "xs = []") (auto intro: add_pos_pos)
qed

lemma sorted_wrt_less_nth_le [sorted_facts]:
  "sorted_wrt (<) (xs :: real list) \<Longrightarrow> i \<le> j \<Longrightarrow> j < length xs \<Longrightarrow> xs ! i \<le> xs ! j"
  by (metis le_less sorted_wrt_nth_less)

lemma sorted_wrt_less_hd_le [sorted_facts]:
  "sorted_wrt (<) (xs :: real list) \<Longrightarrow> x \<in> set xs \<Longrightarrow> hd xs \<le> x"
  by (cases xs) auto

lemma sorted_wrt_less_le_last [sorted_facts]:
  "sorted_wrt (<) (xs :: real list) \<Longrightarrow> x \<in> set xs \<Longrightarrow> x \<le> last xs"
proof (induction xs)
  case Nil
  then show ?case by simp
next
  case (Cons y ys)
  then show ?case
    by (cases "ys = []") (auto intro: less_imp_le dest: last_in_set)
qed

lemma sorted_le_last: "sorted (xs :: nat list) \<Longrightarrow> x \<in> set xs \<Longrightarrow> x \<le> last xs"
  by (induction xs) auto

lemma last_sorted_max:
  assumes "sorted (xs :: nat list)" and "k \<in> set xs" and "\<forall>i\<in>set xs. i \<le> k"
  shows "last xs = k"
proof -
  have "xs \<noteq> []" using assms(2) by auto
  then have "last xs \<le> k" using assms(3) by simp
  moreover have "k \<le> last xs" using sorted_le_last [OF assms(1,2)] .
  ultimately show ?thesis by simp
qed

end
