(* ===== verification/Numpy.thy ===== *)
theory Numpy
  imports Beach_Prelude
begin

text \<open>
  The two numpy routines the profile code relies on, over reals:
  \<open>np.linspace(start, stop, num)\<close> (with numpy's endpoint handling) and
  \<open>np.interp(x, xp, fp)\<close> (constant extension outside \<open>[xp[0], xp[-1]]\<close>, the
  exact-knot shortcut, and the linear formula \<open>slope * (x - xp[j]) + fp[j]\<close>), with its
  \<open>ValueError\<close> for empty or mismatched sample arrays.  numpy locates the segment by
  binary search; on strictly increasing \<open>xp\<close> (the only case numpy documents) that is
  the segment the linear scan \<open>interp_seg\<close> finds.  The lemmas give the value at a
  knot, between two knots, and the bounds of any interpolated value.
\<close>

subsection \<open>Definitions\<close>

definition linspace :: "real \<Rightarrow> real \<Rightarrow> nat \<Rightarrow> real list" where
  "linspace start stop num =
     (let dv = num - 1; step = (stop - start) / real dv
      in map (\<lambda>i. if 0 < dv \<and> i = dv then stop else real i * step + start) [0..<num])"

fun interp_seg :: "real \<Rightarrow> (real \<times> real) list \<Rightarrow> real" where
  "interp_seg x [] = 0"
| "interp_seg x [(x0, y0)] = y0"
| "interp_seg x ((x0, y0) # (x1, y1) # ps) =
     (if x < x1 then (if x = x0 then y0 else (y1 - y0) / (x1 - x0) * (x - x0) + y0)
      else interp_seg x ((x1, y1) # ps))"

definition interp_pts :: "real \<Rightarrow> (real \<times> real) list \<Rightarrow> real" where
  "interp_pts x ps =
     (if x < fst (hd ps) then snd (hd ps)
      else if fst (last ps) < x then snd (last ps)
      else interp_seg x ps)"

definition np_interp :: "real \<Rightarrow> real list \<Rightarrow> real list \<Rightarrow> py_error + real" where
  "np_interp x xp fp =
     (if xp = [] \<or> length xp \<noteq> length fp then Inl ValueError
      else Inr (interp_pts x (zip xp fp)))"

subsection \<open>linspace\<close>

lemma length_linspace [simp]: "length (linspace a b n) = n"
  by (simp add: linspace_def Let_def)

lemma linspace_nth:
  assumes "i < n" and "1 < n"
  shows "linspace a b n ! i = a + real i * ((b - a) / real (n - 1))"
proof (cases "i = n - 1")
  case True
  have "real (n - 1) \<noteq> 0" using assms(2) by simp
  then have "a + real (n - 1) * ((b - a) / real (n - 1)) = b" by simp
  with True assms show ?thesis by (simp add: linspace_def Let_def)
next
  case False
  with assms show ?thesis by (simp add: linspace_def Let_def)
qed

lemma linspace_nth_0: "0 < n \<Longrightarrow> linspace a b n ! 0 = a"
  by (simp add: linspace_def Let_def)

lemma linspace_same: "linspace a a n = replicate n a"
  by (rule nth_equalityI) (auto simp: linspace_def Let_def)

subsection \<open>Interpolation on strictly increasing knots\<close>

lemma interp_seg_skip:
  assumes "sorted_wrt (<) (map fst (pre @ (a, b) # rest))" and "a \<le> x"
  shows "interp_seg x (pre @ (a, b) # rest) = interp_seg x ((a, b) # rest)"
  using assms(1)
proof (induction pre)
  case Nil
  then show ?case by simp
next
  case (Cons p pre)
  then have IH: "interp_seg x (pre @ (a, b) # rest) = interp_seg x ((a, b) # rest)"
    by simp
  obtain p1 p2 where p: "p = (p1, p2)" by fastforce
  show ?case
  proof (cases pre)
    case Nil
    with p assms(2) show ?thesis by simp
  next
    case (Cons q pre')
    obtain q1 q2 where q: "q = (q1, q2)" by fastforce
    from Cons.prems Cons q have "q1 < a" by simp
    with p q Cons IH assms(2) show ?thesis by simp
  qed
qed

lemma interp_seg_knot:
  assumes "sorted_wrt (<) (map fst (pre @ (a, b) # rest))"
  shows "interp_seg a (pre @ (a, b) # rest) = b"
proof -
  have "interp_seg a ((a, b) # rest) = b"
  proof (cases rest)
    case Nil
    then show ?thesis by simp
  next
    case (Cons r rest')
    obtain r1 r2 where "r = (r1, r2)" by fastforce
    with Cons assms show ?thesis by (simp add: sorted_wrt_append)
  qed
  with interp_seg_skip [OF assms] show ?thesis by simp
qed

lemma interp_seg_between:
  assumes "sorted_wrt (<) (map fst (pre @ (x0, y0) # (x1, y1) # rest))"
    and "x0 \<le> x" and "x < x1"
  shows "interp_seg x (pre @ (x0, y0) # (x1, y1) # rest) = (y1 - y0) / (x1 - x0) * (x - x0) + y0"
  using interp_seg_skip [OF assms(1,2)] assms(3) by simp

lemma interp_pts_knot:
  assumes "sorted_wrt (<) (map fst ps)" and "(a, b) \<in> set ps"
  shows "interp_pts a ps = b"
proof -
  obtain pre rest where ps: "ps = pre @ (a, b) # rest"
    using assms(2) by (meson split_list)
  have "a \<in> set (map fst ps)" using assms(2) by force
  then have "hd (map fst ps) \<le> a" and "a \<le> last (map fst ps)"
    using assms(1) sorted_wrt_less_hd_le sorted_wrt_less_le_last by blast+
  moreover have "ps \<noteq> []" using ps by simp
  then have "hd (map fst ps) = fst (hd ps)" and "last (map fst ps) = fst (last ps)"
    by (simp_all add: hd_map last_map)
  ultimately have "\<not> a < fst (hd ps)" and "\<not> fst (last ps) < a" by auto
  then show ?thesis
    using interp_seg_knot assms(1) ps by (simp add: interp_pts_def)
qed

lemma lerp_bounds:
  fixes a b t :: real
  assumes "0 \<le> t" and "t \<le> 1"
  shows "min a b \<le> t * (b - a) + a \<and> t * (b - a) + a \<le> max a b"
proof (cases "a \<le> b")
  case True
  have "t * (b - a) \<le> 1 * (b - a)" using True assms by (intro mult_right_mono) auto
  moreover have "0 \<le> t * (b - a)" using True assms by simp
  ultimately show ?thesis using True by auto
next
  case False
  have "1 * (a - b) \<ge> t * (a - b)" using False assms by (intro mult_right_mono) auto
  moreover have "0 \<le> t * (a - b)" using False assms by simp
  ultimately show ?thesis using False by (auto simp: algebra_simps)
qed

lemma interp_seg_bounds:
  "ps \<noteq> [] \<Longrightarrow> fst (hd ps) \<le> x \<Longrightarrow>
     Min (snd ` set ps) \<le> interp_seg x ps \<and> interp_seg x ps \<le> Max (snd ` set ps)"
proof (induction x ps rule: interp_seg.induct)
  case (1 x)
  then show ?case by simp
next
  case (2 x x0 y0)
  then show ?case by simp
next
  case (3 x x0 y0 x1 y1 ps)
  let ?S = "snd ` set ((x0, y0) # (x1, y1) # ps)"
  have fin: "finite ?S" and y0: "y0 \<in> ?S" and y1: "y1 \<in> ?S" by auto
  show ?case
  proof (cases "x < x1")
    case True
    show ?thesis
    proof (cases "x = x0")
      case True
      with \<open>x < x1\<close> y0 fin show ?thesis by simp
    next
      case False
      define t where "t = (x - x0) / (x1 - x0)"
      have "x0 < x" using "3.prems"(2) False by simp
      then have "0 \<le> t" "t \<le> 1" using \<open>x < x1\<close> by (auto simp: t_def)
      then have lb: "min y0 y1 \<le> t * (y1 - y0) + y0 \<and> t * (y1 - y0) + y0 \<le> max y0 y1"
        by (rule lerp_bounds)
      have eq: "(y1 - y0) / (x1 - x0) * (x - x0) + y0 = t * (y1 - y0) + y0"
        by (simp add: t_def)
      have mn: "Min ?S \<le> min y0 y1"
        using Min_le [OF fin y0] Min_le [OF fin y1] by (rule min.boundedI)
      have mx: "max y0 y1 \<le> Max ?S"
        using Max_ge [OF fin y0] Max_ge [OF fin y1] by (rule max.boundedI)
      have val: "interp_seg x ((x0, y0) # (x1, y1) # ps) = t * (y1 - y0) + y0"
        using \<open>x < x1\<close> False eq by simp
      show ?thesis unfolding val using lb mn mx by (meson order_trans)
    qed
  next
    case False
    then have "Min (snd ` set ((x1, y1) # ps)) \<le> interp_seg x ((x1, y1) # ps) \<and>
        interp_seg x ((x1, y1) # ps) \<le> Max (snd ` set ((x1, y1) # ps))"
      using "3.IH" by simp
    moreover have "Min ?S \<le> Min (snd ` set ((x1, y1) # ps))"
      by (rule Min_antimono) auto
    moreover have "Max (snd ` set ((x1, y1) # ps)) \<le> Max ?S"
      by (rule Max_mono) auto
    ultimately show ?thesis using False by auto
  qed
qed

lemma interp_pts_bounds:
  assumes "ps \<noteq> []"
  shows "Min (snd ` set ps) \<le> interp_pts x ps \<and> interp_pts x ps \<le> Max (snd ` set ps)"
proof -
  have fin: "finite (snd ` set ps)" by simp
  have "snd (hd ps) \<in> snd ` set ps" "snd (last ps) \<in> snd ` set ps"
    using assms by auto
  with fin have "Min (snd ` set ps) \<le> snd (hd ps) \<and> snd (hd ps) \<le> Max (snd ` set ps)"
    "Min (snd ` set ps) \<le> snd (last ps) \<and> snd (last ps) \<le> Max (snd ` set ps)"
    by auto
  with interp_seg_bounds [OF assms, of x] show ?thesis
    by (auto simp: interp_pts_def)
qed

lemma zip_split_pair:
  assumes "length xp = length fp" and "Suc k < length xp"
  shows "zip xp fp = take k (zip xp fp) @ (xp ! k, fp ! k) # (xp ! Suc k, fp ! Suc k)
           # drop (Suc (Suc k)) (zip xp fp)"
proof -
  have l: "k < length (zip xp fp)" "Suc k < length (zip xp fp)" using assms by simp_all
  have e1: "zip xp fp = take k (zip xp fp) @ zip xp fp ! k # drop (Suc k) (zip xp fp)"
    by (rule id_take_nth_drop [OF l(1)])
  have e2: "drop (Suc k) (zip xp fp) = zip xp fp ! Suc k # drop (Suc (Suc k)) (zip xp fp)"
    by (rule Cons_nth_drop_Suc [OF l(2), symmetric])
  have e3: "zip xp fp ! k = (xp ! k, fp ! k)" "zip xp fp ! Suc k = (xp ! Suc k, fp ! Suc k)"
    using assms by simp_all
  show ?thesis using e1 unfolding e2 e3 .
qed

text \<open>\<open>np.interp\<close> at a knot of strictly increasing \<open>xp\<close> returns the value given
  there.\<close>

theorem np_interp_knot:
  assumes "sorted_wrt (<) xp" and "length xp = length fp" and "k < length xp"
  shows "np_interp (xp ! k) xp fp = Inr (fp ! k)"
proof -
  have "(xp ! k, fp ! k) \<in> set (zip xp fp)"
    using assms(2,3) by (metis in_set_conv_nth length_zip min.idem nth_zip)
  then have "interp_pts (xp ! k) (zip xp fp) = fp ! k"
    using assms(1,2) by (intro interp_pts_knot) simp_all
  with assms show ?thesis by (auto simp: np_interp_def)
qed

theorem np_interp_knot_witness:
  "sorted_wrt (<) [0, 10, 20 :: real] \<and> length [0, 10, 20 :: real] = length [-1, -3, -2 :: real]
   \<and> 1 < length [0, 10, 20 :: real] \<and> np_interp 10 [0, 10, 20] [-1, -3, -2] = Inr (-3)"
  using np_interp_knot [of "[0, 10, 20]" "[-1, -3, -2]" 1] by simp

text \<open>Between two consecutive knots of strictly increasing \<open>xp\<close>, \<open>np.interp\<close> is the
  straight line through them.\<close>

theorem np_interp_between:
  assumes "sorted_wrt (<) xp" and "length xp = length fp" and "Suc k < length xp"
    and "xp ! k \<le> x" and "x < xp ! Suc k"
  shows "np_interp x xp fp =
    Inr ((fp ! Suc k - fp ! k) / (xp ! Suc k - xp ! k) * (x - xp ! k) + fp ! k)"
proof -
  let ?ps = "zip xp fp"
  have ne: "xp \<noteq> []" "?ps \<noteq> []" using assms(2,3) by auto
  have mf: "map fst ?ps = xp" using assms(2) by simp
  have "hd xp \<le> xp ! k" "xp ! Suc k \<le> last xp"
    using assms(1,3) ne(1) by (auto intro: sorted_facts)
  moreover have "hd xp = fst (hd ?ps)" "last xp = fst (last ?ps)"
    using ne mf by (metis hd_map, metis last_map)
  ultimately have "fst (hd ?ps) \<le> x" "x \<le> fst (last ?ps)" using assms(4,5) by auto
  then have "interp_pts x ?ps = interp_seg x ?ps" by (simp add: interp_pts_def)
  also have "\<dots> = (fp ! Suc k - fp ! k) / (xp ! Suc k - xp ! k) * (x - xp ! k) + fp ! k"
    using zip_split_pair [OF assms(2,3)] interp_seg_between assms(1,4,5) mf by metis
  finally show ?thesis using ne assms(2) by (simp add: np_interp_def)
qed

theorem np_interp_between_witness:
  "sorted_wrt (<) [0, 10, 20 :: real] \<and> length [0, 10, 20 :: real] = length [-1, -3, -2 :: real]
   \<and> Suc 0 < length [0, 10, 20 :: real] \<and> [0, 10, 20 :: real] ! 0 \<le> 5 \<and> 5 < [0, 10, 20 :: real] ! Suc 0
   \<and> np_interp 5 [0, 10, 20] [-1, -3, -2] = Inr (-2)"
  using np_interp_between [of "[0, 10, 20]" "[-1, -3, -2]" 0 5] by simp

text \<open>Whatever the knots, a value returned by \<open>np.interp\<close> lies between the least and
  the greatest of the \<open>fp\<close> values.\<close>

theorem np_interp_bounds:
  assumes "np_interp x xp fp = Inr y"
  shows "Min (set fp) \<le> y \<and> y \<le> Max (set fp)"
proof -
  have ne: "zip xp fp \<noteq> []" and len: "length xp = length fp"
    and y: "y = interp_pts x (zip xp fp)"
    using assms by (auto simp: np_interp_def split: if_splits)
  have "snd ` set (zip xp fp) = set fp"
    using len by (metis list.set_map map_snd_zip)
  with interp_pts_bounds [OF ne, of x] y show ?thesis by simp
qed

theorem np_interp_bounds_witness:
  "np_interp 25 [0, 10, 20] [-1, -3, -2] = Inr (-2)
   \<and> Min (set [-1, -3, -2 :: real]) \<le> -2 \<and> -2 \<le> Max (set [-1, -3, -2 :: real])"
proof -
  have "np_interp 25 [0, 10, 20] [-1, -3, -2 :: real] = Inr (-2)"
    by (simp add: np_interp_def interp_pts_def)
  with np_interp_bounds [OF this] show ?thesis by simp
qed

text \<open>\<open>np.linspace(a, b, n)\<close> for \<open>n \<ge> 2\<close> starts at \<open>a\<close>, ends exactly at \<open>b\<close>,
  and its consecutive samples are \<open>(b - a) / (n - 1)\<close> apart.\<close>

theorem linspace_spacing:
  assumes "1 < n"
  shows "hd (linspace a b n) = a \<and> last (linspace a b n) = b
    \<and> (\<forall>i. Suc i < n \<longrightarrow> linspace a b n ! Suc i - linspace a b n ! i = (b - a) / real (n - 1))"
proof -
  have ne: "linspace a b n \<noteq> []" using assms by (auto simp: length_0_conv [symmetric])
  have "hd (linspace a b n) = linspace a b n ! 0" using ne by (simp add: hd_conv_nth)
  also have "\<dots> = a" using assms by (simp add: linspace_nth_0)
  finally have h: "hd (linspace a b n) = a" .
  have "last (linspace a b n) = linspace a b n ! (n - 1)" using ne by (simp add: last_conv_nth)
  also have "\<dots> = a + real (n - 1) * ((b - a) / real (n - 1))"
    using assms by (simp add: linspace_nth)
  also have "\<dots> = b" using assms by simp
  finally have l: "last (linspace a b n) = b" .
  have "linspace a b n ! Suc i - linspace a b n ! i = (b - a) / real (n - 1)" if "Suc i < n" for i
  proof -
    have "linspace a b n ! Suc i = a + real (Suc i) * ((b - a) / real (n - 1))"
      "linspace a b n ! i = a + real i * ((b - a) / real (n - 1))"
      using that assms by (simp_all add: linspace_nth)
    then show ?thesis by (simp add: of_nat_Suc distrib_right flip: diff_divide_distrib)
  qed
  with h l show ?thesis by blast
qed

theorem linspace_spacing_witness:
  "1 < (3::nat) \<and> linspace 0 1 3 = [0, 1 / 2, 1]
   \<and> hd (linspace 0 1 3) = 0 \<and> last (linspace 0 1 3) = 1
   \<and> linspace 0 1 3 ! 1 - linspace 0 1 3 ! 0 = 1 / 2 \<and> linspace 0 1 3 ! 2 - linspace 0 1 3 ! 1 = 1 / 2"
proof -
  have "linspace 0 1 3 = [0, 1 / 2, 1]" by (simp add: linspace_def eval_nat_numeral upt_rec)
  moreover have "1 < (3::nat)" by simp
  ultimately show ?thesis using linspace_spacing [of 3 0 1] by simp
qed

end
