(* ===== verification/Geodesy.thy ===== *)
theory Geodesy
  imports Numpy
begin

text \<open>
  Geographic points and the great-circle distance of \<open>extract_depth_profile\<close>
  (\<open>src/profile_module.py\<close>, lines 30--41): sample coordinates by \<open>linspace\<close>
  in latitude and longitude, and for each sample the haversine distance from the first
  endpoint with \<open>R = 6371000\<close>, computed as \<open>R * 2 * arctan2(sqrt a, sqrt(1 - a))\<close>.
  \<open>arctan2\<close> follows the IEEE/numpy quadrant rules (signed zeros are not modelled).
  The lemmas show that the haversine term \<open>a\<close> always lies in \<open>[0, 1]\<close> (so the
  square roots never see a negative argument and no NaN arises), that every distance lies
  in \<open>[0, pi R]\<close>, and that along a meridian or the equator the distance is exactly
  \<open>R\<close> times the angular separation when that is below 180 degrees.
\<close>

record geo_point =
  lat :: real
  lon :: real

definition earth_R :: real where
  "earth_R = 6371000"

definition radians :: "real \<Rightarrow> real" where
  "radians x = x * pi / 180"

definition arctan2 :: "real \<Rightarrow> real \<Rightarrow> real" where
  "arctan2 y x =
     (if 0 < x then arctan (y / x)
      else if x < 0 then (if 0 \<le> y then arctan (y / x) + pi else arctan (y / x) - pi)
      else if 0 < y then pi / 2
      else if y < 0 then - (pi / 2)
      else 0)"

definition hav_a :: "real \<Rightarrow> real \<Rightarrow> real \<Rightarrow> real \<Rightarrow> real" where
  "hav_a lat1_rad lat2_rad delta_lat delta_lon =
     sin (delta_lat / 2) ^ 2 + cos lat1_rad * cos lat2_rad * sin (delta_lon / 2) ^ 2"

definition central_angle :: "real \<Rightarrow> real" where
  "central_angle a = 2 * arctan2 (sqrt a) (sqrt (1 - a))"

definition haversine :: "geo_point \<Rightarrow> real \<Rightarrow> real \<Rightarrow> real" where
  "haversine p1 la lo =
     earth_R * central_angle
       (hav_a (radians (lat p1)) (radians la) (radians (la - lat p1)) (radians (lo - lon p1)))"

definition profile_distances :: "geo_point \<Rightarrow> geo_point \<Rightarrow> nat \<Rightarrow> real list" where
  "profile_distances p1 p2 n =
     map2 (haversine p1) (linspace (lat p1) (lat p2) n) (linspace (lon p1) (lon p2) n)"

subsection \<open>The haversine term lies in [0, 1]\<close>

lemma sin_half_sq: "sin ((d::real) / 2) ^ 2 = (1 - cos d) / 2"
  using cos_double_sin [of "d / 2"] by simp

lemma two_abs_mult_le: "2 * (\<bar>a\<bar> * \<bar>b\<bar>) \<le> (a::real)\<^sup>2 + b\<^sup>2"
proof -
  have "0 \<le> (\<bar>a\<bar> - \<bar>b\<bar>)\<^sup>2" by simp
  then show ?thesis by (simp add: power2_eq_square algebra_simps)
qed

lemma dot_bound:
  fixes s1 c1 s2 c2 k :: real
  assumes "s1\<^sup>2 + c1\<^sup>2 = 1" and "s2\<^sup>2 + c2\<^sup>2 = 1" and "\<bar>k\<bar> \<le> 1"
  shows "\<bar>s1 * s2 + c1 * c2 * k\<bar> \<le> 1"
proof -
  have "\<bar>c1 * c2 * k\<bar> \<le> \<bar>c1\<bar> * \<bar>c2\<bar>"
    using assms(3) by (simp add: abs_mult mult.commute mult_left_le_one_le)
  moreover have "\<bar>s1 * s2 + c1 * c2 * k\<bar> \<le> \<bar>s1\<bar> * \<bar>s2\<bar> + \<bar>c1 * c2 * k\<bar>"
    using abs_triangle_ineq [of "s1 * s2" "c1 * c2 * k"] by (simp add: abs_mult)
  ultimately have "\<bar>s1 * s2 + c1 * c2 * k\<bar> \<le> \<bar>s1\<bar> * \<bar>s2\<bar> + \<bar>c1\<bar> * \<bar>c2\<bar>"
    by linarith
  also have "\<dots> \<le> 1"
    using two_abs_mult_le [of s1 s2] two_abs_mult_le [of c1 c2] assms(1,2) by linarith
  finally show ?thesis .
qed

lemma hav_a_eq:
  "hav_a p q (q - p) l = (1 - (sin p * sin q + cos p * cos q * cos l)) / 2"
proof -
  have "hav_a p q (q - p) l = (1 - cos (q - p)) / 2 + cos p * cos q * ((1 - cos l) / 2)"
    by (simp add: hav_a_def sin_half_sq)
  then show ?thesis unfolding cos_diff by (simp add: field_simps)
qed

lemma hav_a_bounds: "0 \<le> hav_a p q (q - p) l \<and> hav_a p q (q - p) l \<le> 1"
proof -
  have "\<bar>sin p * sin q + cos p * cos q * cos l\<bar> \<le> 1"
    by (rule dot_bound) (simp_all add: abs_cos_le_one)
  then show ?thesis by (simp add: hav_a_eq abs_le_iff)
qed

lemma radians_diff: "radians (a - b) = radians a - radians b"
  by (simp add: radians_def algebra_simps diff_divide_distrib)

lemma haversine_a_bounds:
  "0 \<le> hav_a (radians (lat p1)) (radians la) (radians (la - lat p1)) d
   \<and> hav_a (radians (lat p1)) (radians la) (radians (la - lat p1)) d \<le> 1"
  using hav_a_bounds by (simp add: radians_diff)

subsection \<open>Central angle\<close>

lemma central_angle_bounds:
  assumes "0 \<le> a" and "a \<le> 1"
  shows "0 \<le> central_angle a \<and> central_angle a \<le> pi"
proof (cases "a < 1")
  case True
  then have pos: "0 < sqrt (1 - a)" by simp
  have "0 \<le> sqrt a / sqrt (1 - a)" using assms(1) pos by simp
  then have "0 \<le> arctan (sqrt a / sqrt (1 - a))"
    using arctan_monotone' [of 0] by simp
  moreover have "arctan (sqrt a / sqrt (1 - a)) < pi / 2" by (rule arctan_ubound)
  ultimately show ?thesis using pos by (simp add: central_angle_def arctan2_def)
next
  case False
  with assms have "a = 1" by simp
  then show ?thesis by (simp add: central_angle_def arctan2_def)
qed

lemma tan_abs: "\<bar>x\<bar> < pi / 2 \<Longrightarrow> \<bar>tan x\<bar> = tan \<bar>x\<bar>"
  by (smt (verit, ccfv_threshold) tan_minus tan_pos_pi2_le)

text \<open>On a great circle through the sample (a meridian, or the equator) the haversine
  term is \<open>sin\<^sup>2(d/2)\<close> and the central angle is exactly \<open>|d|\<close>.\<close>

lemma central_angle_axis:
  assumes "\<bar>d\<bar> < pi"
  shows "central_angle (sin (d / 2) ^ 2) = \<bar>d\<bar>"
proof -
  have h: "\<bar>d / 2\<bar> < pi / 2" using assms by simp
  then have cpos: "0 < cos (d / 2)" by (intro cos_gt_zero_pi) auto
  have s: "sqrt (sin (d / 2) ^ 2) = \<bar>sin (d / 2)\<bar>" by simp
  have "1 - sin (d / 2) ^ 2 = cos (d / 2) ^ 2" by (simp add: cos_squared_eq)
  then have c: "sqrt (1 - sin (d / 2) ^ 2) = cos (d / 2)" using cpos by simp
  have "\<bar>sin (d / 2)\<bar> / cos (d / 2) = \<bar>tan (d / 2)\<bar>"
    using cpos by (simp add: tan_def abs_divide)
  also have "\<dots> = tan \<bar>d / 2\<bar>" using h by (rule tan_abs)
  finally have q: "\<bar>sin (d / 2)\<bar> / cos (d / 2) = tan \<bar>d / 2\<bar>" .
  have "arctan (tan \<bar>d / 2\<bar>) = \<bar>d / 2\<bar>"
    using h by (intro arctan_tan) auto
  then show ?thesis
    using cpos by (simp add: central_angle_def arctan2_def s c q)
qed

subsection \<open>Haversine distance of one sample\<close>

lemma haversine_bounds: "0 \<le> haversine p1 la lo \<and> haversine p1 la lo \<le> pi * earth_R"
proof -
  let ?a = "hav_a (radians (lat p1)) (radians la) (radians (la - lat p1)) (radians (lo - lon p1))"
  have "0 \<le> central_angle ?a \<and> central_angle ?a \<le> pi"
    using haversine_a_bounds by (intro central_angle_bounds) auto
  then show ?thesis by (simp add: haversine_def earth_R_def)
qed

lemma haversine_self: "haversine p1 (lat p1) (lon p1) = 0"
  by (simp add: haversine_def hav_a_def central_angle_def arctan2_def radians_def)

lemma central_angle_pos:
  assumes "0 < a" and "a \<le> 1"
  shows "0 < central_angle a"
proof (cases "a < 1")
  case True
  then have "0 < sqrt a / sqrt (1 - a)" using assms(1) by simp
  then have "0 < arctan (sqrt a / sqrt (1 - a))" by (simp add: arctan_less_zero_iff [symmetric] not_less arctan_eq_zero_iff)
  then show ?thesis using True by (simp add: central_angle_def arctan2_def)
next
  case False
  with assms(2) have "a = 1" by simp
  then show ?thesis by (simp add: central_angle_def arctan2_def)
qed

lemma haversine_full_turn: "haversine p1 (lat p1) (lon p1 + 360) = 0"
proof -
  have "radians 360 / 2 = pi" and "radians 0 = 0" by (simp_all add: radians_def)
  then show ?thesis by (simp add: haversine_def hav_a_def central_angle_def arctan2_def)
qed

lemma haversine_meridian:
  assumes "\<bar>la - lat p1\<bar> < 180"
  shows "haversine p1 la (lon p1) = earth_R * radians \<bar>la - lat p1\<bar>"
proof -
  have "\<bar>radians (la - lat p1)\<bar> < pi" using assms by (simp add: radians_def abs_mult)
  then have "central_angle (sin (radians (la - lat p1) / 2) ^ 2) = \<bar>radians (la - lat p1)\<bar>"
    by (rule central_angle_axis)
  then show ?thesis
    by (simp add: haversine_def hav_a_def radians_def abs_mult)
qed

text \<open>Along the equator the distance is the arc length: \<open>R\<close> times the longitude
  difference in radians, for a difference below 180 degrees.\<close>

lemma haversine_equator:
  assumes "lat p1 = 0" and "\<bar>lo - lon p1\<bar> < 180"
  shows "haversine p1 0 lo = earth_R * radians \<bar>lo - lon p1\<bar>"
proof -
  have "\<bar>radians (lo - lon p1)\<bar> < pi" using assms(2) by (simp add: radians_def abs_mult)
  then have "central_angle (sin (radians (lo - lon p1) / 2) ^ 2) = \<bar>radians (lo - lon p1)\<bar>"
    by (rule central_angle_axis)
  then show ?thesis
    using assms(1) by (simp add: haversine_def hav_a_def radians_def abs_mult)
qed

subsection \<open>The distance column of a profile\<close>

lemma length_profile_distances [simp]: "length (profile_distances p1 p2 n) = n"
  by (simp add: profile_distances_def)

lemma profile_distances_nth:
  "i < n \<Longrightarrow> profile_distances p1 p2 n ! i =
     haversine p1 (linspace (lat p1) (lat p2) n ! i) (linspace (lon p1) (lon p2) n ! i)"
  by (simp add: profile_distances_def)

lemma profile_distances_first: "0 < n \<Longrightarrow> profile_distances p1 p2 n ! 0 = 0"
  by (simp add: profile_distances_nth linspace_nth_0 haversine_self)

lemma profile_distances_same: "profile_distances p p n = replicate n 0"
  by (rule nth_equalityI)
     (simp_all add: profile_distances_nth linspace_same haversine_self
        del: geo_point.surjective)

lemma profile_distances_bounds:
  "d \<in> set (profile_distances p1 p2 n) \<Longrightarrow> 0 \<le> d \<and> d \<le> pi * earth_R"
  by (auto simp: profile_distances_def haversine_bounds dest!: set_zip_leftD
      elim!: in_set_zipE)

lemma radians_mono: "x \<le> y \<Longrightarrow> radians x \<le> radians y"
  by (simp add: radians_def divide_right_mono mult_right_mono)

lemma profile_distances_meridian_nth:
  assumes "lon p2 = lon p1" and "\<bar>lat p2 - lat p1\<bar> < 180" and "i < n" and "1 < n"
  shows "profile_distances p1 p2 n ! i =
           earth_R * radians (real i * (\<bar>lat p2 - lat p1\<bar> / real (n - 1)))"
proof -
  let ?la = "linspace (lat p1) (lat p2) n ! i"
  have la: "?la - lat p1 = real i * ((lat p2 - lat p1) / real (n - 1))"
    using assms(3,4) by (simp add: linspace_nth)
  have le: "real i \<le> real (n - 1)" using assms(3) by simp
  have pos: "0 < real (n - 1)" using assms(4) by simp
  have r1: "real i / real (n - 1) \<le> 1"
    by (simp only: divide_le_eq_1_pos [OF pos] le)
  have eq: "\<bar>?la - lat p1\<bar> = real i / real (n - 1) * \<bar>lat p2 - lat p1\<bar>"
    unfolding la by (simp add: abs_mult)
  have "\<bar>?la - lat p1\<bar> \<le> \<bar>lat p2 - lat p1\<bar>"
    unfolding eq by (rule mult_left_le_one_le [OF abs_ge_zero _ r1]) simp
  then have "\<bar>?la - lat p1\<bar> < 180" using assms(2) by linarith
  then have "haversine p1 ?la (lon p1) = earth_R * radians \<bar>?la - lat p1\<bar>"
    by (rule haversine_meridian)
  moreover have "linspace (lon p1) (lon p2) n ! i = lon p1"
    using assms(1,3) by (simp add: linspace_same)
  ultimately show ?thesis
    using assms(3) by (simp add: profile_distances_nth la abs_mult)
qed

text \<open>C27. Along a meridian (and a separation below 180 degrees) the distance column is
  non-decreasing.\<close>

lemma profile_distances_meridian_sorted:
  assumes "lon p2 = lon p1" and "\<bar>lat p2 - lat p1\<bar> < 180"
  shows "sorted (profile_distances p1 p2 n)"
proof (cases "1 < n")
  case True
  show ?thesis
  proof (rule sorted_iff_nth_mono [THEN iffD2], intro allI impI)
    fix i j assume "i \<le> j" "j < length (profile_distances p1 p2 n)"
    then have ij: "i \<le> j" "j < n" by simp_all
    have "real i * (\<bar>lat p2 - lat p1\<bar> / real (n - 1)) \<le> real j * (\<bar>lat p2 - lat p1\<bar> / real (n - 1))"
      using ij(1) by (intro mult_right_mono) auto
    then have "earth_R * radians (real i * (\<bar>lat p2 - lat p1\<bar> / real (n - 1)))
        \<le> earth_R * radians (real j * (\<bar>lat p2 - lat p1\<bar> / real (n - 1)))"
      by (intro mult_left_mono radians_mono) (simp_all add: earth_R_def)
    then show "profile_distances p1 p2 n ! i \<le> profile_distances p1 p2 n ! j"
      using profile_distances_meridian_nth [OF assms le_less_trans [OF ij] True]
        profile_distances_meridian_nth [OF assms ij(2) True]
      by simp
  qed
next
  case False
  then have "n = 0 \<or> n = 1" by auto
  then show ?thesis by (auto simp: profile_distances_def linspace_def)
qed

text \<open>C26. In general the distance column is not sorted: for two spellings
  \<open>(la, lo)\<close> and \<open>(la, lo + 360)\<close> of one point off the poles, such as \<open>(0, -180)\<close> and
  \<open>(0, 180)\<close> on the antimeridian, the samples are interpolated in raw longitude and run
  once round the Earth, so the second distance is positive and the last one is 0.\<close>

theorem profile_distances_antimeridian:
  assumes la: "lat p2 = lat p1" and lo: "lon p2 = lon p1 + 360" and pole: "\<bar>lat p1\<bar> < 90"
    and n: "3 \<le> n"
  shows "last (profile_distances p1 p2 n) = 0 \<and> 0 < profile_distances p1 p2 n ! 1
         \<and> \<not> sorted (profile_distances p1 p2 n)"
proof -
  let ?d = "profile_distances p1 p2 n"
  have ne: "?d \<noteq> []" using n by (auto simp: length_0_conv [symmetric])
  have "last ?d = ?d ! (n - 1)" using ne by (simp add: last_conv_nth)
  also have "\<dots> = haversine p1 (lat p1) (lon p1 + 360)"
  proof -
    have "real n - 1 \<noteq> 0" using n by simp
    then have "(real n * 360 - 360) / (real n - 1) = 360" by (simp add: field_simps)
    then show ?thesis using n la lo by (simp add: profile_distances_nth linspace_same linspace_nth)
  qed
  also have "\<dots> = 0" by (rule haversine_full_turn)
  finally have last0: "last ?d = 0" .
  let ?h = "pi / real (n - 1)"
  have lin: "linspace (lon p1) (lon p2) n ! 1 - lon p1 = 360 / real (n - 1)"
    using n lo by (simp add: linspace_nth)
  have hpos: "0 < ?h" and hle: "?h \<le> pi / 2" using n by (simp_all add: field_simps)
  have "radians (360 / real (n - 1)) / 2 = ?h" by (simp add: radians_def)
  have "pi / 2 < pi" by simp
  with hle have "?h < pi" by (rule le_less_trans)
  then have s: "0 < sin ?h" using hpos by (intro sin_gt_zero)
  have c: "0 < cos (radians (lat p1))"
  proof (rule cos_gt_zero_pi)
    have l: "-90 < lat p1" and u: "lat p1 < 90" using pole by (simp_all add: abs_less_iff)
    have "(-90) * pi < lat p1 * pi" using mult_strict_right_mono [OF l pi_gt_zero] .
    moreover have "lat p1 * pi < 90 * pi" using mult_strict_right_mono [OF u pi_gt_zero] .
    ultimately show "- (pi / 2) < radians (lat p1)" and "radians (lat p1) < pi / 2"
      by (simp_all add: radians_def)
  qed
  let ?a = "hav_a (radians (lat p1)) (radians (lat p1)) (radians (lat p1 - lat p1)) (radians (360 / real (n - 1)))"
  have apos: "0 < ?a" using s c by (simp add: hav_a_def radians_def)
  have ale: "?a \<le> 1" using haversine_a_bounds [of p1 "lat p1"] by simp
  have "?d ! 1 = earth_R * central_angle ?a"
    using n la lin by (simp add: profile_distances_nth linspace_same haversine_def)
  then have pos1: "0 < ?d ! 1" using central_angle_pos [OF apos ale] by (simp add: earth_R_def)
  have "\<not> sorted ?d"
  proof
    assume "sorted ?d"
    then have "?d ! 1 \<le> ?d ! (n - 1)" using n by (intro sorted_nth_mono) auto
    then show False using pos1 last0 ne by (simp add: last_conv_nth)
  qed
  with last0 pos1 show ?thesis by blast
qed

theorem profile_distances_antimeridian_witness:
  "lat \<lparr>lat = 0, lon = 180\<rparr> = lat \<lparr>lat = 0, lon = -180\<rparr> \<and> lon \<lparr>lat = 0, lon = 180\<rparr> = lon \<lparr>lat = 0, lon = -180\<rparr> + 360
   \<and> \<bar>lat \<lparr>lat = 0, lon = -180\<rparr>\<bar> < 90 \<and> (3::nat) \<le> 3
   \<and> last (profile_distances \<lparr>lat = 0, lon = -180\<rparr> \<lparr>lat = 0, lon = 180\<rparr> 3) = 0
   \<and> \<not> sorted (profile_distances \<lparr>lat = 0, lon = -180\<rparr> \<lparr>lat = 0, lon = 180\<rparr> 3)"
  using profile_distances_antimeridian [of "\<lparr>lat = 0, lon = 180\<rparr>" "\<lparr>lat = 0, lon = -180\<rparr>" 3] by simp

theorem haversine_equator_witness:
  "lat \<lparr>lat = 0, lon = 0\<rparr> = 0 \<and> \<bar>1 - lon \<lparr>lat = 0, lon = 0\<rparr>\<bar> < 180
   \<and> haversine \<lparr>lat = 0, lon = 0\<rparr> 0 1 = earth_R * pi / 180"
  using haversine_equator [of "\<lparr>lat = 0, lon = 0\<rparr>" 1] by (simp add: radians_def)

theorem profile_distances_meridian_sorted_witness:
  "lon \<lparr>lat = 10, lon = 29\<rparr> = lon \<lparr>lat = 41, lon = 29\<rparr>
   \<and> \<bar>lat \<lparr>lat = 10, lon = 29\<rparr> - lat \<lparr>lat = 41, lon = 29\<rparr>\<bar> < 180
   \<and> sorted (profile_distances \<lparr>lat = 41, lon = 29\<rparr> \<lparr>lat = 10, lon = 29\<rparr> 50)"
  using profile_distances_meridian_sorted [of "\<lparr>lat = 10, lon = 29\<rparr>" "\<lparr>lat = 41, lon = 29\<rparr>" 50]
  by simp

end
