(* ===== verification/Dataset.thy ===== *)
theory Dataset
  imports Beach_Prelude
begin

text \<open>
  The gridded bathymetry as \<open>extract_depth_profile\<close> reads it
  (\<open>src/profile_module.py\<close>, lines 44--62).  A dataset is the list of its data
  variables in \<open>ds.data_vars\<close> order; a variable has a name, its coordinates (name and
  axis values, in \<open>.coords\<close> order) and its values indexed by latitude position, then
  longitude position; a NaN cell (land in the "no land" raster) is \<open>None\<close>.
  \<^item> \<open>select_depth_var\<close>: the first variable whose lower-cased name contains
    \<open>depth\<close> or \<open>elevation\<close>, else the first variable, \<open>IndexError\<close> if there is none;
  \<^item> \<open>find_coord\<close>: \<open>[c for c in coords if key in c.lower()][0]\<close>;
  \<^item> \<open>nearest_scan\<close>, \<open>nearest_last\<close>, \<open>sel_nearest\<close>: \<open>.sel(..., method='nearest')\<close>
    on one axis, as pandas' \<open>Index.get_indexer\<close> computes it: \<open>KeyError\<close> on an empty
    axis (xarray's error for the position -1), \<open>InvalidIndexError\<close> on repeated values,
    \<open>ValueError\<close> on an axis that is neither increasing nor decreasing; otherwise the
    nearest position, a distance tie going to the later position on an increasing axis
    and to the earlier one on a decreasing axis (the scan of the reversed axis);
  \<^item> \<open>sel_value\<close>: the per-sample \<open>try\<close> of line 58: the cell at the two nearest
    positions, NaN (\<open>None\<close>) when anything raises.
  The lemmas show the variable choice, every error of \<open>sel_nearest\<close>, that on a monotone
  axis it returns an in-range index of minimal distance with the tie rule of pandas, and
  that an exact axis value is found.\<close>

record data_var =
  var_name :: string
  var_coords :: "(string \<times> real list) list"
  var_values :: "real option list list"

type_synonym dataset = "data_var list"

definition is_depth_name :: "string \<Rightarrow> bool" where
  "is_depth_name v \<longleftrightarrow> str_contains ''depth'' (lower v) \<or> str_contains ''elevation'' (lower v)"

definition select_depth_var :: "dataset \<Rightarrow> py_error + data_var" where
  "select_depth_var ds =
     (case find (\<lambda>v. is_depth_name (var_name v)) ds of
        Some v \<Rightarrow> Inr v
      | None \<Rightarrow> (case ds of [] \<Rightarrow> Inl IndexError | v # _ \<Rightarrow> Inr v))"

definition find_coord :: "string \<Rightarrow> (string \<times> real list) list \<Rightarrow> py_error + real list" where
  "find_coord key cs =
     (case filter (\<lambda>c. str_contains key (lower (fst c))) cs of
        [] \<Rightarrow> Inl IndexError
      | c # _ \<Rightarrow> Inr (snd c))"

fun nearest_scan :: "real list \<Rightarrow> real \<Rightarrow> nat \<Rightarrow> nat \<Rightarrow> real \<Rightarrow> nat" where
  "nearest_scan [] x i bi bd = bi"
| "nearest_scan (a # as) x i bi bd =
     (if \<bar>a - x\<bar> \<le> bd then nearest_scan as x (Suc i) i \<bar>a - x\<bar>
      else nearest_scan as x (Suc i) bi bd)"

definition nearest_last :: "real list \<Rightarrow> real \<Rightarrow> nat" where
  "nearest_last axis x = (case axis of [] \<Rightarrow> 0 | a # as \<Rightarrow> nearest_scan as x 1 0 \<bar>a - x\<bar>)"

definition sel_nearest :: "real list \<Rightarrow> real \<Rightarrow> py_error + nat" where
  "sel_nearest axis x =
     (if axis = [] then Inl KeyError
      else if \<not> distinct axis then Inl InvalidIndexError
      else if sorted axis then Inr (nearest_last axis x)
      else if sorted (rev axis) then Inr (length axis - 1 - nearest_last (rev axis) x)
      else Inl ValueError)"

definition sel_value :: "data_var \<Rightarrow> real list \<Rightarrow> real list \<Rightarrow> real \<Rightarrow> real \<Rightarrow> real option" where
  "sel_value v lat_axis lon_axis la lo =
     (case (sel_nearest lat_axis la, sel_nearest lon_axis lo) of
        (Inr i, Inr j) \<Rightarrow>
          (case py_index (var_values v) i of
             Inr row \<Rightarrow> (case py_index row j of Inr d \<Rightarrow> d | Inl _ \<Rightarrow> None)
           | Inl _ \<Rightarrow> None)
      | _ \<Rightarrow> None)"

subsection \<open>Variable and coordinate choice\<close>

lemma select_depth_var_found:
  "find (\<lambda>v. is_depth_name (var_name v)) ds = Some v \<Longrightarrow> select_depth_var ds = Inr v"
  by (simp add: select_depth_var_def)

lemma select_depth_var_fallback:
  assumes "\<forall>v\<in>set ds. \<not> is_depth_name (var_name v)"
  shows "select_depth_var ds = (case ds of [] \<Rightarrow> Inl IndexError | v # _ \<Rightarrow> Inr v)"
proof -
  have "find (\<lambda>v. is_depth_name (var_name v)) ds = None"
    using assms by (auto simp: find_None_iff)
  then show ?thesis by (simp add: select_depth_var_def)
qed

lemma select_depth_var_in_set: "select_depth_var ds = Inr v \<Longrightarrow> v \<in> set ds"
  by (auto simp: select_depth_var_def split: option.splits list.splits
      dest: find_Some_iff [THEN iffD1] intro: nth_mem)

lemma find_coord_Inr:
  assumes "find_coord key cs = Inr ax"
  shows "\<exists>n. (n, ax) \<in> set cs \<and> sublist key (lower n)"
proof -
  obtain c rest where f: "filter (\<lambda>c. str_contains key (lower (fst c))) cs = c # rest"
    and ax: "ax = snd c"
    using assms by (auto simp: find_coord_def split: list.splits)
  then have "c \<in> set (filter (\<lambda>c. str_contains key (lower (fst c))) cs)" by simp
  then show ?thesis using ax by (auto simp: str_contains_sublist intro!: exI [of _ "fst c"])
qed

subsection \<open>Nearest-neighbour selection\<close>

lemma nearest_scan_spec:
  assumes "ax = pre @ as" and "i = length pre" and "bi < i"
    and "bd = \<bar>ax ! bi - x\<bar>"
    and "\<forall>j<i. bd \<le> \<bar>ax ! j - x\<bar>"
    and "\<forall>j. bi < j \<and> j < i \<longrightarrow> bd < \<bar>ax ! j - x\<bar>"
  shows "nearest_scan as x i bi bd < length ax
    \<and> (\<forall>j<length ax. \<bar>ax ! nearest_scan as x i bi bd - x\<bar> \<le> \<bar>ax ! j - x\<bar>)
    \<and> (\<forall>j. nearest_scan as x i bi bd < j \<and> j < length ax
          \<longrightarrow> \<bar>ax ! nearest_scan as x i bi bd - x\<bar> < \<bar>ax ! j - x\<bar>)"
  using assms
proof (induction as arbitrary: pre i bi bd)
  case Nil
  then show ?case by simp
next
  case (Cons a as)
  have ai: "ax ! i = a" using Cons.prems(1,2) by simp
  have ax': "ax = (pre @ [a]) @ as" and len': "Suc i = length (pre @ [a])"
    using Cons.prems(1,2) by simp_all
  show ?case
  proof (cases "\<bar>a - x\<bar> \<le> bd")
    case True
    have "\<forall>j<Suc i. \<bar>a - x\<bar> \<le> \<bar>ax ! j - x\<bar>"
      using True Cons.prems(5) ai by (auto simp: less_Suc_eq)
    then have "nearest_scan as x (Suc i) i \<bar>a - x\<bar> < length ax
      \<and> (\<forall>j<length ax. \<bar>ax ! nearest_scan as x (Suc i) i \<bar>a - x\<bar> - x\<bar> \<le> \<bar>ax ! j - x\<bar>)
      \<and> (\<forall>j. nearest_scan as x (Suc i) i \<bar>a - x\<bar> < j \<and> j < length ax
          \<longrightarrow> \<bar>ax ! nearest_scan as x (Suc i) i \<bar>a - x\<bar> - x\<bar> < \<bar>ax ! j - x\<bar>)"
      using ax' len' ai by (intro Cons.IH) auto
    with True show ?thesis by simp
  next
    case False
    have "\<forall>j<Suc i. bd \<le> \<bar>ax ! j - x\<bar>"
      using False Cons.prems(5) ai by (auto simp: less_Suc_eq)
    moreover have "\<forall>j. bi < j \<and> j < Suc i \<longrightarrow> bd < \<bar>ax ! j - x\<bar>"
      using False Cons.prems(6) ai by (auto simp: less_Suc_eq)
    ultimately have "nearest_scan as x (Suc i) bi bd < length ax
      \<and> (\<forall>j<length ax. \<bar>ax ! nearest_scan as x (Suc i) bi bd - x\<bar> \<le> \<bar>ax ! j - x\<bar>)
      \<and> (\<forall>j. nearest_scan as x (Suc i) bi bd < j \<and> j < length ax
          \<longrightarrow> \<bar>ax ! nearest_scan as x (Suc i) bi bd - x\<bar> < \<bar>ax ! j - x\<bar>)"
      using ax' len' Cons.prems(3,4) by (intro Cons.IH) auto
    with False show ?thesis by simp
  qed
qed

lemma nearest_last_spec:
  assumes "axis \<noteq> []"
  shows "nearest_last axis x < length axis
    \<and> (\<forall>j<length axis. \<bar>axis ! nearest_last axis x - x\<bar> \<le> \<bar>axis ! j - x\<bar>)
    \<and> (\<forall>j. nearest_last axis x < j \<and> j < length axis
          \<longrightarrow> \<bar>axis ! nearest_last axis x - x\<bar> < \<bar>axis ! j - x\<bar>)"
proof -
  obtain a as where ax: "axis = a # as" using assms by (cases axis) auto
  show ?thesis
    unfolding ax nearest_last_def list.case by (rule nearest_scan_spec [where pre = "[a]"]) auto
qed

text \<open>The decreasing case: the last nearest position of the reversed axis is the first
  nearest position of the axis.\<close>

lemma nearest_first_spec:
  assumes "axis \<noteq> []" and k: "k = length axis - 1 - nearest_last (rev axis) x"
  shows "k < length axis
    \<and> (\<forall>j<length axis. \<bar>axis ! k - x\<bar> \<le> \<bar>axis ! j - x\<bar>)
    \<and> (\<forall>j<k. \<bar>axis ! k - x\<bar> < \<bar>axis ! j - x\<bar>)"
proof -
  let ?n = "length axis" and ?r = "nearest_last (rev axis) x"
  have sp: "?r < ?n" "\<forall>j<?n. \<bar>rev axis ! ?r - x\<bar> \<le> \<bar>rev axis ! j - x\<bar>"
    "\<forall>j. ?r < j \<and> j < ?n \<longrightarrow> \<bar>rev axis ! ?r - x\<bar> < \<bar>rev axis ! j - x\<bar>"
    using nearest_last_spec [of "rev axis" x] assms(1) by auto
  have kk: "axis ! k = rev axis ! ?r" using sp(1) k by (simp add: rev_nth)
  have rj: "axis ! j = rev axis ! (?n - 1 - j)" if "j < ?n" for j
    using that by (simp add: rev_nth)
  have "\<forall>j<?n. \<bar>axis ! k - x\<bar> \<le> \<bar>axis ! j - x\<bar>"
    using sp(2) kk rj by (metis diff_less_Suc less_imp_diff_less Suc_pred' length_greater_0_conv assms(1))
  moreover have "\<forall>j<k. \<bar>axis ! k - x\<bar> < \<bar>axis ! j - x\<bar>"
  proof (intro allI impI)
    fix j assume "j < k"
    then have "?r < ?n - 1 - j" "?n - 1 - j < ?n" "j < ?n" using k sp(1) by auto
    then show "\<bar>axis ! k - x\<bar> < \<bar>axis ! j - x\<bar>" using sp(3) kk rj by metis
  qed
  ultimately show ?thesis using k assms(1) by simp
qed

lemma sel_nearest_Inr_iff:
  "(\<exists>k. sel_nearest axis x = Inr k) \<longleftrightarrow> axis \<noteq> [] \<and> distinct axis \<and> (sorted axis \<or> sorted (rev axis))"
  by (simp add: sel_nearest_def)

lemma sel_nearest_spec:
  assumes "sel_nearest axis x = Inr k"
  shows "k < length axis \<and> (\<forall>j<length axis. \<bar>axis ! k - x\<bar> \<le> \<bar>axis ! j - x\<bar>)"
proof (cases "sorted axis")
  case True
  with assms have "axis \<noteq> []" "k = nearest_last axis x" by (auto simp: sel_nearest_def split: if_splits)
  then show ?thesis using nearest_last_spec by blast
next
  case False
  with assms have "axis \<noteq> []" "k = length axis - 1 - nearest_last (rev axis) x"
    by (auto simp: sel_nearest_def split: if_splits)
  then show ?thesis using nearest_first_spec by blast
qed

lemma sel_nearest_exact:
  assumes "sorted_wrt (<) axis" and "k < length axis"
  shows "sel_nearest axis (axis ! k) = Inr k"
proof -
  have "distinct axis" "sorted axis" using assms(1) by (simp_all add: strict_sorted_iff)
  then obtain r where r: "sel_nearest axis (axis ! k) = Inr r"
    using assms(2) sel_nearest_Inr_iff by fastforce
  from sel_nearest_spec [OF r] have "r < length axis"
    and "\<bar>axis ! r - axis ! k\<bar> \<le> \<bar>axis ! k - axis ! k\<bar>" using assms(2) by auto
  then have "axis ! r = axis ! k" by simp
  then have "r = k" using \<open>distinct axis\<close> assms(2) \<open>r < length axis\<close>
    by (metis nth_eq_iff_index_eq)
  with r show ?thesis by simp
qed

text \<open>Choice of the depth variable: the first data variable whose lower-cased name
  contains \<open>depth\<close> or \<open>elevation\<close> is taken, whatever follows it.\<close>

theorem select_depth_var_first:
  assumes "is_depth_name (var_name v)" and "\<forall>w\<in>set pre. \<not> is_depth_name (var_name w)"
  shows "select_depth_var (pre @ v # post) = Inr v"
proof -
  have "find (\<lambda>v. is_depth_name (var_name v)) (pre @ v # post) = Some v"
    using assms by (induction pre) auto
  then show ?thesis by (rule select_depth_var_found)
qed

theorem select_depth_var_first_witness:
  "is_depth_name (var_name \<lparr>var_name = ''Elevation'', var_coords = [], var_values = []\<rparr>)
   \<and> list_all (\<lambda>w. \<not> is_depth_name (var_name w)) [\<lparr>var_name = ''crs'', var_coords = [], var_values = []\<rparr>]
   \<and> select_depth_var [\<lparr>var_name = ''crs'', var_coords = [], var_values = []\<rparr>,
        \<lparr>var_name = ''Elevation'', var_coords = [], var_values = []\<rparr>]
      = Inr \<lparr>var_name = ''Elevation'', var_coords = [], var_values = []\<rparr>"
proof -
  have h: "is_depth_name (var_name \<lparr>var_name = ''Elevation'', var_coords = [], var_values = []\<rparr>)"
    "\<forall>w\<in>set [\<lparr>var_name = ''crs'', var_coords = [], var_values = []\<rparr>]. \<not> is_depth_name (var_name w)"
    by (simp_all add: is_depth_name_def lower_def lower_char_def)
  show ?thesis using select_depth_var_first [OF h, of "[]"] h by (simp add: list_all_iff)
qed

text \<open>With no depth-like name the first variable is taken, even one such as a
  \<open>crs\<close> grid-mapping variable that holds no depths.\<close>

theorem select_depth_var_no_depth_name:
  assumes "\<forall>v\<in>set (w # ds). \<not> is_depth_name (var_name v)"
  shows "select_depth_var (w # ds) = Inr w"
  using select_depth_var_fallback [OF assms] by simp

theorem select_depth_var_no_depth_name_witness:
  "list_all (\<lambda>v. \<not> is_depth_name (var_name v)) [\<lparr>var_name = ''crs'', var_coords = [], var_values = []\<rparr>]
   \<and> select_depth_var [\<lparr>var_name = ''crs'', var_coords = [], var_values = []\<rparr>]
      = Inr \<lparr>var_name = ''crs'', var_coords = [], var_values = []\<rparr>"
proof -
  have h: "\<forall>v\<in>set [\<lparr>var_name = ''crs'', var_coords = [], var_values = []\<rparr>]. \<not> is_depth_name (var_name v)"
    by (simp add: is_depth_name_def lower_def lower_char_def)
  show ?thesis using select_depth_var_no_depth_name [OF h] h by (simp add: list_all_iff)
qed





text \<open>Sampling exactly at a grid node (strictly increasing axes) reads the value
  stored at that node, NaN included.\<close>

theorem sel_value_node:
  assumes "sorted_wrt (<) lat_axis" and "sorted_wrt (<) lon_axis"
    and "i < length lat_axis" and "j < length lon_axis"
    and "i < length (var_values v)" and "j < length (var_values v ! i)"
  shows "sel_value v lat_axis lon_axis (lat_axis ! i) (lon_axis ! j) = var_values v ! i ! j"
  using assms by (simp add: sel_value_def sel_nearest_exact)

theorem sel_value_node_witness:
  "sorted_wrt (<) [0, 1 :: real] \<and> sorted_wrt (<) [10, 20 :: real]
   \<and> 1 < length [0, 1 :: real] \<and> 0 < length [10, 20 :: real]
   \<and> 1 < length (var_values \<lparr>var_name = ''depth'', var_coords = [],
                   var_values = [[Some (-1), Some (-2)], [None, Some (-4)]]\<rparr>)
   \<and> 0 < length (var_values \<lparr>var_name = ''depth'', var_coords = [],
                   var_values = [[Some (-1), Some (-2)], [None, Some (-4)]]\<rparr> ! 1)
   \<and> sel_value \<lparr>var_name = ''depth'', var_coords = [],
        var_values = [[Some (-1), Some (-2)], [None, Some (-4)]]\<rparr> [0, 1] [10, 20] 1 10 = None"
  using sel_value_node [of "[0, 1]" "[10, 20]" 1 0
      "\<lparr>var_name = ''depth'', var_coords = [], var_values = [[Some (-1), Some (-2)], [None, Some (-4)]]\<rparr>"]
  by simp

end
