(* ===== verification/Profile.thy ===== *)
theory Profile
  imports Geodesy Dataset
begin

text \<open>
  \<open>extract_depth_profile(ds, point1, point2, num_points)\<close> of
  \<open>src/profile_module.py\<close> (lines 26--78), composed from the pieces of
  \<open>Numpy\<close>, \<open>Geodesy\<close> and \<open>Dataset\<close>:
  \<^item> \<open>valid_from\<close> and \<open>fill_gaps\<close> (lines 64--71): if a sample is NaN and more than
    one is valid, every sample becomes \<open>np.interp\<close> of its index over the valid
    (index, value) pairs; otherwise NaNs become \<open>-5.0\<close>;
  \<^item> \<open>flip_sign\<close> (lines 73--74): negate the whole list when its mean is positive
    (\<open>np.nanmean\<close> of an empty array is NaN, and \<open>NaN > 0\<close> is false);
  \<^item> \<open>sample_depths\<close> (lines 43--76): the body of the outer \<open>try\<close>, with the
    variable and coordinate choice as its possible exceptions;
  \<^item> \<open>extract_depth_profile\<close>: \<open>None\<close> for \<open>(None, None)\<close> when the dataset did not
    load, otherwise the distances and, if the \<open>try\<close> raised, \<open>n\<close> zeros.
  The lemmas give the lengths, the kept samples, the interpolated single gap, the
  \<open>-5.0\<close> fallback, bounds of filled values, the sign convention, and the behaviour of the
  whole extraction on each of its paths.
\<close>

subsection \<open>Definitions\<close>

fun valid_from :: "nat \<Rightarrow> real option list \<Rightarrow> (real \<times> real) list" where
  "valid_from i [] = []"
| "valid_from i (None # xs) = valid_from (Suc i) xs"
| "valid_from i (Some v # xs) = (real i, v) # valid_from (Suc i) xs"

definition fill_gaps :: "real option list \<Rightarrow> real list" where
  "fill_gaps xs =
     (if None \<in> set xs then
        (let vs = valid_from 0 xs
         in if 1 < length vs then map (\<lambda>i. interp_pts (real i) vs) [0..<length xs]
            else map (\<lambda>x. case x of None \<Rightarrow> -5 | Some v \<Rightarrow> v) xs)
      else map the xs)"

definition mean_positive :: "real list \<Rightarrow> bool" where
  "mean_positive ds \<longleftrightarrow> ds \<noteq> [] \<and> 0 < sum_list ds / real (length ds)"

definition flip_sign :: "real list \<Rightarrow> real list" where
  "flip_sign ds = (if mean_positive ds then map uminus ds else ds)"

definition sample_depths :: "dataset \<Rightarrow> real list \<Rightarrow> real list \<Rightarrow> py_error + real list" where
  "sample_depths d lats lons =
     (case select_depth_var d of
        Inl e \<Rightarrow> Inl e
      | Inr v \<Rightarrow>
          (case find_coord ''lat'' (var_coords v) of
             Inl e \<Rightarrow> Inl e
           | Inr lat_axis \<Rightarrow>
               (case find_coord ''lon'' (var_coords v) of
                  Inl e \<Rightarrow> Inl e
                | Inr lon_axis \<Rightarrow>
                    Inr (flip_sign (fill_gaps (map2 (sel_value v lat_axis lon_axis) lats lons))))))"

definition extract_depth_profile ::
  "dataset option \<Rightarrow> geo_point \<Rightarrow> geo_point \<Rightarrow> nat \<Rightarrow> (real list \<times> real list) option" where
  "extract_depth_profile ds point1 point2 num_points =
     (case ds of
        None \<Rightarrow> None
      | Some d \<Rightarrow>
          (let lats = linspace (lat point1) (lat point2) num_points;
               lons = linspace (lon point1) (lon point2) num_points;
               distances = profile_distances point1 point2 num_points
           in case sample_depths d lats lons of
                Inr depths \<Rightarrow> Some (distances, depths)
              | Inl _ \<Rightarrow> Some (distances, replicate (length distances) 0)))"

subsection \<open>The valid samples\<close>

lemma valid_from_append: "valid_from j (ys @ zs) = valid_from j ys @ valid_from (j + length ys) zs"
  by (induction j ys rule: valid_from.induct) simp_all

lemma valid_from_fst: "(a, b) \<in> set (valid_from j xs) \<Longrightarrow> real j \<le> a"
  by (induction j xs rule: valid_from.induct) fastforce+

lemma valid_from_sorted: "sorted_wrt (<) (map fst (valid_from j xs))"
  by (induction j xs rule: valid_from.induct) (auto dest: valid_from_fst)

lemma valid_from_nth:
  "i < length xs \<Longrightarrow> xs ! i = Some v \<Longrightarrow> (real (j + i), v) \<in> set (valid_from j xs)"
proof (induction j xs arbitrary: i rule: valid_from.induct)
  case (1 j)
  then show ?case by simp
next
  case (2 j xs)
  then show ?case by (cases i) (auto simp: add_Suc_right [symmetric] simp del: add_Suc_right)
next
  case (3 j w xs)
  then show ?case by (cases i) (auto simp: add_Suc_right [symmetric] simp del: add_Suc_right)
qed

lemma valid_from_values: "snd ` set (valid_from j xs) = {v. Some v \<in> set xs}"
  by (induction j xs rule: valid_from.induct) auto

lemma valid_from_map_Some_length: "length (valid_from j (map Some as)) = length as"
  by (induction as arbitrary: j) simp_all

lemma valid_from_None_length:
  "length (valid_from j xs) = length (filter (\<lambda>x. x \<noteq> None) xs)"
  by (induction j xs rule: valid_from.induct) simp_all

lemma np_interp_valid:
  "vs \<noteq> [] \<Longrightarrow> np_interp x (map fst vs) (map snd vs) = Inr (interp_pts x vs)"
  by (simp add: np_interp_def zip_map_fst_snd)

lemma interp_pts_inner:
  assumes "sorted_wrt (<) (map fst ps)" and "(x0, y0) \<in> set ps" and "(x1, y1) \<in> set ps"
    and "x0 \<le> x" and "x \<le> x1"
  shows "interp_pts x ps = interp_seg x ps"
proof -
  have "x0 \<in> set (map fst ps)" "x1 \<in> set (map fst ps)" using assms(2,3) by force+
  then have "hd (map fst ps) \<le> x0" "x1 \<le> last (map fst ps)"
    using assms(1) sorted_wrt_less_hd_le sorted_wrt_less_le_last by blast+
  moreover have "ps \<noteq> []" using assms(2) by auto
  ultimately show ?thesis using assms(4,5) by (simp add: interp_pts_def hd_map last_map)
qed

subsection \<open>Gap filling\<close>

lemma length_fill_gaps [simp]: "length (fill_gaps xs) = length xs"
  by (simp add: fill_gaps_def Let_def)

lemma fill_gaps_no_gap: "None \<notin> set xs \<Longrightarrow> fill_gaps xs = map the xs"
  by (simp add: fill_gaps_def)

lemma valid_from_replicate_None: "valid_from j (replicate k None) = []"
  by (induction k arbitrary: j) simp_all

lemma sum_fallback_fill:
  "sum_list (map (\<lambda>x. case x of None \<Rightarrow> -5 | Some w \<Rightarrow> w) xs)
     = sum_list (map the (filter (\<lambda>x. x \<noteq> None) xs)) - 5 * real (count_list xs None)"
  by (induction xs) (auto split: option.splits)

lemma fill_gaps_interp:
  "None \<in> set xs \<Longrightarrow> 1 < length (valid_from 0 xs) \<Longrightarrow> i < length xs \<Longrightarrow>
     fill_gaps xs ! i = interp_pts (real i) (valid_from 0 xs)"
  by (simp add: fill_gaps_def Let_def)

text \<open>Gap filling never changes a valid sample.\<close>

lemma fill_gaps_keeps:
  assumes "i < length xs" and "xs ! i = Some v"
  shows "fill_gaps xs ! i = v"
proof -
  have mem: "(real i, v) \<in> set (valid_from 0 xs)" using valid_from_nth [OF assms, of 0] by simp
  show ?thesis
    using assms interp_pts_knot [OF valid_from_sorted mem]
    by (auto simp: fill_gaps_def Let_def)
qed

text \<open>With at most one valid sample, every missing sample becomes -5.0 m.\<close>

lemma fill_gaps_few_valid:
  assumes "length (valid_from 0 xs) \<le> 1" and "i < length xs" and "xs ! i = None"
  shows "fill_gaps xs ! i = -5"
proof -
  have "None \<in> set xs" using assms(2,3) by (metis nth_mem)
  with assms show ?thesis by (simp add: fill_gaps_def)
qed

text \<open>C35. With at least two valid samples, every filled depth lies between the smallest
  and the largest valid sample.\<close>

lemma fill_gaps_bounds:
  assumes "1 < length (valid_from 0 xs)" and "d \<in> set (fill_gaps xs)"
  shows "Min {v. Some v \<in> set xs} \<le> d \<and> d \<le> Max {v. Some v \<in> set xs}"
proof -
  let ?V = "{v. Some v \<in> set xs}"
  have vs: "valid_from 0 xs \<noteq> []" using assms(1) by auto
  have fin: "finite ?V" using valid_from_values [of 0 xs] by (metis finite_imageI finite_set)
  show ?thesis
  proof (cases "None \<in> set xs")
    case True
    then obtain i where "d = interp_pts (real i) (valid_from 0 xs)"
      using assms by (auto simp: fill_gaps_def Let_def)
    then show ?thesis using interp_pts_bounds [OF vs] by (simp add: valid_from_values)
  next
    case False
    then obtain x where "x \<in> set xs" "d = the x" using assms(2) by (auto simp: fill_gaps_no_gap)
    with False have "d \<in> ?V" by (cases x) auto
    with fin show ?thesis by simp
  qed
qed

text \<open>C8. A single missing sample between two valid neighbours is filled with the
  linear interpolation by index, i.e.\ the mean of the two neighbours.\<close>

lemma fill_gaps_single_gap:
  assumes "as \<noteq> []" and "bs \<noteq> []"
  shows "fill_gaps (map Some as @ None # map Some bs) ! length as = (last as + hd bs) / 2"
proof -
  obtain as' a where as: "as = as' @ [a]" using assms(1) by (metis rev_exhaust)
  obtain b bs' where bs: "bs = b # bs'" using assms(2) by (cases bs) auto
  let ?k = "length as'"
  let ?xs = "map Some as @ None # map Some bs"
  let ?vs = "valid_from 0 ?xs"
  have vs: "?vs = valid_from 0 (map Some as') @ [(real ?k, a)]
      @ (real (Suc (Suc ?k)), b) # valid_from (Suc (Suc (Suc ?k))) (map Some bs')"
    by (simp add: as bs valid_from_append)
  have sorted: "sorted_wrt (<) (map fst ?vs)" by (rule valid_from_sorted)
  then have sorted': "sorted_wrt (<) (map fst (valid_from 0 (map Some as') @
      (real ?k, a) # (real (Suc (Suc ?k)), b) # valid_from (Suc (Suc (Suc ?k))) (map Some bs')))"
    unfolding vs by simp
  have in1: "(real ?k, a) \<in> set ?vs" and in2: "(real (Suc (Suc ?k)), b) \<in> set ?vs"
    unfolding vs by auto
  have "None \<in> set ?xs" by simp
  moreover have "1 < length ?vs" unfolding vs by simp
  moreover have "length as < length ?xs" by simp
  ultimately have "fill_gaps ?xs ! length as = interp_pts (real (length as)) ?vs"
    by (rule fill_gaps_interp)
  also have "\<dots> = interp_pts (real (Suc ?k)) ?vs" by (simp add: as)
  also have "\<dots> = interp_seg (real (Suc ?k)) ?vs"
    by (rule interp_pts_inner [OF sorted in1 in2]) simp_all
  also have "\<dots> = (b - a) / (real (Suc (Suc ?k)) - real ?k) * (real (Suc ?k) - real ?k) + a"
    unfolding vs using interp_seg_between [OF sorted'] by simp
  also have "\<dots> = (last as + hd bs) / 2" by (simp add: as bs field_simps)
  finally show ?thesis .
qed

subsection \<open>Sign convention\<close>

lemma length_flip_sign [simp]: "length (flip_sign ds) = length ds"
  by (simp add: flip_sign_def)

lemma flip_sign_not_positive: "\<not> mean_positive (flip_sign ds)"
proof (cases "mean_positive ds")
  case True
  then have "0 < sum_list ds"
    by (simp add: mean_positive_def zero_less_divide_iff)
  then have "\<not> 0 < sum_list (map uminus ds) / real (length ds)"
    by (simp add: sum_list_map_uminus not_less divide_nonneg_nonneg)
  with True show ?thesis by (simp add: flip_sign_def mean_positive_def)
next
  case False
  then show ?thesis by (simp add: flip_sign_def)
qed

lemma flip_sign_all_positive:
  assumes "ds \<noteq> []" and "\<forall>d\<in>set ds. 0 < d"
  shows "flip_sign ds = map uminus ds"
proof -
  have "0 < sum_list ds" using assms by (rule sum_list_pos)
  with assms(1) show ?thesis by (simp add: flip_sign_def mean_positive_def)
qed

lemma flip_sign_all_nonpositive:
  assumes "\<forall>d\<in>set ds. d \<le> 0"
  shows "flip_sign ds = ds"
proof -
  have "sum_list ds \<le> 0" using assms by (intro sum_list_nonpos) auto
  then have "\<not> 0 < sum_list ds / real (length ds)" by (simp add: not_less divide_nonpos_nonneg)
  then show ?thesis by (simp add: flip_sign_def mean_positive_def)
qed

lemma flip_sign_replicate: "\<exists>c'. flip_sign (replicate n c) = replicate n c'"
  by (auto simp: flip_sign_def)

lemma fill_gaps_map_Some: "fill_gaps (map Some vs) = vs"
  by (simp add: fill_gaps_def comp_def)

lemma fill_gaps_replicate: "\<exists>c. fill_gaps (replicate n x) = replicate n c"
proof (cases x)
  case None
  have "valid_from j (replicate n None) = []" for j
    by (induction n arbitrary: j) simp_all
  with None show ?thesis by (cases n) (auto simp: fill_gaps_def)
next
  case (Some v)
  then show ?thesis by (auto simp: fill_gaps_def)
qed

subsection \<open>The depth column and the whole extraction\<close>

lemma length_sample_depths:
  "sample_depths d lats lons = Inr ds \<Longrightarrow> length ds = min (length lats) (length lons)"
  by (auto simp: sample_depths_def split: sum.splits)

lemma extract_depth_profile_Some:
  "extract_depth_profile (Some d) p1 p2 n =
     Some (profile_distances p1 p2 n,
       (case sample_depths d (linspace (lat p1) (lat p2) n) (linspace (lon p1) (lon p2) n) of
          Inr depths \<Rightarrow> depths
        | Inl _ \<Rightarrow> replicate n 0))"
  by (simp add: extract_depth_profile_def split: sum.splits)

lemma extract_depth_profile_shape:
  "\<exists>dist dep. extract_depth_profile (Some d) p1 p2 n = Some (dist, dep)
     \<and> dist = profile_distances p1 p2 n \<and> length dep = n"
  by (auto simp: extract_depth_profile_Some dest: length_sample_depths split: sum.splits)

lemma sample_depths_same_point:
  assumes "sample_depths d (replicate n a) (replicate n b) = Inr ds"
  shows "\<exists>c. ds = replicate n c"
proof -
  obtain v la lo where ds: "ds = flip_sign (fill_gaps (replicate n (sel_value v la lo a b)))"
    using assms by (auto simp: sample_depths_def split: sum.splits)
  obtain c where "fill_gaps (replicate n (sel_value v la lo a b)) = replicate n c"
    using fill_gaps_replicate by blast
  then show ?thesis unfolding ds using flip_sign_replicate by metis
qed

subsection \<open>Properties of the extraction\<close>

text \<open>The extraction fails (returns \<open>(None, None)\<close>) exactly when the bathymetry
  dataset failed to load; with a dataset it always returns a profile.\<close>

theorem extract_depth_profile_None_iff:
  "extract_depth_profile ds p1 p2 n = None \<longleftrightarrow> ds = None"
  by (cases ds) (simp add: extract_depth_profile_def, simp add: extract_depth_profile_Some)

text \<open>C7. With a dataset, the profile has \<open>n\<close> distances and \<open>n\<close> depths, the first
  distance is 0 and every distance lies between 0 and half the Earth's circumference
  \<open>pi R\<close>.\<close>

theorem extract_depth_profile_shape_bounds:
  assumes "0 < n"
  shows "\<exists>dist dep. extract_depth_profile (Some d) p1 p2 n = Some (dist, dep)
     \<and> length dist = n \<and> length dep = n \<and> dist ! 0 = 0
     \<and> (\<forall>x\<in>set dist. 0 \<le> x \<and> x \<le> pi * earth_R)"
  using extract_depth_profile_shape [of d p1 p2 n] assms
  by (auto simp: profile_distances_first dest: profile_distances_bounds)

theorem extract_depth_profile_shape_bounds_witness:
  "0 < (50::nat) \<and> (\<exists>dist dep. extract_depth_profile (Some []) \<lparr>lat = 41.175354, lon = 29.626743\<rparr>
     \<lparr>lat = 41.175, lon = 29.627\<rparr> 50 = Some (dist, dep)
     \<and> length dist = 50 \<and> length dep = 50 \<and> dist ! 0 = 0
     \<and> (\<forall>x\<in>set dist. 0 \<le> x \<and> x \<le> pi * earth_R))"
  using extract_depth_profile_shape_bounds [of 50] by simp

text \<open>Degenerate section: for two equal endpoints the distances are all 0 and the
  depths are one constant value.\<close>

theorem extract_depth_profile_same_point:
  "\<exists>c. extract_depth_profile (Some d) p p n = Some (replicate n 0, replicate n c)"
proof (cases "sample_depths d (replicate n (lat p)) (replicate n (lon p))")
  case (Inl e)
  then show ?thesis
    by (simp add: extract_depth_profile_Some linspace_same profile_distances_same)
next
  case (Inr ds)
  then obtain c where "ds = replicate n c" using sample_depths_same_point by blast
  with Inr show ?thesis
    by (simp add: extract_depth_profile_Some linspace_same profile_distances_same)
qed

text \<open>C34. When no variable of the dataset has a coordinate whose name contains
  \<open>lat\<close> (or the dataset has no variable), the outer \<open>except\<close> returns the distances
  with all depths 0.\<close>

theorem extract_depth_profile_no_lat_coord:
  assumes "\<forall>v\<in>set d. \<forall>c\<in>set (var_coords v). \<not> str_contains ''lat'' (lower (fst c))"
  shows "extract_depth_profile (Some d) p1 p2 n = Some (profile_distances p1 p2 n, replicate n 0)"
proof -
  have "\<exists>e. sample_depths d lats lons = Inl e" for lats lons
  proof (cases "select_depth_var d")
    case (Inr v)
    then have "v \<in> set d" by (rule select_depth_var_in_set)
    with assms have "find_coord ''lat'' (var_coords v) = Inl IndexError"
      by (auto simp: find_coord_def filter_empty_conv)
    with Inr show ?thesis by (simp add: sample_depths_def)
  qed (simp add: sample_depths_def)
  then obtain e where
    "sample_depths d (linspace (lat p1) (lat p2) n) (linspace (lon p1) (lon p2) n) = Inl e"
    by blast
  then show ?thesis by (simp add: extract_depth_profile_Some)
qed

theorem extract_depth_profile_no_lat_coord_witness:
  "list_all (\<lambda>v. list_all (\<lambda>c. \<not> str_contains ''lat'' (lower (fst c))) (var_coords v))
      [\<lparr>var_name = ''z'', var_coords = [(''y'', [0])], var_values = [[Some 1]]\<rparr>]
   \<and> extract_depth_profile
      (Some [\<lparr>var_name = ''z'', var_coords = [(''y'', [0])], var_values = [[Some 1]]\<rparr>])
      \<lparr>lat = 0, lon = 0\<rparr> \<lparr>lat = 1, lon = 1\<rparr> 4
    = Some (profile_distances \<lparr>lat = 0, lon = 0\<rparr> \<lparr>lat = 1, lon = 1\<rparr> 4, replicate 4 0)"
proof -
  have h: "\<forall>v\<in>set [\<lparr>var_name = ''z'', var_coords = [(''y'', [0])], var_values = [[Some 1]]\<rparr>].
      \<forall>c\<in>set (var_coords v). \<not> str_contains ''lat'' (lower (fst c))"
    by (simp add: lower_def lower_char_def)
  show ?thesis using h extract_depth_profile_no_lat_coord [OF h] by (simp add: list_all_iff)
qed

subsection \<open>Gap filling at concrete inputs\<close>

theorem fill_gaps_single_gap_witness:
  "[1::real] \<noteq> [] \<and> [3::real] \<noteq> [] \<and>
   fill_gaps (map Some [1] @ None # map Some [3]) ! length [1::real] = (last [1] + hd [3]) / 2"
  using fill_gaps_single_gap [of "[1]" "[3]"] by simp

theorem fill_gaps_keeps_witness:
  "(1::nat) < length [None, Some (2::real), None] \<and> [None, Some (2::real), None] ! 1 = Some 2
   \<and> fill_gaps [None, Some 2, None] ! 1 = 2"
  using fill_gaps_keeps [of 1 "[None, Some 2, None]" 2] by simp

theorem fill_gaps_few_valid_witness:
  "length (valid_from 0 [Some (4::real), None]) \<le> 1 \<and> (1::nat) < length [Some (4::real), None]
   \<and> [Some (4::real), None] ! 1 = None \<and> fill_gaps [Some 4, None] ! 1 = -5"
  using fill_gaps_few_valid [of "[Some 4, None]" 1] by simp

theorem fill_gaps_bounds_witness:
  "1 < length (valid_from 0 [Some (1::real), None, Some 3]) \<and> 2 \<in> set (fill_gaps [Some 1, None, Some 3])
   \<and> Min {v. Some v \<in> set [Some (1::real), None, Some 3]} \<le> 2
   \<and> 2 \<le> Max {v. Some v \<in> set [Some (1::real), None, Some 3]}"
proof -
  have g: "fill_gaps [Some 1, None, Some (3::real)] = [1, 2, 3]"
    by (simp add: fill_gaps_def interp_pts_def)
  have h1: "1 < length (valid_from 0 [Some (1::real), None, Some 3])" by simp
  have h2: "(2::real) \<in> set (fill_gaps [Some 1, None, Some 3])" by (simp add: g)
  show ?thesis using fill_gaps_bounds [OF h1 h2] h1 h2 by simp
qed

subsection \<open>Sign convention of the returned depths\<close>

text \<open>C9. Sign convention: if every raw sample is valid and positive, every returned
  depth is negative.\<close>

theorem depths_all_positive_negated:
  assumes "raw \<noteq> []" and "\<forall>x\<in>set raw. \<exists>v. x = Some v \<and> 0 < v"
  shows "\<forall>y\<in>set (flip_sign (fill_gaps raw)). y < 0"
proof -
  obtain vs where raw: "raw = map Some vs" using assms(2)
    by (metis ex_map_conv option.collapse option.simps(3))
  with assms have "vs \<noteq> []" "\<forall>v\<in>set vs. 0 < v" by auto
  then show ?thesis by (simp add: raw fill_gaps_map_Some flip_sign_all_positive)
qed

theorem depths_all_positive_negated_witness:
  "[Some (2::real), Some 3] \<noteq> [] \<and> list_all (\<lambda>x. \<exists>v. x = Some v \<and> 0 < v) [Some (2::real), Some 3]
   \<and> list_all (\<lambda>y. y < 0) (flip_sign (fill_gaps [Some 2, Some 3]))"
proof -
  have h: "\<forall>x\<in>set [Some (2::real), Some 3]. \<exists>v. x = Some v \<and> 0 < v" by simp
  show ?thesis using depths_all_positive_negated [OF _ h] h by (simp add: list_all_iff)
qed

text \<open>Sign convention: if every raw sample is valid and non-positive, the depths are
  returned unchanged.\<close>

theorem depths_nonpositive_unchanged:
  assumes "\<forall>x\<in>set raw. \<exists>v. x = Some v \<and> v \<le> 0"
  shows "flip_sign (fill_gaps raw) = map the raw"
proof -
  obtain vs where raw: "raw = map Some vs" using assms
    by (metis ex_map_conv option.collapse option.simps(3))
  with assms have "\<forall>v\<in>set vs. v \<le> 0" by auto
  then show ?thesis by (simp add: raw fill_gaps_map_Some flip_sign_all_nonpositive comp_def)
qed

theorem depths_nonpositive_unchanged_witness:
  "list_all (\<lambda>x. \<exists>v. x = Some v \<and> v \<le> 0) [Some (-2::real), Some 0]
   \<and> flip_sign (fill_gaps [Some (-2), Some 0]) = [-2, 0]"
proof -
  have h: "\<forall>x\<in>set [Some (-2::real), Some 0]. \<exists>v. x = Some v \<and> v \<le> 0" by simp
  show ?thesis using depths_nonpositive_unchanged [OF h] h by (simp add: list_all_iff)
qed

text \<open>Whatever the grid holds, the depth column the extraction returns never has a
  positive mean.\<close>

theorem sample_depths_mean_not_positive:
  "sample_depths d lats lons = Inr ds \<Longrightarrow> \<not> mean_positive ds"
  by (auto simp: sample_depths_def flip_sign_not_positive split: sum.splits)

theorem sample_depths_mean_not_positive_witness:
  "sample_depths [\<lparr>var_name = ''depth'', var_coords = [(''lat'', [0]), (''lon'', [0])],
      var_values = [[Some 3]]\<rparr>] [0] [0] = Inr [-3]
   \<and> \<not> mean_positive [-3]"
proof -
  have h: "sample_depths [\<lparr>var_name = ''depth'', var_coords = [(''lat'', [0]), (''lon'', [0])],
      var_values = [[Some 3]]\<rparr>] [0] [0] = Inr [-3]"
    by (simp add: sample_depths_def select_depth_var_def is_depth_name_def lower_def
        lower_char_def find_coord_def sel_value_def sel_nearest_def nearest_last_def py_index_def
        fill_gaps_def flip_sign_def mean_positive_def)
  show ?thesis using h sample_depths_mean_not_positive [OF h] by simp
qed

text \<open>C10. The -5.0 fallback enters the sign test: with exactly one valid raw reading
  \<open>v\<close> and \<open>n\<close> missing ones, the missing readings become -5.0 and the list is negated
  only when \<open>v > 5 n\<close>, so a positive reading \<open>0 < v \<le> 5 n\<close> is returned positive,
  although all valid raw samples are positive and the convention of the spec (negate when
  the mean of the raw samples is positive) would return it negated.\<close>

theorem fallback_fill_defeats_sign_flip:
  assumes one: "filter (\<lambda>x. x \<noteq> None) xs = [Some v]" and gap: "None \<in> set xs"
  shows "flip_sign (fill_gaps xs) =
           (if v \<le> 5 * real (count_list xs None)
            then map (\<lambda>x. case x of None \<Rightarrow> -5 | Some w \<Rightarrow> w) xs
            else map (\<lambda>x. - (case x of None \<Rightarrow> -5 | Some w \<Rightarrow> w)) xs)"
proof -
  let ?fb = "\<lambda>x. case x of None \<Rightarrow> -5 | Some w \<Rightarrow> (w::real)"
  have "length (valid_from 0 xs) = 1" using one by (simp add: valid_from_None_length)
  then have f: "fill_gaps xs = map ?fb xs" using gap by (simp add: fill_gaps_def)
  have s: "sum_list (map ?fb xs) = v - 5 * real (count_list xs None)"
    using sum_fallback_fill [of xs] one by simp
  have ne: "xs \<noteq> []" using gap by auto
  then have "mean_positive (map ?fb xs) \<longleftrightarrow> 5 * real (count_list xs None) < v"
    using s by (simp add: mean_positive_def zero_less_divide_iff)
  then show ?thesis by (simp add: f flip_sign_def comp_def not_le)
qed

theorem fallback_fill_defeats_sign_flip_witness:
  "filter (\<lambda>x. x \<noteq> None) [Some 3, None, None] = [Some (3::real)] \<and> None \<in> set [Some (3::real), None, None]
   \<and> flip_sign (fill_gaps [Some 3, None, None]) = [3, -5, -5]"
  using fallback_fill_defeats_sign_flip [of "[Some 3, None, None]" 3] by simp

text \<open>C36. Missing samples before the first valid one are not interpolated but copied
  from it (\<open>np.interp\<close> extends constantly to the left), whenever a later valid sample
  makes the interpolation branch run.\<close>

theorem fill_gaps_leading_gap_constant:
  assumes later: "Some w \<in> set ys" and le: "i \<le> k"
  shows "fill_gaps (replicate k None @ Some v # ys) ! i = v"
proof (cases "i = k")
  case True
  then show ?thesis by (simp add: fill_gaps_keeps nth_append)
next
  case False
  let ?xs = "replicate k None @ Some v # ys"
  have vs: "valid_from 0 ?xs = (real k, v) # valid_from (Suc k) ys"
    by (simp add: valid_from_append valid_from_replicate_None)
  have "valid_from (Suc k) ys \<noteq> []"
    using later valid_from_values [of "Suc k" ys] by auto
  then have two: "1 < length (valid_from 0 ?xs)" unfolding vs by simp
  have gap: "None \<in> set ?xs" using False le by (cases k) auto
  have "fill_gaps ?xs ! i = interp_pts (real i) (valid_from 0 ?xs)"
    using fill_gaps_interp [OF gap two] le by simp
  then show ?thesis using False le by (simp add: vs interp_pts_def)
qed

theorem fill_gaps_leading_gap_constant_witness:
  "Some (3::real) \<in> set [Some 3] \<and> (1::nat) \<le> 2 \<and> fill_gaps (replicate 2 None @ Some (1::real) # [Some 3]) ! 1 = 1"
  using fill_gaps_leading_gap_constant [of 3 "[Some 3]" 1 2 1] by simp

end
