(* ===== verification/Sections.thy ===== *)
theory Sections
  imports Profile
begin

text \<open>
  One cross-section of the section store (\<open>st.session_state.sections[id]\<close> in
  \<open>src/profile_module.py\<close>) and the code of \<open>render_profile_section\<close> that changes it:
  \<^item> \<open>section_rec\<close>, \<open>empty_section\<close>: the dict of lines 83--85;
  \<^item> \<open>click_point\<close>: the map-click handler of lines 248--262 (append the clicked point
    when fewer than two are set and it is not within 0.0001 degrees of the last one;
    the flag says whether the page reruns with \<open>coord_version\<close> bumped);
  \<^item> \<open>manual_defaults\<close>: the defaults of the manual-coordinate form, lines 266--270;
  \<^item> \<open>apply_coords\<close>, \<open>reset_points\<close>: the two buttons of lines 284--298;
  \<^item> \<open>bathy_step\<close>: Step 2, lines 307--314 (extract a 50-sample profile once, when two
    points are set and no profile is stored);
  \<^item> \<open>design_step\<close>: Step 3, lines 316--333 (regenerate the design curve when it is
    empty or its length is not the chosen number of points: evenly spaced distances up to
    the last bathymetry distance, depths by \<open>np.interp\<close> on the bathymetry);
  \<^item> \<open>edit_point\<close>: one design-point edit of lines 337--344;
  \<^item> \<open>compare_save\<close>: the "Compare and Save" button, lines 348--350;
  \<^item> \<open>design_visible\<close>: the guards of lines 307 and 316 under which Step 3 is shown.
  \<open>section_ok\<close> is the invariant every reachable section satisfies; each operation
  preserves it (the preservation lemmas are collected in \<open>section_ok_preserved\<close>).
\<close>

record section_rec =
  points :: "geo_point list"
  bathy_dist :: "real list"
  bathy_depth :: "real list"
  user_dist :: "real list"
  user_depth :: "real list"
  completed :: bool

definition empty_section :: section_rec where
  "empty_section =
     \<lparr>points = [], bathy_dist = [], bathy_depth = [], user_dist = [], user_depth = [],
      completed = False\<rparr>"

definition near :: "geo_point \<Rightarrow> real \<Rightarrow> real \<Rightarrow> bool" where
  "near last_pt la lo \<longleftrightarrow> \<bar>lat last_pt - la\<bar> < 0.0001 \<and> \<bar>lon last_pt - lo\<bar> < 0.0001"

definition click_point :: "real \<Rightarrow> real \<Rightarrow> section_rec \<Rightarrow> section_rec \<times> bool" where
  "click_point la lo s =
     (if length (points s) < 2 \<and> \<not> (points s \<noteq> [] \<and> near (last (points s)) la lo)
      then (s\<lparr>points := points s @ [\<lparr>lat = la, lon = lo\<rparr>]\<rparr>, True)
      else (s, False))"

definition apply_coords :: "real \<Rightarrow> real \<Rightarrow> real \<Rightarrow> real \<Rightarrow> section_rec \<Rightarrow> section_rec" where
  "apply_coords lat1 lon1 lat2 lon2 s =
     s\<lparr>points := [\<lparr>lat = lat1, lon = lon1\<rparr>, \<lparr>lat = lat2, lon = lon2\<rparr>]\<rparr>"

definition manual_defaults :: "section_rec \<Rightarrow> real \<times> real \<times> real \<times> real" where
  "manual_defaults s =
     (if points s \<noteq> [] then lat (points s ! 0) else 41.175354,
      if points s \<noteq> [] then lon (points s ! 0) else 29.626743,
      if 1 < length (points s) then lat (points s ! 1) else 41.175,
      if 1 < length (points s) then lon (points s ! 1) else 29.627)"

definition reset_points :: "section_rec \<Rightarrow> section_rec" where
  "reset_points s =
     s\<lparr>points := [], completed := False, bathy_dist := [], bathy_depth := [],
       user_dist := [], user_depth := []\<rparr>"

definition bathy_step :: "dataset option \<Rightarrow> section_rec \<Rightarrow> section_rec" where
  "bathy_step ds s =
     (if length (points s) = 2 \<and> bathy_dist s = [] then
        (case extract_depth_profile ds (points s ! 0) (points s ! 1) 50 of
           Some (dists, depths) \<Rightarrow>
             if dists \<noteq> [] \<and> depths \<noteq> [] then s\<lparr>bathy_dist := dists, bathy_depth := depths\<rparr>
             else s
         | None \<Rightarrow> s)
      else s)"

definition default_dists :: "nat \<Rightarrow> real \<Rightarrow> real list" where
  "default_dists num_pts max_dist =
     map (\<lambda>i. real i * max_dist / real (num_pts - 1)) [0..<num_pts]"

definition design_step :: "nat \<Rightarrow> section_rec \<Rightarrow> py_error + section_rec" where
  "design_step num_pts s =
     (if length (points s) = 2 \<and> bathy_dist s \<noteq> [] then
        (if user_dist s = [] \<or> length (user_dist s) \<noteq> num_pts then
           (if num_pts = 1 then Inl ZeroDivisionError
            else
              (let ud = default_dists num_pts (last (bathy_dist s))
               in case map_sum (\<lambda>d. np_interp d (bathy_dist s) (bathy_depth s)) ud of
                    Inl e \<Rightarrow> Inl e
                  | Inr uh \<Rightarrow> Inr (s\<lparr>user_dist := ud, user_depth := uh\<rparr>)))
         else Inr s)
      else Inr s)"

definition edit_point :: "nat \<Rightarrow> real \<Rightarrow> real \<Rightarrow> section_rec \<Rightarrow> py_error + section_rec" where
  "edit_point i d h s =
     (if i < length (user_dist s) \<and> i < length (user_depth s)
      then Inr (s\<lparr>user_dist := (user_dist s)[i := d], user_depth := (user_depth s)[i := h]\<rparr>)
      else Inl IndexError)"

definition compare_save :: "section_rec \<Rightarrow> section_rec" where
  "compare_save s = s\<lparr>completed := True\<rparr>"

definition design_visible :: "section_rec \<Rightarrow> bool" where
  "design_visible s \<longleftrightarrow> length (points s) = 2 \<and> bathy_dist s \<noteq> []"

definition section_ok :: "section_rec \<Rightarrow> bool" where
  "section_ok s \<longleftrightarrow>
     length (points s) \<le> 2
     \<and> length (bathy_dist s) = length (bathy_depth s)
     \<and> length (user_dist s) = length (user_depth s)
     \<and> (bathy_dist s \<noteq> [] \<longrightarrow> length (points s) = 2)
     \<and> (user_dist s \<noteq> [] \<longrightarrow> bathy_dist s \<noteq> [] \<and> 2 \<le> length (user_dist s))
     \<and> (completed s \<longrightarrow> user_dist s \<noteq> [])"

definition section_typed :: "section_rec \<Rightarrow> bool" where
  "section_typed s \<longleftrightarrow>
     length (points s) \<le> 2
     \<and> length (bathy_dist s) = length (bathy_depth s)
     \<and> (bathy_dist s \<noteq> [] \<longrightarrow> length (bathy_dist s) = 50)
     \<and> length (user_dist s) = length (user_depth s)
     \<and> (user_dist s \<noteq> [] \<longrightarrow> 2 \<le> length (user_dist s) \<and> length (user_dist s) \<le> 20)"

named_theorems section_ok_preserved "operations of a section preserve section_ok"

subsection \<open>Default design curve\<close>

lemma length_default_dists [simp]: "length (default_dists n m) = n"
  by (simp add: default_dists_def)

lemma default_dists_Nil_iff [simp]: "default_dists n m = [] \<longleftrightarrow> n = 0"
  by (simp add: default_dists_def)

lemma default_dists_nth:
  "i < n \<Longrightarrow> default_dists n m ! i = real i * m / real (n - 1)"
  by (simp add: default_dists_def)

lemma design_step_regenerate:
  assumes "design_visible s" and "user_dist s = [] \<or> length (user_dist s) \<noteq> n"
    and "n \<noteq> 1" and "length (bathy_dist s) = length (bathy_depth s)"
  shows "design_step n s =
    Inr (s\<lparr>user_dist := default_dists n (last (bathy_dist s)),
           user_depth := map (\<lambda>d. interp_pts d (zip (bathy_dist s) (bathy_depth s)))
                           (default_dists n (last (bathy_dist s)))\<rparr>)"
proof -
  have "map_sum (\<lambda>d. np_interp d (bathy_dist s) (bathy_depth s)) (default_dists n (last (bathy_dist s)))
      = Inr (map (\<lambda>d. interp_pts d (zip (bathy_dist s) (bathy_depth s)))
               (default_dists n (last (bathy_dist s))))"
    using assms(1,4) by (intro map_sum_Inr) (simp add: np_interp_def design_visible_def)
  with assms show ?thesis by (simp add: design_step_def design_visible_def Let_def)
qed

lemma design_step_keep:
  "\<not> (design_visible s \<and> (user_dist s = [] \<or> length (user_dist s) \<noteq> n)) \<Longrightarrow> design_step n s = Inr s"
  by (auto simp: design_step_def design_visible_def)

subsection \<open>Preservation of the section invariant\<close>

lemma section_ok_empty [simp]: "section_ok empty_section"
  by (simp add: section_ok_def empty_section_def)

lemma section_ok_click [section_ok_preserved]:
  "section_ok s \<Longrightarrow> section_ok (fst (click_point la lo s))"
  by (auto simp: section_ok_def click_point_def)

lemma section_ok_apply [section_ok_preserved]:
  "section_ok s \<Longrightarrow> section_ok (apply_coords a b c d s)"
  by (auto simp: section_ok_def apply_coords_def)

lemma reset_points_empty: "reset_points s = empty_section"
  by (cases s) (simp add: reset_points_def empty_section_def)

lemma section_ok_reset [section_ok_preserved]: "section_ok (reset_points s)"
  by (simp add: section_ok_def reset_points_def)

lemma extract_50_nonempty_lengths:
  assumes "extract_depth_profile ds p q 50 = Some (dists, depths)"
  shows "length dists = length depths"
proof (cases ds)
  case None
  with assms show ?thesis by (simp add: extract_depth_profile_def)
next
  case (Some d)
  with assms extract_depth_profile_shape [of d p q 50] show ?thesis by auto
qed

lemma section_ok_bathy [section_ok_preserved]:
  "section_ok s \<Longrightarrow> section_ok (bathy_step ds s)"
  by (auto simp: section_ok_def bathy_step_def dest: extract_50_nonempty_lengths
      split: option.splits)

lemma section_ok_design [section_ok_preserved]:
  assumes "section_ok s" and "2 \<le> n" and "design_step n s = Inr s'"
  shows "section_ok s'"
proof (cases "design_visible s \<and> (user_dist s = [] \<or> length (user_dist s) \<noteq> n)")
  case True
  then have "s' = s\<lparr>user_dist := default_dists n (last (bathy_dist s)),
           user_depth := map (\<lambda>d. interp_pts d (zip (bathy_dist s) (bathy_depth s)))
                           (default_dists n (last (bathy_dist s)))\<rparr>"
    using assms design_step_regenerate [of s n] by (simp add: section_ok_def)
  with assms(1,2) True show ?thesis by (simp add: section_ok_def design_visible_def)
next
  case False
  with assms show ?thesis by (simp add: design_step_keep)
qed

lemma section_ok_edit [section_ok_preserved]:
  "section_ok s \<Longrightarrow> edit_point i d h s = Inr s' \<Longrightarrow> section_ok s'"
  by (auto simp: section_ok_def edit_point_def split: if_splits)

lemma section_ok_compare [section_ok_preserved]:
  "section_ok s \<Longrightarrow> user_dist s \<noteq> [] \<Longrightarrow> section_ok (compare_save s)"
  by (simp add: section_ok_def compare_save_def)

subsection \<open>The shape of a section\<close>

text \<open>\<open>section_typed\<close> is the Section type of the spec: at most two points, a
  bathymetry curve of exactly the 50 extracted samples or none, and a design curve of
  2 to 20 points or none, each curve with as many depths as distances.\<close>

named_theorems section_typed_preserved "operations of a section preserve section_typed"

lemma section_typed_empty [simp]: "section_typed empty_section"
  by (simp add: section_typed_def empty_section_def)

lemma section_typed_click [section_typed_preserved]:
  "section_typed s \<Longrightarrow> section_typed (fst (click_point la lo s))"
  by (auto simp: section_typed_def click_point_def)

lemma section_typed_apply [section_typed_preserved]:
  "section_typed s \<Longrightarrow> section_typed (apply_coords a b c d s)"
  by (auto simp: section_typed_def apply_coords_def)

lemma section_typed_reset [section_typed_preserved]: "section_typed (reset_points s)"
  by (simp add: reset_points_empty)

lemma extract_50_lengths:
  assumes "extract_depth_profile ds p q 50 = Some (dists, depths)"
  shows "length dists = 50 \<and> length depths = 50"
proof (cases ds)
  case None
  with assms show ?thesis by (simp add: extract_depth_profile_def)
next
  case (Some d)
  with assms extract_depth_profile_shape [of d p q 50] show ?thesis by auto
qed

lemma section_typed_bathy [section_typed_preserved]:
  "section_typed s \<Longrightarrow> section_typed (bathy_step ds s)"
  by (auto simp: section_typed_def bathy_step_def dest: extract_50_lengths split: option.splits)

lemma section_typed_design [section_typed_preserved]:
  assumes "section_typed s" and "2 \<le> n" and "n \<le> 20" and "design_step n s = Inr s'"
  shows "section_typed s'"
proof (cases "design_visible s \<and> (user_dist s = [] \<or> length (user_dist s) \<noteq> n)")
  case True
  then have "s' = s\<lparr>user_dist := default_dists n (last (bathy_dist s)),
           user_depth := map (\<lambda>d. interp_pts d (zip (bathy_dist s) (bathy_depth s)))
                           (default_dists n (last (bathy_dist s)))\<rparr>"
    using assms design_step_regenerate [of s n] by (simp add: section_typed_def)
  with assms(1,2,3) show ?thesis by (auto simp: section_typed_def)
next
  case False
  then have "s' = s" using assms(4) by (simp add: design_step_keep)
  with assms(1) show ?thesis by simp
qed

lemma section_typed_edit [section_typed_preserved]:
  "section_typed s \<Longrightarrow> edit_point i d h s = Inr s' \<Longrightarrow> section_typed s'"
  by (auto simp: section_typed_def edit_point_def split: if_splits)

lemma section_typed_compare [simp]: "section_typed (compare_save s) = section_typed s"
  by (simp add: section_typed_def compare_save_def)

subsection \<open>What each step leaves alone\<close>

lemma bathy_step_frame [simp]:
  "points (bathy_step ds s) = points s" "completed (bathy_step ds s) = completed s"
  "user_dist (bathy_step ds s) = user_dist s" "user_depth (bathy_step ds s) = user_depth s"
  by (auto simp: bathy_step_def split: option.splits)

lemma bathy_step_keeps_profile: "bathy_dist s \<noteq> [] \<Longrightarrow> bathy_step ds s = s"
  by (simp add: bathy_step_def)

lemma bathy_step_profile:
  assumes "length (points s) = 2"
  shows "bathy_dist (bathy_step (Some d) s) \<noteq> []"
proof (cases "bathy_dist s = []")
  case True
  obtain dist dep where ex: "extract_depth_profile (Some d) (points s ! 0) (points s ! 1) 50 = Some (dist, dep)"
    and "dist = profile_distances (points s ! 0) (points s ! 1) 50" and "length dep = 50"
    using extract_depth_profile_shape by blast
  then have "dist \<noteq> []" "dep \<noteq> []" by (auto simp flip: length_0_conv)
  with True assms ex show ?thesis by (simp add: bathy_step_def)
next
  case False
  then show ?thesis by (simp add: bathy_step_keeps_profile)
qed

lemma design_step_frame:
  assumes "design_step n s = Inr s'"
  shows "points s' = points s \<and> completed s' = completed s
    \<and> bathy_dist s' = bathy_dist s \<and> bathy_depth s' = bathy_depth s"
  using assms by (auto simp: design_step_def Let_def split: if_splits sum.splits)

lemma design_step_Inr:
  assumes "section_ok s" and "n \<noteq> 1"
  shows "\<exists>s'. design_step n s = Inr s'"
proof (cases "design_visible s \<and> (user_dist s = [] \<or> length (user_dist s) \<noteq> n)")
  case True
  with assms show ?thesis using design_step_regenerate [of s n] by (auto simp: section_ok_def)
next
  case False
  then show ?thesis by (auto simp: design_step_keep)
qed

lemma design_step_visible_length:
  assumes "design_visible s" and "design_step n s = Inr s'" and "section_ok s"
  shows "length (user_dist s') = n \<and> length (user_depth s') = n"
proof (cases "user_dist s = [] \<or> length (user_dist s) \<noteq> n")
  case True
  then have "n \<noteq> 1" using assms(1,2) by (auto simp: design_step_def design_visible_def)
  with True assms show ?thesis
    using design_step_regenerate [of s n] by (auto simp: section_ok_def)
next
  case False
  with assms show ?thesis by (auto simp: design_step_def design_visible_def section_ok_def)
qed

lemma click_point_two: "length (points s) = 2 \<Longrightarrow> click_point la lo s = (s, False)"
  by (simp add: click_point_def)

lemma click_point_flag_points:
  "points s' = points s \<Longrightarrow> snd (click_point la lo s') = snd (click_point la lo s)"
  by (simp add: click_point_def)

lemma click_point_again: "\<not> snd (click_point la lo (fst (click_point la lo s)))"
  by (simp add: click_point_def near_def)

lemma click_point_frame [simp]:
  "completed (fst (click_point la lo s)) = completed s"
  "bathy_dist (fst (click_point la lo s)) = bathy_dist s"
  by (simp_all add: click_point_def)

text \<open>C28. Step 3 on a fresh section: with \<open>n \<ge> 2\<close> design points it lays them evenly
  from \<open>0\<close> to the total distance of the profile, and (when the profile distances
  are strictly increasing from \<open>0\<close>, as \<open>extract_depth_profile\<close> produces along a
  meridian) the curve starts and ends on the bathymetry.\<close>

theorem design_default_curve:
  assumes ok: "section_ok s" and vis: "design_visible s" and fresh: "user_dist s = []"
    and n: "2 \<le> n" and sorted: "sorted_wrt (<) (bathy_dist s)" and z: "hd (bathy_dist s) = 0"
  shows "\<exists>s'. design_step n s = Inr s' \<and> length (user_dist s') = n
    \<and> (\<forall>i<n. user_dist s' ! i = real i * last (bathy_dist s) / real (n - 1))
    \<and> hd (user_depth s') = hd (bathy_depth s) \<and> last (user_depth s') = last (bathy_depth s)"
proof -
  let ?L = "last (bathy_dist s)" and ?ps = "zip (bathy_dist s) (bathy_depth s)"
  let ?ud = "default_dists n ?L"
  let ?f = "\<lambda>d. interp_pts d ?ps"
  have len: "length (bathy_dist s) = length (bathy_depth s)" using ok by (simp add: section_ok_def)
  have ne: "bathy_dist s \<noteq> []" "bathy_depth s \<noteq> []" using vis len by (auto simp: design_visible_def)
  have d: "design_step n s = Inr (s\<lparr>user_dist := ?ud, user_depth := map ?f ?ud\<rparr>)"
    using vis fresh n len by (intro design_step_regenerate) auto
  have srt: "sorted_wrt (<) (map fst ?ps)" using sorted len by simp
  have "(hd (bathy_dist s), hd (bathy_depth s)) \<in> set ?ps"
    using ne by (metis hd_in_set hd_zip zip_eq_Nil_iff)
  then have h0: "?f 0 = hd (bathy_depth s)" using z srt by (metis interp_pts_knot)
  have "(?L, last (bathy_depth s)) \<in> set ?ps"
    using ne len by (metis last_in_set last_zip zip_eq_Nil_iff)
  then have hL: "?f ?L = last (bathy_depth s)" using srt by (metis interp_pts_knot)
  have ud0: "hd ?ud = 0" and udL: "last ?ud = ?L"
    using n by (simp_all add: hd_conv_nth last_conv_nth default_dists_nth)
  have une: "?ud \<noteq> []" using n by simp
  have "hd (map ?f ?ud) = hd (bathy_depth s)" using une ud0 h0 by (simp add: hd_map)
  moreover have "last (map ?f ?ud) = last (bathy_depth s)" using une udL hL by (simp add: last_map)
  ultimately show ?thesis using d by (simp add: default_dists_nth)
qed

theorem design_default_curve_witness:
  "section_ok \<lparr>points = [\<lparr>lat = 0, lon = 0\<rparr>, \<lparr>lat = 1, lon = 0\<rparr>], bathy_dist = [0, 40, 100],
      bathy_depth = [-1, -3, -5], user_dist = [], user_depth = [], completed = False\<rparr>
   \<and> design_visible \<lparr>points = [\<lparr>lat = 0, lon = 0\<rparr>, \<lparr>lat = 1, lon = 0\<rparr>], bathy_dist = [0, 40, 100],
      bathy_depth = [-1, -3, -5], user_dist = [], user_depth = [], completed = False\<rparr>
   \<and> design_step 5 \<lparr>points = [\<lparr>lat = 0, lon = 0\<rparr>, \<lparr>lat = 1, lon = 0\<rparr>], bathy_dist = [0, 40, 100],
      bathy_depth = [-1, -3, -5], user_dist = [], user_depth = [], completed = False\<rparr>
     = Inr \<lparr>points = [\<lparr>lat = 0, lon = 0\<rparr>, \<lparr>lat = 1, lon = 0\<rparr>], bathy_dist = [0, 40, 100],
      bathy_depth = [-1, -3, -5], user_dist = [0, 25, 50, 75, 100],
      user_depth = [-1, -9 / 4, -10 / 3, -25 / 6, -5], completed = False\<rparr>
   \<and> (\<exists>s'. design_step 5 \<lparr>points = [\<lparr>lat = 0, lon = 0\<rparr>, \<lparr>lat = 1, lon = 0\<rparr>], bathy_dist = [0, 40, 100],
      bathy_depth = [-1, -3, -5], user_dist = [], user_depth = [], completed = False\<rparr> = Inr s'
      \<and> hd (user_depth s') = -1 \<and> last (user_depth s') = -5)"
proof -
  let ?s = "\<lparr>points = [\<lparr>lat = 0, lon = 0\<rparr>, \<lparr>lat = 1, lon = 0\<rparr>], bathy_dist = [0, 40, 100 :: real],
      bathy_depth = [-1, -3, -5], user_dist = [], user_depth = [], completed = False\<rparr>"
  have h: "section_ok ?s" "design_visible ?s" by (simp_all add: section_ok_def design_visible_def)
  have e: "design_step 5 ?s = Inr (?s\<lparr>user_dist := [0, 25, 50, 75, 100],
      user_depth := [-1, -9 / 4, -10 / 3, -25 / 6, -5]\<rparr>)"
    by (simp add: design_step_def design_visible_def default_dists_def np_interp_def
        interp_pts_def Let_def eval_nat_numeral upt_rec)
  show ?thesis using design_default_curve [OF h, of 5] h e by simp
qed

end
