(* ===== verification/Project_Page.thy ===== *)
theory Project_Page
  imports Beach_Prelude
begin

text \<open>
  The design-parameter form of the project page (\<open>src/app.py\<close>, lines 88--147) and
  the placeholder calculation of lines 149--158.  Every input is a Streamlit widget whose
  value lives in the widget state; a widget the run did not render has no state and
  shows its \<open>value=\<close> default when it is rendered again.
  \<^item> \<open>param\<close>: the sixteen number inputs, named after the Python variables they are
    read into, and \<open>param_default\<close> their \<open>value=\<close> arguments;
  \<^item> \<open>toggle\<close>: the two \<open>st.toggle\<close> widgets (default \<open>False\<close>); \<open>param_group\<close> says
    which toggle guards an input, \<open>param_shown\<close> whether the input is rendered;
  \<^item> \<open>param_value\<close>, \<open>toggle_value\<close>: the value a widget returns, from the widget state
    (a partial map) or the default;
  \<^item> \<open>start_calculations\<close>: the figures shown by "START CALCULATIONS", which are
    fixed strings: the inputs are read but no computation uses them.
\<close>

datatype param =
    Hs | T | L_coast | d50 | A_param | h_toe
  | groin_length | groin_width | groin_depth | groin_cost
  | sill_length | sill_width | sill_depth | sill_cost
  | sand_cost | transport_cost

datatype toggle = use_groin | use_sill

fun param_default :: "param \<Rightarrow> real" where
  "param_default Hs = 2.0"
| "param_default T = 7.0"
| "param_default L_coast = 480.0"
| "param_default d50 = 0.25"
| "param_default A_param = 0.09"
| "param_default h_toe = 2.5"
| "param_default groin_length = 28.3"
| "param_default groin_width = 1.0"
| "param_default groin_depth = 5.5"
| "param_default groin_cost = 33.0"
| "param_default sill_length = 258.0"
| "param_default sill_width = 1.5"
| "param_default sill_depth = 2.5"
| "param_default sill_cost = 19.0"
| "param_default sand_cost = 20.0"
| "param_default transport_cost = 5.0"

fun param_group :: "param \<Rightarrow> toggle option" where
  "param_group groin_length = Some use_groin"
| "param_group groin_width = Some use_groin"
| "param_group groin_depth = Some use_groin"
| "param_group groin_cost = Some use_groin"
| "param_group sill_length = Some use_sill"
| "param_group sill_width = Some use_sill"
| "param_group sill_depth = Some use_sill"
| "param_group sill_cost = Some use_sill"
| "param_group _ = None"

definition toggle_value :: "(toggle \<rightharpoonup> bool) \<Rightarrow> toggle \<Rightarrow> bool" where
  "toggle_value ts t = (case ts t of Some b \<Rightarrow> b | None \<Rightarrow> False)"

definition param_shown :: "(toggle \<rightharpoonup> bool) \<Rightarrow> param \<Rightarrow> bool" where
  "param_shown ts p = (case param_group p of None \<Rightarrow> True | Some t \<Rightarrow> toggle_value ts t)"

definition param_value :: "(param \<rightharpoonup> real) \<Rightarrow> param \<Rightarrow> real" where
  "param_value ps p = (case ps p of Some v \<Rightarrow> v | None \<Rightarrow> param_default p)"

record calc_results =
  sand_volume :: string
  material_cost :: string
  project_total :: string

definition start_calculations :: "(param \<Rightarrow> real) \<Rightarrow> calc_results" where
  "start_calculations vals =
     \<lparr>sand_volume = ''~12,345 m'' @ [CHR 0xB3], material_cost = ''$123,000'',
      project_total = ''$123,456''\<rparr>"

subsection \<open>Reading the form\<close>

lemma param_value_empty [simp]: "param_value Map.empty = param_default"
  by (simp add: param_value_def fun_eq_iff)

lemma toggle_value_empty [simp]: "toggle_value Map.empty = (\<lambda>_. False)"
  by (simp add: toggle_value_def fun_eq_iff)

lemma param_value_upd [simp]: "param_value (ps(p \<mapsto> v)) p = v"
  by (simp add: param_value_def)

lemma param_shown_ungrouped: "param_group p = None \<Longrightarrow> param_shown ts p"
  by (simp add: param_shown_def)

end
