(* ===== verification/Session.thy ===== *)
theory Session
  imports Sections Project_Page
begin

text \<open>
  The Streamlit session as a state machine.  \<open>src/app.py\<close> keeps the page
  (landing or project) and the project name; \<open>has_store\<close> records whether the
  module-level code of \<open>src/profile_module.py\<close> (lines 80--92) ran in this session: it
  runs once per process, at the first \<open>import profile_module\<close> (\<open>src/app.py\<close>, line 2),
  so only that session (\<open>init_state\<close>) has the store and a later one
  (\<open>later_session_init\<close>) raises \<open>AttributeError\<close> at line 99 on a project-page pass.
  \<open>src/profile_module.py\<close> keeps the three
  sections, the current view (a section or "All Results"), \<open>coord_version\<close>, the
  per-section number-of-points widget (default 5, bounds 2..20) and the last click
  reported by the current section's map widget, which \<open>st_folium\<close> keeps reporting on
  every rerun until another click (it is dropped when another section or page is shown).
  \<open>coord_inputs\<close> is the widget state of the manual-coordinate inputs (\<open>Session_Form\<close>).
  Every user interaction is one \<open>event\<close>; \<open>handle\<close> runs the script pass in which
  the interaction fires, up to its \<open>st.rerun()\<close>, and then the fresh pass \<open>render\<close>
  (map-click handler, Step 2 extraction, Step 3 design curve; in the "All Results" view
  the metrics of lines 168--174), as \<open>script_pass\<close> followed by \<open>widget_cleanup\<close>:
  Streamlit deletes the state of every widget a completed run did not render, so the
  number-of-points input of a section that is not on screen is back at its default 5;
  \<open>landing_submit\<close> and \<open>go_home\<close> are the Start Project
  form and the Home button of \<open>src/app.py\<close>.  Every uncaught Python exception is an \<open>Inl\<close>.
  \<open>reachable\<close> is the inductive set of states the session that owns the store can
  reach (a pass interrupted by \<open>st.rerun()\<close> and the fresh pass that follows are one
  \<open>handle\<close> step; the interrupted pass renders no widget that the fresh one does not,
  so applying the widget cleanup once, after the fresh pass, is the same); \<open>app_ok\<close> is the
  invariant, and from it: no interaction ever raises, a completed section always has
  its two points, a profile and a design curve, and every interaction touches only the
  section it is on.
\<close>

datatype sec_id = A | B | C

datatype view = Sec sec_id | AllView

datatype page_t = Landing | ProjectPage

datatype coord_field = Lat1 | Lon1 | Lat2 | Lon2

record app_state =
  page :: page_t
  has_store :: bool
  project_name :: "string option"
  sections :: "sec_id \<Rightarrow> section_rec"
  current :: view
  coord_version :: nat
  num_pts :: "sec_id \<Rightarrow> nat"
  map_click :: "geo_point option"
  param_state :: "param \<rightharpoonup> real"
  toggle_state :: "toggle \<rightharpoonup> bool"
  coord_inputs :: "sec_id \<times> nat \<times> coord_field \<rightharpoonup> real"

datatype event =
    StartProject string
  | GoHome
  | NavTo view
  | MapClick real real
  | ApplyCoords real real real real
  | ResetPoints
  | SetNumPoints nat
  | EditPoint nat real real
  | CompareSave
  | PrevSection
  | NextSection
  | Rerun
  | SetParam param real
  | SetToggle toggle bool
  | TypeCoord coord_field real

definition init_state :: app_state where
  "init_state =
     \<lparr>page = Landing, has_store = True, project_name = None, sections = (\<lambda>_. empty_section), current = Sec A,
      coord_version = 0, num_pts = (\<lambda>_. 5), map_click = None,
      param_state = Map.empty, toggle_state = Map.empty, coord_inputs = Map.empty\<rparr>"

definition later_session_init :: app_state where
  "later_session_init = init_state\<lparr>has_store := False\<rparr>"

fun prev_sec :: "sec_id \<Rightarrow> sec_id option" where
  "prev_sec A = None"
| "prev_sec B = Some A"
| "prev_sec C = Some B"

fun next_sec :: "sec_id \<Rightarrow> sec_id option" where
  "next_sec A = Some B"
| "next_sec B = Some C"
| "next_sec C = None"

definition on_current :: "(section_rec \<Rightarrow> section_rec) \<Rightarrow> app_state \<Rightarrow> app_state" where
  "on_current f s =
     (case current s of
        Sec c \<Rightarrow> s\<lparr>sections := (sections s)(c := f (sections s c))\<rparr>
      | AllView \<Rightarrow> s)"

definition map_pass :: "app_state \<Rightarrow> app_state" where
  "map_pass s =
     (case (current s, map_click s) of
        (Sec c, Some p) \<Rightarrow>
          (case click_point (lat p) (lon p) (sections s c) of
             (sec', True) \<Rightarrow>
               s\<lparr>sections := (sections s)(c := sec'), coord_version := Suc (coord_version s)\<rparr>
           | (_, False) \<Rightarrow> s)
      | _ \<Rightarrow> s)"

definition section_metrics :: "section_rec \<Rightarrow> py_error + real \<times> real \<times> real" where
  "section_metrics sd =
     (case py_last (bathy_dist sd) of
        Inl e \<Rightarrow> Inl e
      | Inr total_dist \<Rightarrow>
          (case py_min (bathy_depth sd) of
             Inl e \<Rightarrow> Inl e
           | Inr mb \<Rightarrow>
               (case py_min (user_depth sd) of
                  Inl e \<Rightarrow> Inl e
                | Inr mu \<Rightarrow> Inr (total_dist, \<bar>mb\<bar>, \<bar>mu\<bar>))))"

definition all_results_view ::
  "(sec_id \<Rightarrow> section_rec) \<Rightarrow> py_error + (sec_id \<times> real \<times> real \<times> real) list" where
  "all_results_view secs =
     map_sum (\<lambda>c. case section_metrics (secs c) of Inl e \<Rightarrow> Inl e | Inr m \<Rightarrow> Inr (c, m))
       (filter (\<lambda>c. completed (secs c)) [A, B, C])"

definition completed_count :: "app_state \<Rightarrow> nat" where
  "completed_count s = length (filter (\<lambda>c. completed (sections s c)) [A, B, C])"

definition script_pass :: "dataset option \<Rightarrow> app_state \<Rightarrow> py_error + app_state" where
  "script_pass ds s =
     (if page s = ProjectPage then
        if \<not> has_store s then Inl AttributeError else
        (case current s of
           AllView \<Rightarrow> (case all_results_view (sections s) of Inl e \<Rightarrow> Inl e | Inr _ \<Rightarrow> Inr s)
         | Sec c \<Rightarrow>
             (let s1 = map_pass s
              in case design_step (num_pts s1 c) (bathy_step ds (sections s1 c)) of
                   Inl e \<Rightarrow> Inl e
                 | Inr sec \<Rightarrow> Inr (s1\<lparr>sections := (sections s1)(c := sec)\<rparr>)))
      else Inr s)"

definition widget_cleanup :: "app_state \<Rightarrow> app_state" where
  "widget_cleanup s =
     s\<lparr>num_pts := (\<lambda>c. if page s = ProjectPage \<and> current s = Sec c \<and> design_visible (sections s c)
                       then num_pts s c else 5),
       param_state := (if page s = ProjectPage
                       then param_state s |` {p. param_shown (toggle_state s) p} else Map.empty),
       toggle_state := (if page s = ProjectPage then toggle_state s else Map.empty),
       coord_inputs := (case current s of
                          Sec c \<Rightarrow> if page s = ProjectPage
                                   then coord_inputs s |` {(c, coord_version s, f) | f. True}
                                   else Map.empty
                        | AllView \<Rightarrow> Map.empty)\<rparr>"

definition render :: "dataset option \<Rightarrow> app_state \<Rightarrow> py_error + app_state" where
  "render ds s = (case script_pass ds s of Inl e \<Rightarrow> Inl e | Inr s' \<Rightarrow> Inr (widget_cleanup s'))"

definition landing_submit :: "string \<Rightarrow> app_state \<Rightarrow> app_state option" where
  "landing_submit name s =
     (if name \<noteq> [] then Some (s\<lparr>project_name := Some name, page := ProjectPage\<rparr>) else None)"

definition project_title :: "app_state \<Rightarrow> string" where
  "project_title s = (case project_name s of Some n \<Rightarrow> n | None \<Rightarrow> ''Untitled Project'')"

fun coord_default :: "coord_field \<Rightarrow> real \<times> real \<times> real \<times> real \<Rightarrow> real" where
  "coord_default Lat1 (a, b, a', b') = a"
| "coord_default Lon1 (a, b, a', b') = b"
| "coord_default Lat2 (a, b, a', b') = a'"
| "coord_default Lon2 (a, b, a', b') = b'"

definition form_value :: "app_state \<Rightarrow> sec_id \<Rightarrow> coord_field \<Rightarrow> real" where
  "form_value s c f =
     (case coord_inputs s (c, coord_version s, f) of
        Some v \<Rightarrow> v
      | None \<Rightarrow> coord_default f (manual_defaults (sections s c)))"

definition form_values :: "app_state \<Rightarrow> sec_id \<Rightarrow> real \<times> real \<times> real \<times> real" where
  "form_values s c = (form_value s c Lat1, form_value s c Lon1, form_value s c Lat2, form_value s c Lon2)"

definition go_home :: "app_state \<Rightarrow> app_state" where
  "go_home s = s\<lparr>page := Landing, map_click := None\<rparr>"

fun handle :: "dataset option \<Rightarrow> app_state \<Rightarrow> event \<Rightarrow> py_error + app_state" where
  "handle ds s (StartProject name) =
     (if page s = Landing
      then (case landing_submit name s of Some s1 \<Rightarrow> render ds s1 | None \<Rightarrow> Inr s)
      else Inr s)"
| "handle ds s GoHome = (if page s = ProjectPage then render ds (go_home s) else Inr s)"
| "handle ds s (NavTo t) =
     (if page s = ProjectPage
      then render ds (s\<lparr>current := t, map_click := (if t = current s then map_click s else None)\<rparr>)
      else Inr s)"
| "handle ds s (MapClick la lo) =
     (if page s = ProjectPage \<and> current s \<noteq> AllView
      then render ds (s\<lparr>map_click := Some \<lparr>lat = la, lon = lo\<rparr>\<rparr>)
      else Inr s)"
| "handle ds s (ApplyCoords lat1 lon1 lat2 lon2) =
     (if page s = ProjectPage \<and> current s \<noteq> AllView
      then render ds (on_current (apply_coords lat1 lon1 lat2 lon2) (map_pass s))
      else Inr s)"
| "handle ds s ResetPoints =
     (if page s = ProjectPage \<and> current s \<noteq> AllView
      then (let s1 = on_current reset_points (map_pass s)
            in render ds (s1\<lparr>coord_version := Suc (coord_version s1)\<rparr>))
      else Inr s)"
| "handle ds s (SetNumPoints k) =
     (case current s of
        Sec c \<Rightarrow>
          if page s = ProjectPage \<and> design_visible (sections s c) \<and> 2 \<le> k \<and> k \<le> 20
          then render ds (s\<lparr>num_pts := (num_pts s)(c := k)\<rparr>)
          else Inr s
      | AllView \<Rightarrow> Inr s)"
| "handle ds s (EditPoint i d h) =
     (case current s of
        Sec c \<Rightarrow>
          if page s = ProjectPage \<and> design_visible (sections s c) \<and> i < num_pts s c
          then (case render ds s of
                  Inl e \<Rightarrow> Inl e
                | Inr s1 \<Rightarrow>
                    (case edit_point i d h (sections s1 c) of
                       Inl e \<Rightarrow> Inl e
                     | Inr sec \<Rightarrow> Inr (s1\<lparr>sections := (sections s1)(c := sec)\<rparr>)))
          else Inr s
      | AllView \<Rightarrow> Inr s)"
| "handle ds s CompareSave =
     (case current s of
        Sec c \<Rightarrow>
          if page s = ProjectPage \<and> design_visible (sections s c)
          then (case render ds s of
                  Inl e \<Rightarrow> Inl e
                | Inr s1 \<Rightarrow> render ds (on_current compare_save s1))
          else Inr s
      | AllView \<Rightarrow> Inr s)"
| "handle ds s PrevSection =
     (case current s of
        Sec c \<Rightarrow>
          (case prev_sec c of
             Some c' \<Rightarrow>
               if page s = ProjectPage \<and> design_visible (sections s c) \<and> completed (sections s c)
               then (case render ds s of
                       Inl e \<Rightarrow> Inl e
                     | Inr s1 \<Rightarrow> render ds (s1\<lparr>current := Sec c', map_click := None\<rparr>))
               else Inr s
           | None \<Rightarrow> Inr s)
      | AllView \<Rightarrow> Inr s)"
| "handle ds s NextSection =
     (case current s of
        Sec c \<Rightarrow>
          (case next_sec c of
             Some c' \<Rightarrow>
               if page s = ProjectPage \<and> design_visible (sections s c) \<and> completed (sections s c)
               then (case render ds s of
                       Inl e \<Rightarrow> Inl e
                     | Inr s1 \<Rightarrow> render ds (s1\<lparr>current := Sec c', map_click := None\<rparr>))
               else Inr s
           | None \<Rightarrow> Inr s)
      | AllView \<Rightarrow> Inr s)"
| "handle ds s Rerun = render ds s"
| "handle ds s (SetParam p v) =
     (if page s = ProjectPage \<and> param_shown (toggle_state s) p
      then render ds (s\<lparr>param_state := (param_state s)(p \<mapsto> v)\<rparr>)
      else Inr s)"
| "handle ds s (SetToggle t b) =
     (if page s = ProjectPage then render ds (s\<lparr>toggle_state := (toggle_state s)(t \<mapsto> b)\<rparr>) else Inr s)"
| "handle ds s (TypeCoord f v) =
     (case current s of
        Sec c \<Rightarrow>
          if page s = ProjectPage
          then render ds (s\<lparr>coord_inputs := (coord_inputs s)((c, coord_version s, f) \<mapsto> v)\<rparr>)
          else Inr s
      | AllView \<Rightarrow> Inr s)"

inductive reachable :: "dataset option \<Rightarrow> app_state \<Rightarrow> bool" for ds where
  start: "reachable ds init_state"
| step: "reachable ds s \<Longrightarrow> handle ds s e = Inr s' \<Longrightarrow> reachable ds s'"

definition app_ok :: "app_state \<Rightarrow> bool" where
  "app_ok s \<longleftrightarrow> has_store s \<and> (\<forall>c. section_ok (sections s c) \<and> 2 \<le> num_pts s c \<and> num_pts s c \<le> 20)"

fun run :: "dataset option \<Rightarrow> app_state \<Rightarrow> event list \<Rightarrow> py_error + app_state" where
  "run ds s [] = Inr s"
| "run ds s (e # es) = (case handle ds s e of Inl err \<Rightarrow> Inl err | Inr s' \<Rightarrow> run ds s' es)"

inductive_cases reachable_stepE: "reachable ds s'"

subsection \<open>Frame lemmas of the pass components\<close>

lemma app_ok_init: "app_ok init_state"
  by (simp add: app_ok_def init_state_def)

lemma map_pass_fields [simp]:
  "page (map_pass s) = page s" "current (map_pass s) = current s"
  "num_pts (map_pass s) = num_pts s" "map_click (map_pass s) = map_click s"
  "project_name (map_pass s) = project_name s" "has_store (map_pass s) = has_store s"
  by (auto simp: map_pass_def split: view.splits option.splits prod.splits bool.splits)

lemma map_pass_sections:
  "sections (map_pass s) =
     (case (current s, map_click s) of
        (Sec c, Some p) \<Rightarrow> (sections s)(c := fst (click_point (lat p) (lon p) (sections s c)))
      | _ \<Rightarrow> sections s)"
  by (auto simp: map_pass_def click_point_def split: view.splits option.splits)

lemma map_pass_ok: "app_ok s \<Longrightarrow> app_ok (map_pass s)"
  by (auto simp: app_ok_def map_pass_sections section_ok_click
      split: view.splits option.splits)

lemma map_pass_completed [simp]:
  "completed (sections (map_pass s) c) = completed (sections s c)"
  by (auto simp: map_pass_sections split: view.splits option.splits)

lemma map_pass_other: "current s \<noteq> Sec c \<Longrightarrow> sections (map_pass s) c = sections s c"
  by (auto simp: map_pass_sections split: view.splits option.splits)

lemma map_pass_two: "current s = Sec c \<Longrightarrow> length (points (sections s c)) = 2 \<Longrightarrow> map_pass s = s"
  by (auto simp: map_pass_def click_point_two split: option.splits)

lemma map_pass_no_click: "map_click s = None \<Longrightarrow> map_pass s = s"
  by (auto simp: map_pass_def split: view.splits)

lemma on_current_fields [simp]:
  "page (on_current f s) = page s" "current (on_current f s) = current s"
  "num_pts (on_current f s) = num_pts s" "map_click (on_current f s) = map_click s"
  "coord_version (on_current f s) = coord_version s" "has_store (on_current f s) = has_store s"
  by (auto simp: on_current_def split: view.splits)

lemma on_current_ok:
  "app_ok s \<Longrightarrow> (\<And>sec. section_ok sec \<Longrightarrow> section_ok (f sec)) \<Longrightarrow> app_ok (on_current f s)"
  by (auto simp: app_ok_def on_current_def split: view.splits)

lemma section_metrics_ok:
  assumes "section_ok sd" and "completed sd"
  shows "\<exists>m. section_metrics sd = Inr m"
proof -
  have u: "user_dist sd \<noteq> []" and b: "bathy_dist sd \<noteq> []"
    and lu: "length (user_dist sd) = length (user_depth sd)"
    and lb: "length (bathy_dist sd) = length (bathy_depth sd)"
    using assms by (auto simp: section_ok_def)
  from u lu have "user_depth sd \<noteq> []" by (metis length_0_conv)
  moreover from b lb have "bathy_depth sd \<noteq> []" by (metis length_0_conv)
  ultimately show ?thesis using b by (simp add: section_metrics_def)
qed

lemma all_results_view_ok: "\<forall>c. section_ok (secs c) \<Longrightarrow> \<exists>r. all_results_view secs = Inr r"
proof -
  assume ok: "\<forall>c. section_ok (secs c)"
  let ?g = "\<lambda>c. (c, projr (section_metrics (secs c)))"
  have h: "\<forall>c\<in>set (filter (\<lambda>c. completed (secs c)) [A, B, C]).
      (case section_metrics (secs c) of Inl e \<Rightarrow> Inl e | Inr m \<Rightarrow> Inr (c, m)) = Inr (?g c)"
  proof
    fix c assume "c \<in> set (filter (\<lambda>c. completed (secs c)) [A, B, C])"
    then have "completed (secs c)" by (metis (mono_tags) mem_Collect_eq set_filter)
    with ok obtain m where "section_metrics (secs c) = Inr m"
      using section_metrics_ok by blast
    then show "(case section_metrics (secs c) of Inl e \<Rightarrow> Inl e | Inr m \<Rightarrow> Inr (c, m)) = Inr (?g c)"
      by simp
  qed
  show ?thesis unfolding all_results_view_def using map_sum_Inr [OF h] by blast
qed

subsection \<open>A pass never raises under the invariant\<close>

lemma app_ok_has_store: "app_ok s \<Longrightarrow> has_store s"
  by (simp add: app_ok_def)

lemma script_pass_ok: "app_ok s \<Longrightarrow> \<exists>s'. script_pass ds s = Inr s' \<and> app_ok s'"
proof -
  assume ok: "app_ok s"
  show ?thesis
  proof (cases "page s = ProjectPage")
    case True
    show ?thesis
    proof (cases "current s")
      case (Sec c)
      let ?s1 = "map_pass s"
      have ok1: "app_ok ?s1" using ok by (rule map_pass_ok)
      then have secb: "section_ok (bathy_step ds (sections ?s1 c))"
        and n: "2 \<le> num_pts ?s1 c" "num_pts ?s1 c \<le> 20"
        by (auto simp: app_ok_def section_ok_bathy)
      then obtain sec' where d: "design_step (num_pts ?s1 c) (bathy_step ds (sections ?s1 c)) = Inr sec'"
        using design_step_Inr by fastforce
      with secb n have "section_ok sec'" by (blast intro: section_ok_design)
      with ok1 have "app_ok (?s1\<lparr>sections := (sections ?s1)(c := sec')\<rparr>)"
        by (simp add: app_ok_def)
      with True Sec d app_ok_has_store [OF ok] show ?thesis by (simp add: script_pass_def Let_def)
    next
      case AllView
      have "\<forall>c. section_ok (sections s c)" using ok by (simp add: app_ok_def)
      then obtain r where "all_results_view (sections s) = Inr r"
        using all_results_view_ok by blast
      with True AllView ok app_ok_has_store [OF ok] show ?thesis by (simp add: script_pass_def)
    qed
  next
    case False
    with ok show ?thesis by (simp add: script_pass_def)
  qed
qed

lemma widget_cleanup_fields [simp]:
  "page (widget_cleanup s) = page s" "current (widget_cleanup s) = current s"
  "sections (widget_cleanup s) = sections s" "map_click (widget_cleanup s) = map_click s"
  "project_name (widget_cleanup s) = project_name s"
  "coord_version (widget_cleanup s) = coord_version s" "has_store (widget_cleanup s) = has_store s"
  by (simp_all add: widget_cleanup_def)

lemma widget_cleanup_num_pts:
  "num_pts (widget_cleanup s) c =
     (if page s = ProjectPage \<and> current s = Sec c \<and> design_visible (sections s c) then num_pts s c else 5)"
  by (simp add: widget_cleanup_def)

lemma widget_cleanup_ok: "app_ok s \<Longrightarrow> app_ok (widget_cleanup s)"
  by (simp add: app_ok_def widget_cleanup_def)

lemma render_ok: "app_ok s \<Longrightarrow> \<exists>s'. render ds s = Inr s' \<and> app_ok s'"
  using script_pass_ok [of s ds] widget_cleanup_ok by (auto simp: render_def)

lemma render_Inr:
  "render ds s = Inr s' \<longleftrightarrow> (\<exists>s1. script_pass ds s = Inr s1 \<and> s' = widget_cleanup s1)"
  by (auto simp: render_def split: sum.splits)

lemma script_pass_frame:
  assumes "script_pass ds s = Inr s'"
  shows "page s' = page s \<and> current s' = current s \<and> num_pts s' = num_pts s
    \<and> map_click s' = map_click s \<and> project_name s' = project_name s
    \<and> (\<forall>c. completed (sections s' c) = completed (sections s c))
    \<and> (\<forall>c. current s \<noteq> Sec c \<longrightarrow> sections s' c = sections s c)"
  using assms
  by (auto simp: script_pass_def map_pass_other Let_def dest: design_step_frame
      split: if_splits view.splits sum.splits)

lemma render_frame:
  assumes "render ds s = Inr s'"
  shows "page s' = page s \<and> current s' = current s
    \<and> map_click s' = map_click s \<and> project_name s' = project_name s
    \<and> (\<forall>c. completed (sections s' c) = completed (sections s c))
    \<and> (\<forall>c. current s \<noteq> Sec c \<longrightarrow> sections s' c = sections s c)
    \<and> (\<forall>c. num_pts s' c = (if page s = ProjectPage \<and> current s = Sec c \<and> design_visible (sections s' c)
                           then num_pts s c else 5))"
  using assms script_pass_frame [of ds s] by (auto simp: render_Inr widget_cleanup_num_pts)

lemma render_visible:
  assumes "app_ok s" and "page s = ProjectPage" and "current s = Sec c"
    and "design_visible (sections s c)" and "render ds s = Inr s1"
  shows "design_visible (sections s1 c) \<and> length (user_dist (sections s1 c)) = num_pts s c
    \<and> length (user_depth (sections s1 c)) = num_pts s c"
proof -
  have two: "length (points (sections s c)) = 2" using assms(4) by (simp add: design_visible_def)
  have mp: "map_pass s = s" by (rule map_pass_two [OF assms(3) two])
  have bs: "bathy_step ds (sections s c) = sections s c"
    using assms(4) by (simp add: design_visible_def bathy_step_keeps_profile)
  obtain sec' where d: "design_step (num_pts s c) (sections s c) = Inr sec'"
    and s1: "s1 = widget_cleanup (s\<lparr>sections := (sections s)(c := sec')\<rparr>)"
    using assms(2,3,5) app_ok_has_store [OF assms(1)]
    by (auto simp: render_def script_pass_def mp bs split: sum.splits)
  have ok: "section_ok (sections s c)" using assms(1) by (simp add: app_ok_def)
  show ?thesis
    using design_step_visible_length [OF assms(4) d ok] design_step_frame [OF d] assms(4) s1
    by (simp add: design_visible_def)
qed

lemma app_ok_fields [simp]:
  "app_ok (s\<lparr>page := x\<rparr>) = app_ok s" "app_ok (s\<lparr>project_name := n\<rparr>) = app_ok s"
  "app_ok (s\<lparr>current := v\<rparr>) = app_ok s" "app_ok (s\<lparr>map_click := m\<rparr>) = app_ok s"
  "app_ok (s\<lparr>coord_version := k\<rparr>) = app_ok s"
  "app_ok (s\<lparr>param_state := ps\<rparr>) = app_ok s" "app_ok (s\<lparr>toggle_state := ts\<rparr>) = app_ok s"
  "app_ok (s\<lparr>coord_inputs := ci\<rparr>) = app_ok s"
  by (simp_all add: app_ok_def)

lemma handle_edit_ok:
  assumes ok: "app_ok s" and "current s = Sec c" and "page s = ProjectPage"
    and "design_visible (sections s c)" and "i < num_pts s c"
  shows "\<exists>s'. handle ds s (EditPoint i d h) = Inr s' \<and> app_ok s'"
proof -
  obtain s1 where r: "render ds s = Inr s1" and ok1: "app_ok s1" using render_ok [OF ok] by blast
  have "length (user_dist (sections s1 c)) = num_pts s c \<and> length (user_depth (sections s1 c)) = num_pts s c"
    using render_visible [OF ok assms(3,2,4) r] by simp
  then obtain sec where e: "edit_point i d h (sections s1 c) = Inr sec"
    using assms(5) by (simp add: edit_point_def)
  have "section_ok sec" using ok1 e by (auto simp: app_ok_def intro: section_ok_edit)
  with ok1 have "app_ok (s1\<lparr>sections := (sections s1)(c := sec)\<rparr>)" by (simp add: app_ok_def)
  with assms r e show ?thesis by simp
qed

lemma handle_compare_ok:
  assumes ok: "app_ok s" and "current s = Sec c" and "page s = ProjectPage"
    and "design_visible (sections s c)"
  shows "\<exists>s'. handle ds s CompareSave = Inr s' \<and> app_ok s'"
proof -
  obtain s1 where r: "render ds s = Inr s1" and ok1: "app_ok s1" using render_ok [OF ok] by blast
  have "length (user_dist (sections s1 c)) = num_pts s c"
    using render_visible [OF ok assms(3,2,4) r] by simp
  moreover have "2 \<le> num_pts s c" using ok by (simp add: app_ok_def)
  ultimately have "user_dist (sections s1 c) \<noteq> []" by auto
  moreover have "current s1 = Sec c" using render_frame [OF r] assms(2) by simp
  ultimately have "app_ok (on_current compare_save s1)"
    using ok1 by (auto simp: on_current_def app_ok_def intro: section_ok_compare)
  then obtain s2 where "render ds (on_current compare_save s1) = Inr s2 \<and> app_ok s2"
    using render_ok by blast
  with assms r show ?thesis by simp
qed

lemma handle_move_ok:
  assumes ok: "app_ok s"
  shows "\<exists>s'. (case render ds s of Inl e \<Rightarrow> Inl e
             | Inr s1 \<Rightarrow> render ds (s1\<lparr>current := v, map_click := None\<rparr>)) = Inr s' \<and> app_ok s'"
proof -
  obtain s1 where r: "render ds s = Inr s1" and ok1: "app_ok s1" using render_ok [OF ok] by blast
  then obtain s2 where "render ds (s1\<lparr>current := v, map_click := None\<rparr>) = Inr s2 \<and> app_ok s2"
    using render_ok [of "s1\<lparr>current := v, map_click := None\<rparr>"] by auto
  with r show ?thesis by simp
qed

lemma handle_ok: "app_ok s \<Longrightarrow> \<exists>s'. handle ds s e = Inr s' \<and> app_ok s'"
proof (cases e)
  case (ApplyCoords a b c d)
  assume ok: "app_ok s"
  then have "app_ok (on_current (apply_coords a b c d) (map_pass s))"
    by (intro on_current_ok map_pass_ok section_ok_apply)
  then show ?thesis using ApplyCoords ok render_ok by auto
next
  case ResetPoints
  assume ok: "app_ok s"
  then have "app_ok (on_current reset_points (map_pass s))"
    by (intro on_current_ok map_pass_ok section_ok_reset)
  then show ?thesis using ResetPoints ok render_ok by (auto simp: Let_def)
next
  case (SetNumPoints k)
  assume ok: "app_ok s"
  show ?thesis
  proof (cases "current s")
    case (Sec c)
    have "2 \<le> k \<Longrightarrow> k \<le> 20 \<Longrightarrow> app_ok (s\<lparr>num_pts := (num_pts s)(c := k)\<rparr>)"
      using ok by (simp add: app_ok_def)
    then show ?thesis using SetNumPoints Sec ok render_ok by auto
  qed (use SetNumPoints ok in simp)
next
  case (EditPoint i d h)
  assume ok: "app_ok s"
  show ?thesis
    using EditPoint ok handle_edit_ok [OF ok] by (auto split: view.splits)
next
  case CompareSave
  assume ok: "app_ok s"
  show ?thesis
    using CompareSave ok handle_compare_ok [OF ok] by (auto split: view.splits)
next
  case PrevSection
  assume ok: "app_ok s"
  show ?thesis
    using PrevSection ok handle_move_ok [OF ok] by (auto split: view.splits option.splits)
next
  case NextSection
  assume ok: "app_ok s"
  show ?thesis
    using NextSection ok handle_move_ok [OF ok] by (auto split: view.splits option.splits)
qed (auto intro: render_ok simp: landing_submit_def go_home_def split: option.splits view.splits)

lemma reachable_app_ok: "reachable ds s \<Longrightarrow> app_ok s"
proof (induction rule: reachable.induct)
  case start
  show ?case by (rule app_ok_init)
next
  case (step s e s')
  then show ?case using handle_ok [of s ds e] by auto
qed

lemma run_reachable: "reachable ds s \<Longrightarrow> run ds s es = Inr s' \<Longrightarrow> reachable ds s'"
proof (induction es arbitrary: s)
  case Nil
  then show ?case by simp
next
  case (Cons e es)
  then obtain s1 where "handle ds s e = Inr s1" and "run ds s1 es = Inr s'"
    by (auto split: sum.splits)
  with Cons show ?case by (blast intro: reachable.step)
qed

end
