(* ===== verification/Session_Props.thy ===== *)
theory Session_Props
  imports Session
begin

text \<open>
  Properties of the session state machine of \<open>Session\<close>: safety (no interaction raises
  in a reachable state), the completed-section invariant, that only the explicit
  confirmation sets the completed flag, the behaviour of the Reset and Apply buttons
  (including two behaviours the spec does not describe: the map's last click is
  re-added after a reset, and applying new coordinates keeps the old profile), the
  landing form's validation, navigation, regeneration of the design curve when the number
  of points changes, editing a design point, and that an interaction changes no other
  section.  Witnesses run concrete event sequences with \<open>run\<close>, evaluated by
  \<open>simp\<close> with the bundle \<open>run_eval\<close>.
\<close>

lemmas run_eval = init_state_def landing_submit_def render_def script_pass_def widget_cleanup_def map_pass_def on_current_def apply_coords_def
  click_point_def near_def reset_points_def bathy_step_def extract_depth_profile_Some
  linspace_same profile_distances_same sample_depths_def select_depth_var_def design_step_def
  default_dists_def np_interp_def interp_pts_def compare_save_def design_visible_def
  empty_section_def Let_def eval_nat_numeral upt_rec

lemma app_ok_completed:
  assumes "app_ok s" and "completed (sections s c)"
  shows "design_visible (sections s c)
    \<and> length (bathy_dist (sections s c)) = length (bathy_depth (sections s c))
    \<and> 2 \<le> length (user_dist (sections s c))
    \<and> length (user_dist (sections s c)) = length (user_depth (sections s c))"
proof -
  have "section_ok (sections s c)" using assms(1) by (simp add: app_ok_def)
  then show ?thesis using assms(2) unfolding section_ok_def design_visible_def by blast
qed

lemma on_current_sections:
  "sections (on_current f s) c =
     (if current s = Sec c then f (sections s c) else sections s c)"
  by (auto simp: on_current_def split: view.splits)

subsection \<open>Properties of the session\<close>

text \<open>C1. Safety: in every reachable state of the session that owns the section store
  (the session whose run first imported \<open>profile_module\<close>; the other sessions are
  \<open>Session_Store\<close> and \<open>Server_Process\<close>), whatever the user does next,
  the script pass raises no exception (no \<open>IndexError\<close> on \<open>bathy_dist[-1]\<close> or a
  design point, no \<open>ValueError\<close> from \<open>min\<close> or \<open>np.interp\<close>, no division by zero).\<close>

theorem reachable_no_error: "reachable ds s \<Longrightarrow> \<exists>s'. handle ds s e = Inr s'"
  using handle_ok reachable_app_ok by blast

theorem reachable_no_error_witness:
  "reachable None init_state \<and> (\<exists>s'. handle None init_state (StartProject ''P'') = Inr s')"
  using reachable_no_error [OF reachable.start] reachable.start by blast

text \<open>C2. Invariant: in every reachable state a completed section has exactly two points,
  a bathymetry profile (distances and depths of equal length) and a design curve of at
  least two points (distances and depths of equal length).\<close>

theorem reachable_completed_section:
  assumes "reachable ds s" and "completed (sections s c)"
  shows "length (points (sections s c)) = 2 \<and> bathy_dist (sections s c) \<noteq> []
    \<and> length (bathy_dist (sections s c)) = length (bathy_depth (sections s c))
    \<and> 2 \<le> length (user_dist (sections s c))
    \<and> length (user_dist (sections s c)) = length (user_depth (sections s c))"
  using app_ok_completed [OF reachable_app_ok [OF assms(1)] assms(2)]
  unfolding design_visible_def by blast

theorem reachable_completed_section_witness:
  "\<exists>S. reachable (Some []) S \<and> completed (sections S A)
     \<and> length (points (sections S A)) = 2 \<and> bathy_dist (sections S A) \<noteq> []
     \<and> length (bathy_dist (sections S A)) = length (bathy_depth (sections S A))
     \<and> 2 \<le> length (user_dist (sections S A))
     \<and> length (user_dist (sections S A)) = length (user_depth (sections S A))"
proof -
  have "\<exists>S. run (Some []) init_state [StartProject ''P'', ApplyCoords 0 0 0 0, CompareSave] = Inr S
      \<and> completed (sections S A)"
    by (simp add: run_eval)
  then obtain S where r: "run (Some []) init_state [StartProject ''P'', ApplyCoords 0 0 0 0, CompareSave] = Inr S"
    and c: "completed (sections S A)"
    by blast
  have "reachable (Some []) S" using run_reachable [OF reachable.start r] .
  with c reachable_completed_section [of "Some []" S A] show ?thesis by blast
qed

text \<open>C3. Only the explicit "Compare and Save" confirmation on a section sets its
  completed flag: no other interaction, and no interaction on another section, does.\<close>

theorem completed_only_by_compare:
  assumes "handle ds s e = Inr s'" and "\<not> completed (sections s c)"
    and "completed (sections s' c)"
  shows "e = CompareSave \<and> current s = Sec c"
proof (cases e)
  case CompareSave
  then obtain c0 s1 where cur: "current s = Sec c0" and r1: "render ds s = Inr s1"
    and r2: "render ds (on_current compare_save s1) = Inr s'"
    using assms by (auto split: view.splits if_splits sum.splits)
  have "current s1 = Sec c0" using render_frame [OF r1] cur by simp
  moreover have "completed (sections s1 c) = completed (sections s c)" using render_frame [OF r1] by simp
  moreover have "completed (sections s' c) = completed (sections (on_current compare_save s1) c)"
    using render_frame [OF r2] by simp
  ultimately have "c0 = c" using assms(2,3) by (auto simp: on_current_sections compare_save_def split: if_splits)
  with CompareSave cur show ?thesis by simp
next
  case (ApplyCoords a b c1 d)
  then show ?thesis using assms
    by (auto dest!: render_frame simp: on_current_sections apply_coords_def split: if_splits)
next
  case ResetPoints
  then show ?thesis using assms
    by (auto dest!: render_frame simp: on_current_sections reset_points_def Let_def split: if_splits)
next
  case (EditPoint i d h)
  then show ?thesis using assms
    by (auto dest!: render_frame simp: edit_point_def split: view.splits if_splits sum.splits)
next
  case PrevSection
  then show ?thesis using assms
    by (auto dest!: render_frame split: view.splits option.splits if_splits sum.splits)
next
  case NextSection
  then show ?thesis using assms
    by (auto dest!: render_frame split: view.splits option.splits if_splits sum.splits)
qed (use assms in \<open>auto dest!: render_frame simp: landing_submit_def go_home_def
    split: view.splits if_splits option.splits\<close>)

theorem completed_only_by_compare_witness:
  "\<exists>S S'. handle (Some []) S CompareSave = Inr S' \<and> \<not> completed (sections S A)
     \<and> completed (sections S' A) \<and> CompareSave = CompareSave \<and> current S = Sec A"
proof -
  have "\<exists>S. run (Some []) init_state [StartProject ''P'', ApplyCoords 0 0 0 0] = Inr S
      \<and> \<not> completed (sections S A)
      \<and> (\<exists>S'. handle (Some []) S CompareSave = Inr S' \<and> completed (sections S' A))"
    by (simp add: run_eval)
  then obtain S where c: "\<not> completed (sections S A)"
    and h: "\<exists>S'. handle (Some []) S CompareSave = Inr S' \<and> completed (sections S' A)"
    by blast
  then obtain S' where "handle (Some []) S CompareSave = Inr S'" "completed (sections S' A)" by blast
  with c completed_only_by_compare [of "Some []" S CompareSave S' A] show ?thesis by blast
qed

text \<open>Progress display: the "All Results (k/3)" counter never counts a section that
  lacks its two points and its profile, although \<open>compare_save\<close> itself checks
  nothing: the button is only shown once both exist.\<close>

theorem completed_count_visible:
  "reachable ds s \<Longrightarrow>
     completed_count s \<le> length (filter (\<lambda>c. design_visible (sections s c)) [A, B, C])"
  unfolding completed_count_def
  by (rule length_filter_mono_pred) (blast dest: app_ok_completed [OF reachable_app_ok])

theorem completed_count_visible_witness:
  "reachable None init_state \<and>
     completed_count init_state \<le> length (filter (\<lambda>c. design_visible (sections init_state c)) [A, B, C])"
  using completed_count_visible [OF reachable.start] reachable.start by blast

text \<open>"Reset Points" with no pending map click returns the current section to the
  empty section (no points, no curves, not completed) and leaves the other sections as
  they were.\<close>

theorem reset_clears_section:
  assumes "app_ok s" and "page s = ProjectPage" and "current s = Sec c" and "map_click s = None"
  shows "\<exists>s'. handle ds s ResetPoints = Inr s' \<and> sections s' c = empty_section
    \<and> (\<forall>c'. c' \<noteq> c \<longrightarrow> sections s' c' = sections s c')"
proof -
  let ?s1 = "on_current reset_points s"
  let ?s2 = "?s1\<lparr>coord_version := Suc (coord_version ?s1)\<rparr>"
  have sec: "sections ?s2 = (sections s)(c := empty_section)"
    using assms(3) by (simp add: on_current_sections reset_points_empty fun_eq_iff)
  have "script_pass ds ?s2 = Inr ?s2"
    using assms(2,3,4) sec app_ok_has_store [OF assms(1)]
    by (simp add: script_pass_def map_pass_no_click bathy_step_def design_step_def empty_section_def)
  then have "handle ds s ResetPoints = Inr (widget_cleanup ?s2)"
    using assms(2,3,4) by (simp add: render_def map_pass_no_click Let_def)
  with sec show ?thesis by auto
qed

theorem reset_clears_section_witness:
  "app_ok (init_state\<lparr>page := ProjectPage\<rparr>) \<and> page (init_state\<lparr>page := ProjectPage\<rparr>) = ProjectPage
   \<and> current (init_state\<lparr>page := ProjectPage\<rparr>) = Sec A \<and> map_click (init_state\<lparr>page := ProjectPage\<rparr>) = None
   \<and> (\<exists>s'. handle None (init_state\<lparr>page := ProjectPage\<rparr>) ResetPoints = Inr s'
        \<and> sections s' A = empty_section
        \<and> (\<forall>c'. c' \<noteq> A \<longrightarrow> sections s' c' = sections (init_state\<lparr>page := ProjectPage\<rparr>) c'))"
proof -
  have h: "app_ok (init_state\<lparr>page := ProjectPage\<rparr>)" by (simp add: app_ok_def init_state_def)
  show ?thesis
    using reset_clears_section [OF h, of A None] h by (simp add: init_state_def)
qed

text \<open>C12. A reset does not stay empty after a map click: \<open>st_folium\<close> still reports the
  last click on the rerun after "Reset Points", and the click handler adds it again, so
  the section is left with one point instead of none.\<close>

theorem reset_readds_last_click:
  assumes ok: "app_ok s" and pg: "page s = ProjectPage" and cur: "current s = Sec c"
    and mc: "map_click s = Some p"
  shows "\<exists>s'. handle ds s ResetPoints = Inr s' \<and> points (sections s' c) = [p] \<and> \<not> completed (sections s' c)"
proof -
  let ?s2 = "(on_current reset_points (map_pass s))\<lparr>coord_version := Suc (coord_version (on_current reset_points (map_pass s)))\<rparr>"
  obtain s' where h: "handle ds s ResetPoints = Inr s'" using handle_ok [OF ok] by blast
  then have r: "render ds ?s2 = Inr s'" using pg cur by (simp add: Let_def)
  have e: "sections ?s2 c = empty_section" using cur by (simp add: on_current_sections reset_points_empty)
  have m: "sections (map_pass ?s2) c = empty_section\<lparr>points := [p]\<rparr>"
    using cur mc e by (simp add: map_pass_sections click_point_def empty_section_def)
  obtain y1 where p: "script_pass ds ?s2 = Inr y1" and y: "s' = widget_cleanup y1"
    using r by (auto simp: render_Inr)
  obtain sec where d: "design_step (num_pts (map_pass ?s2) c) (bathy_step ds (sections (map_pass ?s2) c)) = Inr sec"
    and y1: "y1 = (map_pass ?s2)\<lparr>sections := (sections (map_pass ?s2))(c := sec)\<rparr>"
    using p pg cur app_ok_has_store [OF ok] by (auto simp: script_pass_def Let_def split: sum.splits)
  have "points sec = [p] \<and> \<not> completed sec"
    using design_step_frame [OF d] m cur by (simp add: empty_section_def on_current_sections reset_points_empty)
  with h y y1 show ?thesis by simp
qed

theorem reset_readds_last_click_witness:
  "\<exists>S. app_ok S \<and> page S = ProjectPage \<and> current S = Sec A \<and> map_click S = Some \<lparr>lat = 41, lon = 29\<rparr>
     \<and> (\<exists>s'. handle None S ResetPoints = Inr s' \<and> points (sections s' A) = [\<lparr>lat = 41, lon = 29\<rparr>]
          \<and> \<not> completed (sections s' A))"
proof -
  have "\<exists>S. run None init_state [StartProject ''P'', MapClick 41 29] = Inr S \<and> page S = ProjectPage
      \<and> current S = Sec A \<and> map_click S = Some \<lparr>lat = 41, lon = 29\<rparr>"
    by (simp add: run_eval)
  then obtain S where r: "run None init_state [StartProject ''P'', MapClick 41 29] = Inr S"
    and pg: "page S = ProjectPage" and c: "current S = Sec A" and m: "map_click S = Some \<lparr>lat = 41, lon = 29\<rparr>"
    by blast
  have ok: "app_ok S" using reachable_app_ok [OF run_reachable [OF reachable.start r]] .
  show ?thesis using reset_readds_last_click [OF ok pg c m, of None] ok pg c m by blast
qed

text \<open>C11. "Apply Coordinates" on a section that already has a profile replaces its two
  points but keeps the old bathymetry profile (and the completed flag): the profile is
  only extracted when none is stored.\<close>

theorem apply_keeps_stale_profile:
  assumes ok: "app_ok s" and "page s = ProjectPage" and cur: "current s = Sec c"
    and vis: "design_visible (sections s c)"
  shows "\<exists>s'. handle ds s (ApplyCoords a b a' b') = Inr s'
    \<and> points (sections s' c) = [\<lparr>lat = a, lon = b\<rparr>, \<lparr>lat = a', lon = b'\<rparr>]
    \<and> bathy_dist (sections s' c) = bathy_dist (sections s c)
    \<and> bathy_depth (sections s' c) = bathy_depth (sections s c)
    \<and> completed (sections s' c) = completed (sections s c)"
proof -
  have two: "length (points (sections s c)) = 2" using vis by (simp add: design_visible_def)
  have mp: "map_pass s = s" by (rule map_pass_two [OF cur two])
  let ?sec1 = "apply_coords a b a' b' (sections s c)"
  let ?s1 = "on_current (apply_coords a b a' b') s"
  have s1c: "sections ?s1 c = ?sec1" using cur by (simp add: on_current_sections)
  have c1: "current ?s1 = Sec c" using cur by (simp add: on_current_def)
  have l1: "length (points (sections ?s1 c)) = 2" by (simp only: s1c) (simp add: apply_coords_def)
  have mp1: "map_pass ?s1 = ?s1" by (rule map_pass_two [OF c1 l1])
  have bs: "bathy_step ds ?sec1 = ?sec1"
    using vis by (intro bathy_step_keeps_profile) (simp add: apply_coords_def design_visible_def)
  obtain s' where h: "handle ds s (ApplyCoords a b a' b') = Inr s'"
    using handle_ok [OF ok] by blast
  then have "render ds ?s1 = Inr s'" using assms(2) cur mp by simp
  then obtain sec2 where d: "design_step (num_pts s c) ?sec1 = Inr sec2"
    and s': "s' = widget_cleanup (?s1\<lparr>sections := (sections ?s1)(c := sec2)\<rparr>)"
    using assms(2) cur mp1 bs s1c app_ok_has_store [OF ok]
    by (auto simp: render_def script_pass_def Let_def split: sum.splits)
  show ?thesis
    using h s' design_step_frame [OF d] by (simp add: apply_coords_def)
qed

theorem apply_keeps_stale_profile_witness:
  "app_ok (init_state\<lparr>page := ProjectPage, sections := (\<lambda>_. empty_section)(A :=
      \<lparr>points = [\<lparr>lat = 0, lon = 0\<rparr>, \<lparr>lat = 0, lon = 1\<rparr>], bathy_dist = [0, 10], bathy_depth = [-1, -2],
       user_dist = [], user_depth = [], completed = False\<rparr>)\<rparr>)
   \<and> (\<exists>s'. handle None (init_state\<lparr>page := ProjectPage, sections := (\<lambda>_. empty_section)(A :=
      \<lparr>points = [\<lparr>lat = 0, lon = 0\<rparr>, \<lparr>lat = 0, lon = 1\<rparr>], bathy_dist = [0, 10], bathy_depth = [-1, -2],
       user_dist = [], user_depth = [], completed = False\<rparr>)\<rparr>) (ApplyCoords 5 5 6 6) = Inr s'
      \<and> points (sections s' A) = [\<lparr>lat = 5, lon = 5\<rparr>, \<lparr>lat = 6, lon = 6\<rparr>]
      \<and> bathy_dist (sections s' A) = [0, 10] \<and> bathy_depth (sections s' A) = [-1, -2]
      \<and> completed (sections s' A) = False)"
proof -
  let ?s = "init_state\<lparr>page := ProjectPage, sections := (\<lambda>_. empty_section)(A :=
      \<lparr>points = [\<lparr>lat = 0, lon = 0\<rparr>, \<lparr>lat = 0, lon = 1\<rparr>], bathy_dist = [0, 10], bathy_depth = [-1, -2],
       user_dist = [], user_depth = [], completed = False\<rparr>)\<rparr>"
  have h: "app_ok ?s" by (simp add: app_ok_def init_state_def section_ok_def empty_section_def)
  have v: "design_visible (sections ?s A)" by (simp add: design_visible_def)
  show ?thesis
    using apply_keeps_stale_profile [OF h _ _ v, of None 5 5 6 6] h by (simp add: init_state_def)
qed

text \<open>The landing form: "Start Project" with an empty name stays on the landing
  page with nothing changed (the error message); with a name it opens the project page
  and records the name.\<close>

theorem start_project_requires_name:
  assumes "page s = Landing" and "app_ok s"
  shows "\<exists>s'. handle ds s (StartProject name) = Inr s'
    \<and> (page s' = ProjectPage \<longleftrightarrow> name \<noteq> []) \<and> (name \<noteq> [] \<longrightarrow> project_name s' = Some name)
    \<and> (name = [] \<longrightarrow> s' = s)"
proof (cases "name = []")
  case True
  with assms show ?thesis by (simp add: landing_submit_def)
next
  case False
  obtain s' where r: "render ds (s\<lparr>project_name := Some name, page := ProjectPage\<rparr>) = Inr s'"
    using render_ok [of "s\<lparr>project_name := Some name, page := ProjectPage\<rparr>"] assms(2) by auto
  with assms False render_frame [OF r] show ?thesis by (simp add: landing_submit_def)
qed

theorem start_project_requires_name_witness:
  "page init_state = Landing \<and> app_ok init_state
   \<and> (\<exists>s'. handle None init_state (StartProject ''Beach'') = Inr s'
       \<and> (page s' = ProjectPage \<longleftrightarrow> ''Beach'' \<noteq> [])
       \<and> (''Beach'' \<noteq> [] \<longrightarrow> project_name s' = Some ''Beach'')
       \<and> (''Beach'' = [] \<longrightarrow> s' = init_state))"
proof -
  have h: "page init_state = Landing" "app_ok init_state" by (simp add: init_state_def) (rule app_ok_init)
  show ?thesis using start_project_requires_name [OF h, of None "''Beach''"] h by blast
qed

text \<open>The navigation buttons on the project page always succeed and show the
  chosen view.\<close>

theorem nav_to_view:
  assumes "app_ok s" and "page s = ProjectPage"
  shows "\<exists>s'. handle ds s (NavTo t) = Inr s' \<and> current s' = t"
proof -
  let ?s1 = "s\<lparr>current := t, map_click := (if t = current s then map_click s else None)\<rparr>"
  obtain s' where r: "render ds ?s1 = Inr s'" using render_ok [of ?s1] assms(1) by auto
  with assms(2) render_frame [OF r] show ?thesis by simp
qed

theorem nav_to_view_witness:
  "app_ok (init_state\<lparr>page := ProjectPage\<rparr>) \<and> page (init_state\<lparr>page := ProjectPage\<rparr>) = ProjectPage
   \<and> (\<exists>s'. handle None (init_state\<lparr>page := ProjectPage\<rparr>) (NavTo AllView) = Inr s' \<and> current s' = AllView)"
proof -
  have h: "app_ok (init_state\<lparr>page := ProjectPage\<rparr>)" by (simp add: app_ok_def init_state_def)
  show ?thesis using nav_to_view [OF h, of None AllView] h by simp
qed

text \<open>C32. An interaction changes only the section that is shown before or after it:
  every other section is left exactly as it was.\<close>

theorem other_sections_untouched:
  assumes "handle ds s e = Inr s'" and "current s \<noteq> Sec c" and "current s' \<noteq> Sec c"
  shows "sections s' c = sections s c"
proof (cases e)
  case CompareSave
  then show ?thesis using assms
    by (auto dest!: render_frame simp: on_current_sections split: view.splits if_splits sum.splits)
next
  case (ApplyCoords a b c1 d)
  then show ?thesis using assms
    by (auto dest!: render_frame simp: on_current_sections map_pass_other split: if_splits)
next
  case ResetPoints
  then show ?thesis using assms
    by (auto dest!: render_frame simp: on_current_sections map_pass_other Let_def split: if_splits)
next
  case (EditPoint i d h)
  then show ?thesis using assms
    by (auto dest!: render_frame split: view.splits if_splits sum.splits)
next
  case PrevSection
  then show ?thesis using assms
    by (auto dest!: render_frame split: view.splits option.splits if_splits sum.splits)
next
  case NextSection
  then show ?thesis using assms
    by (auto dest!: render_frame split: view.splits option.splits if_splits sum.splits)
qed (use assms in \<open>auto dest!: render_frame simp: landing_submit_def go_home_def
    split: view.splits if_splits option.splits\<close>)

theorem other_sections_untouched_witness:
  "\<exists>s'. handle None init_state (StartProject ''P'') = Inr s' \<and> current init_state \<noteq> Sec B
     \<and> current s' \<noteq> Sec B \<and> sections s' B = sections init_state B"
proof -
  have "\<exists>s'. handle None init_state (StartProject ''P'') = Inr s' \<and> current s' = Sec A"
    by (simp add: run_eval)
  then obtain s' where h: "handle None init_state (StartProject ''P'') = Inr s'" "current s' = Sec A"
    by blast
  have c: "current init_state \<noteq> Sec B" by (simp add: init_state_def)
  show ?thesis using h c other_sections_untouched [OF h(1) c] by auto
qed

text \<open>C33. Changing the number of design points regenerates the whole design curve:
  evenly spaced distances up to the profile's total length and depths read off the
  profile, discarding any per-point edits.\<close>

theorem set_num_points_regenerates:
  assumes ok: "app_ok s" and pg: "page s = ProjectPage" and cur: "current s = Sec c"
    and vis: "design_visible (sections s c)" and k: "2 \<le> k" "k \<le> 20"
    and new: "length (user_dist (sections s c)) \<noteq> k"
  shows "\<exists>s'. handle ds s (SetNumPoints k) = Inr s'
    \<and> user_dist (sections s' c) = default_dists k (last (bathy_dist (sections s c)))
    \<and> user_depth (sections s' c) = map (\<lambda>d. interp_pts d (zip (bathy_dist (sections s c))
          (bathy_depth (sections s c)))) (default_dists k (last (bathy_dist (sections s c))))"
proof -
  let ?sec = "sections s c"
  let ?s1 = "s\<lparr>num_pts := (num_pts s)(c := k)\<rparr>"
  have two: "length (points ?sec) = 2" using vis by (simp add: design_visible_def)
  have mp: "map_pass ?s1 = ?s1" using map_pass_two [of ?s1 c] cur two by simp
  have bs: "bathy_step ds ?sec = ?sec"
    using vis by (intro bathy_step_keeps_profile) (simp add: design_visible_def)
  have len: "length (bathy_dist ?sec) = length (bathy_depth ?sec)"
    using ok by (simp add: app_ok_def section_ok_def)
  have d: "design_step k ?sec = Inr (?sec\<lparr>user_dist := default_dists k (last (bathy_dist ?sec)),
      user_depth := map (\<lambda>d. interp_pts d (zip (bathy_dist ?sec) (bathy_depth ?sec)))
        (default_dists k (last (bathy_dist ?sec)))\<rparr>)"
    using vis new k len by (intro design_step_regenerate) auto
  have "handle ds s (SetNumPoints k) = render ds ?s1" using pg cur vis k by simp
  also have "\<dots> = Inr (widget_cleanup (?s1\<lparr>sections := (sections ?s1)(c := ?sec\<lparr>user_dist := default_dists k (last (bathy_dist ?sec)),
      user_depth := map (\<lambda>d. interp_pts d (zip (bathy_dist ?sec) (bathy_depth ?sec)))
        (default_dists k (last (bathy_dist ?sec)))\<rparr>)\<rparr>))"
    using pg cur mp bs d app_ok_has_store [OF ok] by (simp add: render_def script_pass_def)
  finally show ?thesis by simp
qed

theorem set_num_points_regenerates_witness:
  "\<exists>s'. handle None (init_state\<lparr>page := ProjectPage, sections := (\<lambda>_. empty_section)(A :=
      \<lparr>points = [\<lparr>lat = 0, lon = 0\<rparr>, \<lparr>lat = 0, lon = 1\<rparr>], bathy_dist = [0, 100], bathy_depth = [-1, -5],
       user_dist = [0, 50, 100], user_depth = [-2, -2, -2], completed = False\<rparr>)\<rparr>) (SetNumPoints 5) = Inr s'
      \<and> user_dist (sections s' A) = default_dists 5 100
      \<and> user_depth (sections s' A) = map (\<lambda>d. interp_pts d (zip [0, 100] [-1, -5])) (default_dists 5 100)"
proof -
  let ?s = "init_state\<lparr>page := ProjectPage, sections := (\<lambda>_. empty_section)(A :=
      \<lparr>points = [\<lparr>lat = 0, lon = 0\<rparr>, \<lparr>lat = 0, lon = 1\<rparr>], bathy_dist = [0, 100 :: real], bathy_depth = [-1, -5],
       user_dist = [0, 50, 100], user_depth = [-2, -2, -2], completed = False\<rparr>)\<rparr>"
  have h: "app_ok ?s" by (simp add: app_ok_def init_state_def section_ok_def empty_section_def)
  have v: "design_visible (sections ?s A)" by (simp add: design_visible_def)
  show ?thesis
    using set_num_points_regenerates [OF h _ _ v, of 5 None] by (simp add: init_state_def)
qed

text \<open>Editing design point \<open>i\<close> (below the chosen number of points) of a section
  showing Step 3 never raises and sets exactly that point.\<close>

theorem edit_point_sets:
  assumes ok: "app_ok s" and pg: "page s = ProjectPage" and cur: "current s = Sec c"
    and vis: "design_visible (sections s c)" and i: "i < num_pts s c"
  shows "\<exists>s'. handle ds s (EditPoint i d h) = Inr s'
    \<and> user_dist (sections s' c) ! i = d \<and> user_depth (sections s' c) ! i = h
    \<and> length (user_dist (sections s' c)) = num_pts s c"
proof -
  obtain s1 where r: "render ds s = Inr s1" and ok1: "app_ok s1" using render_ok [OF ok] by blast
  have l: "length (user_dist (sections s1 c)) = num_pts s c"
    "length (user_depth (sections s1 c)) = num_pts s c"
    using render_visible [OF ok pg cur vis r] by simp_all
  let ?sec = "(sections s1 c)\<lparr>user_dist := (user_dist (sections s1 c))[i := d],
      user_depth := (user_depth (sections s1 c))[i := h]\<rparr>"
  have "handle ds s (EditPoint i d h) = Inr (s1\<lparr>sections := (sections s1)(c := ?sec)\<rparr>)"
    using pg cur vis i r l by (simp add: edit_point_def)
  then show ?thesis using i l by simp
qed

theorem edit_point_sets_witness:
  "\<exists>s'. handle None (init_state\<lparr>page := ProjectPage, sections := (\<lambda>_. empty_section)(A :=
      \<lparr>points = [\<lparr>lat = 0, lon = 0\<rparr>, \<lparr>lat = 0, lon = 1\<rparr>], bathy_dist = [0, 100], bathy_depth = [-1, -5],
       user_dist = [], user_depth = [], completed = False\<rparr>)\<rparr>) (EditPoint 4 100 (-7)) = Inr s'
      \<and> user_dist (sections s' A) ! 4 = 100 \<and> user_depth (sections s' A) ! 4 = -7
      \<and> length (user_dist (sections s' A)) = 5"
proof -
  let ?s = "init_state\<lparr>page := ProjectPage, sections := (\<lambda>_. empty_section)(A :=
      \<lparr>points = [\<lparr>lat = 0, lon = 0\<rparr>, \<lparr>lat = 0, lon = 1\<rparr>], bathy_dist = [0, 100 :: real], bathy_depth = [-1, -5],
       user_dist = [], user_depth = [], completed = False\<rparr>)\<rparr>"
  have h: "app_ok ?s" by (simp add: app_ok_def init_state_def section_ok_def empty_section_def)
  have v: "design_visible (sections ?s A)" by (simp add: design_visible_def)
  have p: "page ?s = ProjectPage" "current ?s = Sec A" "4 < num_pts ?s A" by (simp_all add: init_state_def)
  show ?thesis using edit_point_sets [OF h p(1,2) v p(3), of None 100 "-7"] by (simp add: init_state_def)
qed

end
