(* ===== verification/Session_Flow.thy ===== *)
theory Session_Flow
  imports Session_Props
begin

text \<open>
  Properties of whole interaction sequences of the session of \<open>Session\<close>.
  \<open>click_settled\<close> says that replaying the map click that \<open>st_folium\<close> still reports
  would add no point; it holds in every reachable state, so the map-click handler of
  lines 248--262 (whose \<open>st.rerun()\<close> would pre-empt any button below it) never fires in
  the pass in which another button is pressed, and modelling that pass's click handler as
  an ordinary step is exact.  Also: each section can still be completed from every
  reachable state (liveness), the manual-coordinate form shows the applied coordinates
  (round trip), and the number-of-points input loses its value when its section is left,
  because Streamlit discards the state of a widget that a completed run did not render.
\<close>

definition click_settled :: "app_state \<Rightarrow> bool" where
  "click_settled s \<longleftrightarrow>
     (case (current s, map_click s) of
        (Sec c, Some p) \<Rightarrow> \<not> snd (click_point (lat p) (lon p) (sections s c))
      | _ \<Rightarrow> True)"

lemma run_append:
  "run ds s (xs @ ys) = (case run ds s xs of Inl e \<Rightarrow> Inl e | Inr s' \<Rightarrow> run ds s' ys)"
  by (induction xs arbitrary: s) (simp_all split: sum.splits)

lemma map_pass_id_iff: "map_pass s = s \<longleftrightarrow> click_settled s"
  by (auto simp: map_pass_def click_settled_def dest: arg_cong [where f = coord_version]
      split: view.splits option.splits prod.splits bool.splits)

lemma map_pass_settled: "click_settled (map_pass s)"
  by (auto simp: click_settled_def map_pass_sections click_point_again
      split: view.splits option.splits prod.splits bool.splits)

lemma click_settled_points:
  assumes "click_settled s" and "points sec = points (sections s c)"
  shows "click_settled (s\<lparr>sections := (sections s)(c := sec)\<rparr>)"
  using assms click_point_flag_points [OF assms(2)]
  by (auto simp: click_settled_def split: view.splits option.splits)

lemma click_settled_cleanup [simp]: "click_settled (widget_cleanup s) = click_settled s"
  by (simp add: click_settled_def split: view.splits option.splits)

lemma click_settled_no_click: "map_click s = None \<Longrightarrow> click_settled s"
  by (simp add: click_settled_def split: view.splits)

lemma script_pass_settled:
  assumes "script_pass ds x = Inr y" and "page x = ProjectPage \<or> click_settled x"
  shows "click_settled y"
proof (cases "page x = ProjectPage")
  case True
  show ?thesis
  proof (cases "current x")
    case (Sec c)
    with True assms(1) obtain sec where d: "design_step (num_pts (map_pass x) c)
        (bathy_step ds (sections (map_pass x) c)) = Inr sec"
      and y: "y = (map_pass x)\<lparr>sections := (sections (map_pass x))(c := sec)\<rparr>"
      by (auto simp: script_pass_def Let_def split: sum.splits if_splits)
    have "points sec = points (sections (map_pass x) c)"
      using design_step_frame [OF d] by simp
    with map_pass_settled show ?thesis unfolding y by (rule click_settled_points)
  next
    case AllView
    with True assms(1) show ?thesis
      by (auto simp: script_pass_def click_settled_def split: sum.splits if_splits)
  qed
next
  case False
  with assms show ?thesis by (simp add: script_pass_def)
qed

lemma render_settled:
  "render ds x = Inr y \<Longrightarrow> page x = ProjectPage \<or> click_settled x \<Longrightarrow> click_settled y"
  by (auto simp: render_Inr dest: script_pass_settled)

lemma handle_settled:
  assumes "handle ds s e = Inr s'" and "click_settled s"
  shows "click_settled s'"
proof (cases e)
  case (EditPoint i d h)
  show ?thesis
  proof (cases "s' = s")
    case False
    then obtain c s1 sec where pg: "page s = ProjectPage"
      and r: "render ds s = Inr s1" and e: "edit_point i d h (sections s1 c) = Inr sec"
      and s': "s' = s1\<lparr>sections := (sections s1)(c := sec)\<rparr>"
      using assms(1) EditPoint by (auto split: view.splits if_splits sum.splits)
    have "points sec = points (sections s1 c)" using e by (auto simp: edit_point_def split: if_splits)
    with render_settled [OF r] pg show ?thesis unfolding s' by (blast intro: click_settled_points)
  qed (use assms in simp)
next
  case CompareSave
  show ?thesis
  proof (cases "s' = s")
    case False
    then obtain s1 where pg: "page s = ProjectPage" and r: "render ds s = Inr s1"
      and r2: "render ds (on_current compare_save s1) = Inr s'"
      using assms(1) CompareSave by (auto split: view.splits if_splits sum.splits)
    have "page (on_current compare_save s1) = ProjectPage" using render_frame [OF r] pg by simp
    then show ?thesis using r2 by (blast intro: render_settled)
  qed (use assms in simp)
next
  case PrevSection
  then show ?thesis using assms
    by (auto simp: click_settled_no_click dest!: render_settled split: view.splits option.splits if_splits sum.splits)
next
  case NextSection
  then show ?thesis using assms
    by (auto simp: click_settled_no_click dest!: render_settled split: view.splits option.splits if_splits sum.splits)
next
  case GoHome
  then show ?thesis using assms
    by (auto simp: go_home_def click_settled_no_click dest!: render_settled split: if_splits)
next
  case ResetPoints
  then show ?thesis using assms
    by (auto simp: Let_def dest!: render_settled split: if_splits)
qed (use assms in \<open>auto simp: landing_submit_def dest!: render_settled
       split: if_splits option.splits view.splits\<close>)

text \<open>C6. The map-click handler is settled in every reachable state: replaying the click
  that \<open>st_folium\<close> still reports adds no point, so the \<open>st.rerun()\<close> of line 262 never
  pre-empts another button in the pass in which it is pressed.\<close>

theorem reachable_map_pass_stable: "reachable ds s \<Longrightarrow> map_pass s = s"
proof (induction rule: reachable.induct)
  case start
  show ?case by (simp add: map_pass_no_click init_state_def)
next
  case (step s e s')
  then show ?case by (simp add: map_pass_id_iff handle_settled)
qed

lemma handle_start_project:
  assumes "app_ok s" and "page s = Landing" and "name \<noteq> []"
  shows "\<exists>s'. handle ds s (StartProject name) = Inr s' \<and> app_ok s' \<and> page s' = ProjectPage"
proof -
  let ?s1 = "s\<lparr>project_name := Some name, page := ProjectPage\<rparr>"
  obtain s' where r: "render ds ?s1 = Inr s'" and ok: "app_ok s'"
    using render_ok [of ?s1] assms(1) by auto
  with assms render_frame [OF r] show ?thesis by (simp add: landing_submit_def)
qed

lemma handle_nav:
  assumes "app_ok s" and "page s = ProjectPage"
  shows "\<exists>s'. handle ds s (NavTo t) = Inr s' \<and> app_ok s' \<and> page s' = ProjectPage \<and> current s' = t"
proof -
  let ?s1 = "s\<lparr>current := t, map_click := (if t = current s then map_click s else None)\<rparr>"
  obtain s' where r: "render ds ?s1 = Inr s'" and ok: "app_ok s'"
    using render_ok [of ?s1] assms(1) by auto
  with assms(2) render_frame [OF r] show ?thesis by simp
qed

lemma handle_apply_points:
  assumes ok: "app_ok s" and pg: "page s = ProjectPage" and cur: "current s = Sec c"
  shows "\<exists>s'. handle ds s (ApplyCoords a b a' b') = Inr s' \<and> app_ok s' \<and> page s' = ProjectPage
    \<and> current s' = Sec c \<and> points (sections s' c) = [\<lparr>lat = a, lon = b\<rparr>, \<lparr>lat = a', lon = b'\<rparr>]
    \<and> bathy_dist (sections s' c) = bathy_dist (bathy_step ds (apply_coords a b a' b' (sections (map_pass s) c)))"
proof -
  let ?T = "on_current (apply_coords a b a' b') (map_pass s)"
  let ?sec = "apply_coords a b a' b' (sections (map_pass s) c)"
  have Tc: "sections ?T c = ?sec" using cur by (simp add: on_current_sections)
  have mp: "map_pass ?T = ?T"
    using map_pass_two [of ?T c] cur Tc by (simp add: apply_coords_def)
  obtain s' where h: "handle ds s (ApplyCoords a b a' b') = Inr s'" and ok': "app_ok s'"
    using handle_ok [OF ok] by blast
  then have "render ds ?T = Inr s'" using pg cur by simp
  then obtain sec where d: "design_step (num_pts ?T c) (bathy_step ds ?sec) = Inr sec"
    and s': "s' = widget_cleanup (?T\<lparr>sections := (sections ?T)(c := sec)\<rparr>)"
    using pg cur mp Tc app_ok_has_store [OF ok] by (auto simp: render_def script_pass_def Let_def split: sum.splits)
  show ?thesis using h ok' s' pg cur design_step_frame [OF d] by (simp add: apply_coords_def)
qed

lemma handle_compare_completed:
  assumes ok: "app_ok s" and pg: "page s = ProjectPage" and cur: "current s = Sec c"
    and vis: "design_visible (sections s c)"
  shows "\<exists>s'. handle ds s CompareSave = Inr s' \<and> completed (sections s' c)"
proof -
  obtain s' where h: "handle ds s CompareSave = Inr s'" using handle_compare_ok [OF ok cur pg vis] by blast
  then obtain s1 where r: "render ds s = Inr s1"
    and r2: "render ds (on_current compare_save s1) = Inr s'"
    using pg cur vis by (auto split: sum.splits)
  have "current s1 = Sec c" using render_frame [OF r] cur by simp
  then have "completed (sections (on_current compare_save s1) c)"
    by (simp add: on_current_sections compare_save_def)
  with render_frame [OF r2] h show ?thesis by auto
qed

text \<open>C4. Liveness: with a loaded dataset, from every reachable state of the session that
  owns the section store (a later session raises at Start Project), each section can
  still be completed: start a project if needed, open the section, apply two
  coordinates (the profile is then extracted or kept) and press "Compare and Save".\<close>

theorem section_completable:
  assumes "reachable (Some d) s"
  shows "\<exists>es s'. run (Some d) s es = Inr s' \<and> completed (sections s' c)"
proof -
  have ok: "app_ok s" using assms by (rule reachable_app_ok)
  obtain es0 s0 where r0: "run (Some d) s es0 = Inr s0" and ok0: "app_ok s0"
    and pg0: "page s0 = ProjectPage"
  proof (cases "page s")
    case Landing
    with handle_start_project [OF ok _, of "''P''" "Some d"] obtain s0 where
      "handle (Some d) s (StartProject ''P'') = Inr s0" "app_ok s0" "page s0 = ProjectPage" by auto
    then show ?thesis using that [of "[StartProject ''P'']" s0] by simp
  next
    case ProjectPage
    then show ?thesis using that [of "[]" s] ok by simp
  qed
  obtain s1 where h1: "handle (Some d) s0 (NavTo (Sec c)) = Inr s1" and ok1: "app_ok s1"
    and pg1: "page s1 = ProjectPage" and c1: "current s1 = Sec c"
    using handle_nav [OF ok0 pg0] by blast
  obtain s2 where h2: "handle (Some d) s1 (ApplyCoords 0 0 0 1) = Inr s2" and ok2: "app_ok s2"
    and pg2: "page s2 = ProjectPage" and c2: "current s2 = Sec c"
    and p2: "points (sections s2 c) = [\<lparr>lat = 0, lon = 0\<rparr>, \<lparr>lat = 0, lon = 1\<rparr>]"
    and b2: "bathy_dist (sections s2 c) = bathy_dist (bathy_step (Some d) (apply_coords 0 0 0 1 (sections (map_pass s1) c)))"
    using handle_apply_points [OF ok1 pg1 c1] by blast
  have "bathy_dist (sections s2 c) \<noteq> []"
    unfolding b2 by (rule bathy_step_profile) (simp add: apply_coords_def)
  with p2 have vis: "design_visible (sections s2 c)" by (simp add: design_visible_def)
  obtain s3 where h3: "handle (Some d) s2 CompareSave = Inr s3" and c3: "completed (sections s3 c)"
    using handle_compare_completed [OF ok2 pg2 c2 vis] by blast
  have "run (Some d) s (es0 @ [NavTo (Sec c), ApplyCoords 0 0 0 1, CompareSave]) = Inr s3"
    using r0 h1 h2 h3 by (simp add: run_append)
  with c3 show ?thesis by blast
qed

theorem section_completable_witness:
  "reachable (Some []) init_state
   \<and> (\<exists>es s'. run (Some []) init_state es = Inr s' \<and> completed (sections s' B))"
  using section_completable [OF reachable.start, of "[]" B] reachable.start by blast

text \<open>Round trip: after "Apply Coordinates" the manual-coordinate form of the
  section shows exactly the coordinates that were applied.\<close>

theorem apply_coords_form_roundtrip:
  assumes "app_ok s" and "page s = ProjectPage" and "current s = Sec c"
  shows "\<exists>s'. handle ds s (ApplyCoords a b a' b') = Inr s' \<and> manual_defaults (sections s' c) = (a, b, a', b')"
proof -
  obtain s' where h: "handle ds s (ApplyCoords a b a' b') = Inr s'"
    and p: "points (sections s' c) = [\<lparr>lat = a, lon = b\<rparr>, \<lparr>lat = a', lon = b'\<rparr>]"
    using handle_apply_points [OF assms, of ds a b a' b'] by blast
  have "manual_defaults (sections s' c) = (a, b, a', b')" by (simp add: manual_defaults_def p)
  with h show ?thesis by blast
qed

theorem apply_coords_form_roundtrip_witness:
  "app_ok (init_state\<lparr>page := ProjectPage\<rparr>) \<and> page (init_state\<lparr>page := ProjectPage\<rparr>) = ProjectPage
   \<and> current (init_state\<lparr>page := ProjectPage\<rparr>) = Sec A
   \<and> (\<exists>s'. handle None (init_state\<lparr>page := ProjectPage\<rparr>) (ApplyCoords 41 29 42 30) = Inr s'
        \<and> manual_defaults (sections s' A) = (41, 29, 42, 30))"
proof -
  have h: "app_ok (init_state\<lparr>page := ProjectPage\<rparr>)" "page (init_state\<lparr>page := ProjectPage\<rparr>) = ProjectPage"
    "current (init_state\<lparr>page := ProjectPage\<rparr>) = Sec A"
    by (simp_all add: app_ok_def init_state_def)
  show ?thesis using apply_coords_form_roundtrip [OF h, of None 41 29 42 30] h by blast
qed

theorem reachable_map_pass_stable_witness:
  "\<exists>S. reachable None S \<and> map_click S = Some \<lparr>lat = 41, lon = 29\<rparr> \<and> map_pass S = S"
proof -
  have "\<exists>S. run None init_state [StartProject ''P'', MapClick 41 29] = Inr S
      \<and> map_click S = Some \<lparr>lat = 41, lon = 29\<rparr>"
    by (simp add: run_eval)
  then obtain S where r: "run None init_state [StartProject ''P'', MapClick 41 29] = Inr S"
    and m: "map_click S = Some \<lparr>lat = 41, lon = 29\<rparr>" by blast
  have "reachable None S" using run_reachable [OF reachable.start r] .
  with m reachable_map_pass_stable [of None S] show ?thesis by blast
qed

text \<open>C13. The number-of-points input is a keyed widget that Streamlit discards when a
  completed run does not render it: after leaving a section and coming back, the input
  shows its default 5 again and Step 3 regenerates the design curve with 5 points, even
  for a section already saved as completed with another number of points.\<close>

theorem revisit_resets_design_points:
  assumes ok: "app_ok s" and pg: "page s = ProjectPage" and cur: "current s = Sec c" and ne: "c' \<noteq> c"
  shows "\<exists>s1 s2. handle ds s (NavTo (Sec c')) = Inr s1 \<and> handle ds s1 (NavTo (Sec c)) = Inr s2
     \<and> num_pts s2 c = 5
     \<and> (design_visible (sections s c) \<longrightarrow>
          length (user_dist (sections s2 c)) = 5 \<and> completed (sections s2 c) = completed (sections s c))"
proof -
  obtain s1 where h1: "handle ds s (NavTo (Sec c')) = Inr s1" and ok1: "app_ok s1"
    using handle_ok [OF ok] by blast
  have r1: "render ds (s\<lparr>current := Sec c', map_click := None\<rparr>) = Inr s1"
    using h1 pg cur ne by simp
  note f1 = render_frame [OF r1]
  have s1c: "sections s1 c = sections s c" and p1: "page s1 = ProjectPage" and n1: "num_pts s1 c = 5"
    using f1 pg ne by auto
  let ?x = "s1\<lparr>current := Sec c, map_click := None\<rparr>"
  obtain s2 where h2: "handle ds s1 (NavTo (Sec c)) = Inr s2"
    using handle_ok [OF ok1] by blast
  have r2: "render ds ?x = Inr s2" using h2 p1 f1 ne by simp
  note f2 = render_frame [OF r2]
  have n2: "num_pts s2 c = 5" using f2 n1 by simp
  have vis: "length (user_dist (sections s2 c)) = 5 \<and> completed (sections s2 c) = completed (sections s c)"
    if v: "design_visible (sections s c)"
  proof -
    have okx: "app_ok ?x" using ok1 by simp
    have "design_visible (sections s2 c) \<and> length (user_dist (sections s2 c)) = num_pts ?x c"
      using render_visible [OF okx _ _ _ r2] p1 v s1c by simp
    then show ?thesis using n1 f2 s1c by simp
  qed
  show ?thesis using h1 h2 n2 vis by blast
qed

theorem revisit_resets_design_points_witness:
  "\<exists>S. run (Some []) init_state [StartProject ''P'', ApplyCoords 0 0 0 0, SetNumPoints 7, CompareSave] = Inr S
     \<and> app_ok S \<and> page S = ProjectPage \<and> current S = Sec A \<and> B \<noteq> A
     \<and> completed (sections S A) \<and> length (user_dist (sections S A)) = 7 \<and> design_visible (sections S A)
     \<and> (\<exists>s1 s2. handle (Some []) S (NavTo (Sec B)) = Inr s1 \<and> handle (Some []) s1 (NavTo (Sec A)) = Inr s2
          \<and> num_pts s2 A = 5 \<and> length (user_dist (sections s2 A)) = 5 \<and> completed (sections s2 A))"
proof -
  have "\<exists>S. run (Some []) init_state [StartProject ''P'', ApplyCoords 0 0 0 0, SetNumPoints 7, CompareSave] = Inr S
      \<and> page S = ProjectPage \<and> current S = Sec A \<and> completed (sections S A)
      \<and> length (user_dist (sections S A)) = 7 \<and> design_visible (sections S A)"
    by (simp add: run_eval)
  then obtain S where r: "run (Some []) init_state [StartProject ''P'', ApplyCoords 0 0 0 0, SetNumPoints 7, CompareSave] = Inr S"
    and pg: "page S = ProjectPage" and c: "current S = Sec A" and cp: "completed (sections S A)"
    and l: "length (user_dist (sections S A)) = 7" and v: "design_visible (sections S A)" by blast
  have ok: "app_ok S" using reachable_app_ok [OF run_reachable [OF reachable.start r]] .
  have ne: "B \<noteq> A" by simp
  show ?thesis using revisit_resets_design_points [OF ok pg c ne, of "Some []"] r ok pg c ne cp l v by auto
qed

end
