(* ===== verification/Session_Form.thy ===== *)
theory Session_Form
  imports Session_Flow
begin

text \<open>
  The manual-coordinate form of a section (\<open>src/profile_module.py\<close>, lines 264--282):
  four keyed \<open>st.number_input\<close>s whose keys \<open>lat1_{current}_{v}\<close>, ... contain
  \<open>coord_version\<close>.  Their widget state is \<open>coord_inputs\<close> of \<open>Session\<close>, set by the
  event \<open>TypeCoord\<close> and cleaned by \<open>widget_cleanup\<close>; \<open>form_value\<close> is what an input
  shows: its widget state, or its \<open>value=\<close> default from \<open>manual_defaults\<close>.  Because the
  code bumps \<open>coord_version\<close> whenever it changes the points itself (a new map point,
  Reset Points), the form then shows the section's points instead of what was typed;
  the keying does not depend on how the Streamlit version treats a changed \<open>value=\<close>.
  \<open>inputs_at m v\<close> says that every typed entry of \<open>m\<close> belongs to version \<open>v\<close>.
\<close>

definition inputs_at :: "(sec_id \<times> nat \<times> coord_field \<rightharpoonup> real) \<Rightarrow> nat \<Rightarrow> bool" where
  "inputs_at m v \<longleftrightarrow> (\<forall>k\<in>dom m. fst (snd k) = v)"

definition apply_click :: "app_state \<Rightarrow> sec_id \<Rightarrow> event" where
  "apply_click s c = (case form_values s c of (a, b, a', b') \<Rightarrow> ApplyCoords a b a' b')"

lemma coord_inputs_map_pass [simp]: "coord_inputs (map_pass s) = coord_inputs s"
  by (simp add: map_pass_def split: view.splits option.splits prod.splits bool.splits)

lemma coord_inputs_on_current [simp]: "coord_inputs (on_current f s) = coord_inputs s"
  by (simp add: on_current_def split: view.splits)

lemma script_pass_inputs: "script_pass ds x = Inr y \<Longrightarrow> coord_inputs y = coord_inputs x"
  by (auto simp: script_pass_def Let_def split: if_splits view.splits sum.splits)

lemma inputs_at_restrict: "inputs_at m v \<Longrightarrow> inputs_at (m |` S) v"
  by (auto simp: inputs_at_def restrict_map_def split: if_splits)

lemma inputs_at_empty [simp]: "inputs_at Map.empty v"
  by (simp add: inputs_at_def)

lemma inputs_at_upd: "inputs_at m v \<Longrightarrow> inputs_at (m((c, v, f) \<mapsto> x)) v"
  by (simp add: inputs_at_def)

lemma inputs_at_cleanup: "inputs_at (coord_inputs (widget_cleanup s)) (coord_version s)"
  by (auto simp: inputs_at_def widget_cleanup_def restrict_map_def split: view.splits if_splits)

lemma inputs_at_mono: "dom m' \<subseteq> dom m \<Longrightarrow> inputs_at m v \<Longrightarrow> inputs_at m' v"
  by (auto simp: inputs_at_def)

lemma render_inputs:
  assumes "render ds x = Inr y"
  shows "dom (coord_inputs y) \<subseteq> dom (coord_inputs x) \<and> inputs_at (coord_inputs y) (coord_version y)"
proof -
  obtain y1 where p: "script_pass ds x = Inr y1" and y: "y = widget_cleanup y1"
    using assms by (auto simp: render_Inr)
  have "dom (coord_inputs y) \<subseteq> dom (coord_inputs y1)"
    unfolding y by (auto simp: widget_cleanup_def restrict_map_def split: view.splits if_splits)
  then have "dom (coord_inputs y) \<subseteq> dom (coord_inputs x)" using script_pass_inputs [OF p] by simp
  moreover have "inputs_at (coord_inputs y) (coord_version y)"
    unfolding y using inputs_at_cleanup [of y1] by simp
  ultimately show ?thesis ..
qed

lemma handle_inputs:
  assumes "handle ds s e = Inr s'"
  shows "dom (coord_inputs s') \<subseteq> dom (coord_inputs s) \<union> {(c, coord_version s, f) | c f. True}
     \<and> (s' = s \<or> inputs_at (coord_inputs s') (coord_version s'))"
proof (cases e)
  case (TypeCoord f v)
  then show ?thesis using assms
    by (auto dest!: render_inputs split: view.splits if_splits)
next
  case (EditPoint i d h)
  then show ?thesis using assms
    by (auto dest!: render_inputs split: view.splits if_splits sum.splits) (auto simp: subset_iff)
qed (use assms in \<open>auto simp: Let_def landing_submit_def go_home_def dest!: render_inputs
       split: view.splits if_splits option.splits sum.splits\<close>, (metis domI domIff subsetD)+)


lemma handle_inputs_at:
  assumes "handle ds s e = Inr s'" and "inputs_at (coord_inputs s) (coord_version s)"
  shows "inputs_at (coord_inputs s') (coord_version s) \<and> inputs_at (coord_inputs s') (coord_version s')"
proof -
  note h = handle_inputs [OF assms(1)]
  have "inputs_at (coord_inputs s') (coord_version s)"
    unfolding inputs_at_def
  proof
    fix k assume "k \<in> dom (coord_inputs s')"
    with h have "k \<in> dom (coord_inputs s) \<or> fst (snd k) = coord_version s" by auto
    then show "fst (snd k) = coord_version s" using assms(2) by (auto simp: inputs_at_def)
  qed
  moreover have "inputs_at (coord_inputs s') (coord_version s')"
    using h assms(2) by auto
  ultimately show ?thesis ..
qed

lemma reachable_inputs_at: "reachable ds s \<Longrightarrow> inputs_at (coord_inputs s) (coord_version s)"
proof (induction rule: reachable.induct)
  case start
  show ?case by (simp add: init_state_def)
next
  case (step s e s')
  then show ?case using handle_inputs_at by blast
qed

lemma reachable_click_settled: "reachable ds s \<Longrightarrow> click_settled s"
proof (induction rule: reachable.induct)
  case start
  show ?case by (simp add: click_settled_no_click init_state_def)
next
  case (step s e s')
  then show ?case using handle_settled by blast
qed

lemma coord_default_eta [simp]:
  "(coord_default Lat1 t, coord_default Lon1 t, coord_default Lat2 t, coord_default Lon2 t) = t"
  by (cases t) auto

lemma render_form:
  assumes "render ds x = Inr y" and "click_settled x" and "page x = ProjectPage" and "current x = Sec c"
  shows "coord_version y = coord_version x \<and> page y = ProjectPage \<and> current y = Sec c \<and> click_settled y
    \<and> points (sections y c) = points (sections x c)
    \<and> (\<forall>g. coord_inputs y (c, coord_version x, g) = coord_inputs x (c, coord_version x, g))"
proof -
  have mp: "map_pass x = x" using assms(2) map_pass_id_iff by blast
  obtain y1 where p: "script_pass ds x = Inr y1" and y: "y = widget_cleanup y1"
    using assms(1) by (auto simp: render_Inr)
  obtain sec where d: "design_step (num_pts x c) (bathy_step ds (sections x c)) = Inr sec"
    and y1: "y1 = x\<lparr>sections := (sections x)(c := sec)\<rparr>"
    using p assms(3,4) mp by (auto simp: script_pass_def Let_def split: sum.splits if_splits)
  have "points sec = points (sections x c)" using design_step_frame [OF d] by simp
  moreover have "click_settled y" using render_settled [OF assms(1)] assms(3) by blast
  ultimately show ?thesis
    using assms(3,4) unfolding y y1 by (simp add: widget_cleanup_def restrict_map_def)
qed


lemma click_settled_inputs [simp]: "click_settled (s\<lparr>coord_inputs := m\<rparr>) = click_settled s"
  by (simp add: click_settled_def split: view.splits option.splits)

lemma type_step:
  assumes "reachable ds s" and "page s = ProjectPage" and "current s = Sec c"
  shows "\<exists>s'. handle ds s (TypeCoord f v) = Inr s' \<and> reachable ds s' \<and> page s' = ProjectPage
    \<and> current s' = Sec c \<and> coord_version s' = coord_version s \<and> points (sections s' c) = points (sections s c)
    \<and> (\<forall>g. coord_inputs s' (c, coord_version s, g) = (if g = f then Some v else coord_inputs s (c, coord_version s, g)))"
proof -
  obtain s' where h: "handle ds s (TypeCoord f v) = Inr s'"
    using handle_ok [OF reachable_app_ok [OF assms(1)]] by blast
  then have r: "render ds (s\<lparr>coord_inputs := (coord_inputs s)((c, coord_version s, f) \<mapsto> v)\<rparr>) = Inr s'"
    using assms(2,3) by simp
  have "click_settled s" using reachable_click_settled [OF assms(1)] .
  then show ?thesis
    using render_form [OF r] assms h reachable.step [OF assms(1) h] by auto
qed

lemma apply_step:
  assumes "reachable ds s" and "page s = ProjectPage" and "current s = Sec c"
  shows "\<exists>s'. handle ds s (ApplyCoords a b a' b') = Inr s' \<and> coord_version s' = coord_version s
    \<and> points (sections s' c) = [\<lparr>lat = a, lon = b\<rparr>, \<lparr>lat = a', lon = b'\<rparr>]
    \<and> (\<forall>g. coord_inputs s' (c, coord_version s, g) = coord_inputs s (c, coord_version s, g))"
proof -
  have mp: "map_pass s = s" using reachable_click_settled [OF assms(1)] map_pass_id_iff by blast
  let ?x = "on_current (apply_coords a b a' b') s"
  have xc: "points (sections ?x c) = [\<lparr>lat = a, lon = b\<rparr>, \<lparr>lat = a', lon = b'\<rparr>]"
    using assms(3) by (simp add: on_current_sections apply_coords_def)
  have sx: "click_settled ?x"
    using map_pass_two [of ?x c] xc assms(3) map_pass_id_iff by simp
  obtain s' where h: "handle ds s (ApplyCoords a b a' b') = Inr s'"
    using handle_ok [OF reachable_app_ok [OF assms(1)]] by blast
  then have r: "render ds ?x = Inr s'" using assms(2,3) mp by simp
  show ?thesis using render_form [OF r sx] assms(2,3) xc h by simp
qed

lemma form_value_at:
  "coord_inputs s (c, coord_version s, g) = Some v \<Longrightarrow> form_value s c g = v"
  by (simp add: form_value_def)

lemma form_value_default:
  "coord_inputs s (c, coord_version s, g) = None \<Longrightarrow> form_value s c g = coord_default g (manual_defaults (sections s c))"
  by (simp add: form_value_def)

subsection \<open>Properties\<close>

text \<open>C37. In every reachable state, an interaction that changes \<open>coord_version\<close> (a new map
  point, Reset Points) leaves the manual form showing the section's stored points, the
  fixed defaults where a point is missing: whatever was typed before is discarded.\<close>

theorem version_bump_shows_points:
  assumes "reachable ds s" and "handle ds s e = Inr s'" and "coord_version s' \<noteq> coord_version s"
  shows "form_values s' c = manual_defaults (sections s' c)"
proof -
  note at = handle_inputs_at [OF assms(2) reachable_inputs_at [OF assms(1)]]
  have "coord_inputs s' (c, coord_version s', g) = None" for g
    using at assms(3) unfolding inputs_at_def by (metis domIff fst_conv snd_conv)
  then show ?thesis by (simp add: form_values_def form_value_default)
qed

text \<open>C31. Round trip through the manual form: after typing four coordinates into the form
  of the current section, the form shows them; clicking "Apply Coordinates", which reads
  the four inputs, makes them the section's points, and the form still shows them.\<close>

theorem typed_apply_roundtrip:
  assumes "reachable ds s" and "page s = ProjectPage" and "current s = Sec c"
  shows "\<exists>s1 s'. run ds s [TypeCoord Lat1 a, TypeCoord Lon1 b, TypeCoord Lat2 a', TypeCoord Lon2 b'] = Inr s1
     \<and> form_values s1 c = (a, b, a', b')
     \<and> handle ds s1 (apply_click s1 c) = Inr s'
     \<and> points (sections s' c) = [\<lparr>lat = a, lon = b\<rparr>, \<lparr>lat = a', lon = b'\<rparr>]
     \<and> form_values s' c = (a, b, a', b')"
proof -
  let ?v = "coord_version s"
  obtain s1 where h1: "handle ds s (TypeCoord Lat1 a) = Inr s1" and r1: "reachable ds s1"
    and p1: "page s1 = ProjectPage" "current s1 = Sec c" "coord_version s1 = ?v"
    and i1: "coord_inputs s1 (c, ?v, Lat1) = Some a"
    using type_step [OF assms, of Lat1 a] by auto
  obtain s2 where h2: "handle ds s1 (TypeCoord Lon1 b) = Inr s2" and r2: "reachable ds s2"
    and p2: "page s2 = ProjectPage" "current s2 = Sec c" "coord_version s2 = ?v"
    and i2: "coord_inputs s2 (c, ?v, Lat1) = Some a" "coord_inputs s2 (c, ?v, Lon1) = Some b"
    using type_step [OF r1 p1(1,2), of Lon1 b] p1(3) i1 by auto
  obtain s3 where h3: "handle ds s2 (TypeCoord Lat2 a') = Inr s3" and r3: "reachable ds s3"
    and p3: "page s3 = ProjectPage" "current s3 = Sec c" "coord_version s3 = ?v"
    and i3: "coord_inputs s3 (c, ?v, Lat1) = Some a" "coord_inputs s3 (c, ?v, Lon1) = Some b"
      "coord_inputs s3 (c, ?v, Lat2) = Some a'"
    using type_step [OF r2 p2(1,2), of Lat2 a'] p2(3) i2 by auto
  obtain s4 where h4: "handle ds s3 (TypeCoord Lon2 b') = Inr s4" and r4: "reachable ds s4"
    and p4: "page s4 = ProjectPage" "current s4 = Sec c" "coord_version s4 = ?v"
    and i4: "coord_inputs s4 (c, ?v, Lat1) = Some a" "coord_inputs s4 (c, ?v, Lon1) = Some b"
      "coord_inputs s4 (c, ?v, Lat2) = Some a'" "coord_inputs s4 (c, ?v, Lon2) = Some b'"
    using type_step [OF r3 p3(1,2), of Lon2 b'] p3(3) i3 by auto
  have run: "run ds s [TypeCoord Lat1 a, TypeCoord Lon1 b, TypeCoord Lat2 a', TypeCoord Lon2 b'] = Inr s4"
    using h1 h2 h3 h4 by simp
  have f4: "form_values s4 c = (a, b, a', b')"
    using i4 p4(3) by (simp add: form_values_def form_value_at)
  obtain s' where h5: "handle ds s4 (ApplyCoords a b a' b') = Inr s'" and v': "coord_version s' = ?v"
    and pts: "points (sections s' c) = [\<lparr>lat = a, lon = b\<rparr>, \<lparr>lat = a', lon = b'\<rparr>]"
    and i5: "\<forall>g. coord_inputs s' (c, ?v, g) = coord_inputs s4 (c, ?v, g)"
    using apply_step [OF r4 p4(1,2), of a b a' b'] p4(3) by auto
  have "form_values s' c = (a, b, a', b')"
    using i4 i5 v' by (simp add: form_values_def form_value_at)
  moreover have "handle ds s4 (apply_click s4 c) = Inr s'" using h5 f4 by (simp add: apply_click_def)
  ultimately show ?thesis using run f4 pts by blast
qed


theorem version_bump_shows_points_witness:
  "\<exists>S S'. reachable None S \<and> form_value S A Lat1 = 10 \<and> handle None S ResetPoints = Inr S'
      \<and> coord_version S' \<noteq> coord_version S \<and> form_values S' A = manual_defaults (sections S' A)
      \<and> form_value S' A Lat1 = 41.175354"
proof -
  have "\<exists>S S'. run None init_state [StartProject ''P'', TypeCoord Lat1 10] = Inr S
      \<and> coord_inputs S (A, coord_version S, Lat1) = Some 10
      \<and> handle None S ResetPoints = Inr S' \<and> coord_version S' \<noteq> coord_version S
      \<and> points (sections S' A) = []"
    by (simp add: run_eval)
  then obtain S S' where r: "run None init_state [StartProject ''P'', TypeCoord Lat1 10] = Inr S"
    and i: "coord_inputs S (A, coord_version S, Lat1) = Some 10"
    and h: "handle None S ResetPoints = Inr S'"
    and v: "coord_version S' \<noteq> coord_version S" and p: "points (sections S' A) = []" by blast
  have re: "reachable None S" using run_reachable [OF reachable.start r] .
  have f: "form_values S' A = manual_defaults (sections S' A)"
    using version_bump_shows_points [OF re h v] .
  then have l: "form_value S' A Lat1 = 41.175354"
    using p by (simp add: form_values_def manual_defaults_def)
  have t: "form_value S A Lat1 = 10" using i by (rule form_value_at)
  from re t h v f l show ?thesis by blast
qed

theorem typed_apply_roundtrip_witness:
  "\<exists>S. reachable None S \<and> page S = ProjectPage \<and> current S = Sec A \<and>
     (\<exists>s1 s'. run None S [TypeCoord Lat1 41, TypeCoord Lon1 29, TypeCoord Lat2 42, TypeCoord Lon2 30] = Inr s1
       \<and> form_values s1 A = (41, 29, 42, 30) \<and> handle None s1 (apply_click s1 A) = Inr s'
       \<and> points (sections s' A) = [\<lparr>lat = 41, lon = 29\<rparr>, \<lparr>lat = 42, lon = 30\<rparr>]
       \<and> form_values s' A = (41, 29, 42, 30))"
proof -
  have "\<exists>S. run None init_state [StartProject ''P''] = Inr S \<and> page S = ProjectPage \<and> current S = Sec A"
    by (simp add: run_eval)
  then obtain S where r: "run None init_state [StartProject ''P''] = Inr S"
    and p: "page S = ProjectPage" and c: "current S = Sec A" by blast
  have re: "reachable None S" using run_reachable [OF reachable.start r] .
  show ?thesis using typed_apply_roundtrip [OF re p c, of 41 29 42 30] re p c by blast
qed


end
