(* ===== verification/Session_Types.thy ===== *)
theory Session_Types
  imports Session_Props
begin

text \<open>
  The Section type of the spec as an invariant of the session: \<open>app_typed\<close> says that
  every section is \<open>section_typed\<close> (at most two points, a 50-sample bathymetry curve or
  none, a design curve of 2 to 20 points or none, paired lengths) and that every
  number-of-points value lies in the widget's range 2..20.  Every pass component and
  every interaction preserves it, so it holds in every reachable state.
\<close>

definition app_typed :: "app_state \<Rightarrow> bool" where
  "app_typed s \<longleftrightarrow> (\<forall>c. section_typed (sections s c) \<and> 2 \<le> num_pts s c \<and> num_pts s c \<le> 20)"

lemma app_typed_init: "app_typed init_state"
  by (simp add: app_typed_def init_state_def)

lemma app_typed_fields [simp]:
  "app_typed (s\<lparr>page := x\<rparr>) = app_typed s" "app_typed (s\<lparr>project_name := n\<rparr>) = app_typed s"
  "app_typed (s\<lparr>current := v\<rparr>) = app_typed s" "app_typed (s\<lparr>map_click := m\<rparr>) = app_typed s"
  "app_typed (s\<lparr>coord_version := k\<rparr>) = app_typed s"
  "app_typed (s\<lparr>param_state := ps\<rparr>) = app_typed s" "app_typed (s\<lparr>toggle_state := ts\<rparr>) = app_typed s"
  "app_typed (s\<lparr>coord_inputs := ci\<rparr>) = app_typed s"
  by (simp_all add: app_typed_def)

lemma app_typed_sections:
  "app_typed s \<Longrightarrow> section_typed sec \<Longrightarrow> app_typed (s\<lparr>sections := (sections s)(c := sec)\<rparr>)"
  by (simp add: app_typed_def)

lemma app_typed_cleanup: "app_typed s \<Longrightarrow> app_typed (widget_cleanup s)"
  by (simp add: app_typed_def widget_cleanup_def)

lemma map_pass_typed: "app_typed s \<Longrightarrow> app_typed (map_pass s)"
  by (auto simp: app_typed_def map_pass_sections section_typed_click split: view.splits option.splits)

lemma on_current_typed:
  "app_typed s \<Longrightarrow> (\<And>sec. section_typed sec \<Longrightarrow> section_typed (f sec)) \<Longrightarrow> app_typed (on_current f s)"
  by (auto simp: app_typed_def on_current_def split: view.splits)

lemma script_pass_typed:
  assumes "app_typed x" and "script_pass ds x = Inr y"
  shows "app_typed y"
proof (cases "page x = ProjectPage \<and> current x \<noteq> AllView")
  case True
  then obtain c where cur: "current x = Sec c" by (cases "current x") auto
  let ?s1 = "map_pass x"
  have t1: "app_typed ?s1" using assms(1) by (rule map_pass_typed)
  obtain sec where d: "design_step (num_pts ?s1 c) (bathy_step ds (sections ?s1 c)) = Inr sec"
    and y: "y = ?s1\<lparr>sections := (sections ?s1)(c := sec)\<rparr>"
    using True cur assms(2) by (auto simp: script_pass_def Let_def split: sum.splits if_splits)
  have "section_typed (bathy_step ds (sections ?s1 c))"
    using t1 by (simp add: app_typed_def section_typed_bathy)
  moreover have "2 \<le> num_pts ?s1 c" "num_pts ?s1 c \<le> 20" using t1 by (simp_all add: app_typed_def)
  ultimately have "section_typed sec" using d by (blast intro: section_typed_design)
  with t1 show ?thesis unfolding y by (rule app_typed_sections)
next
  case False
  with assms show ?thesis by (auto simp: script_pass_def split: view.splits sum.splits if_splits)
qed

lemma render_typed: "app_typed x \<Longrightarrow> render ds x = Inr y \<Longrightarrow> app_typed y"
  by (auto simp: render_Inr intro: app_typed_cleanup dest: script_pass_typed)

lemma handle_typed:
  assumes "handle ds s e = Inr s'" and "app_typed s"
  shows "app_typed s'"
proof (cases e)
  case (EditPoint i d h)
  show ?thesis
  proof (cases "s' = s")
    case False
    then obtain c s1 sec where r: "render ds s = Inr s1" and e: "edit_point i d h (sections s1 c) = Inr sec"
      and s': "s' = s1\<lparr>sections := (sections s1)(c := sec)\<rparr>"
      using assms(1) EditPoint by (auto split: view.splits if_splits sum.splits)
    have t1: "app_typed s1" using render_typed [OF assms(2) r] .
    then have "section_typed sec" using e by (auto simp: app_typed_def intro: section_typed_edit)
    with t1 show ?thesis unfolding s' by (rule app_typed_sections)
  qed (use assms in simp)
next
  case CompareSave
  show ?thesis
  proof (cases "s' = s")
    case False
    then obtain s1 where r: "render ds s = Inr s1"
      and r2: "render ds (on_current compare_save s1) = Inr s'"
      using assms(1) CompareSave by (auto split: view.splits if_splits sum.splits)
    have "app_typed (on_current compare_save s1)"
      using render_typed [OF assms(2) r] by (rule on_current_typed) simp
    then show ?thesis using r2 by (rule render_typed)
  qed (use assms in simp)
next
  case (SetNumPoints k)
  then show ?thesis using assms
    by (auto simp: app_typed_def dest!: render_typed [rotated] split: view.splits if_splits)
next
  case PrevSection
  then show ?thesis using assms
    by (auto dest!: render_typed [rotated] split: view.splits option.splits if_splits sum.splits)
next
  case NextSection
  then show ?thesis using assms
    by (auto dest!: render_typed [rotated] split: view.splits option.splits if_splits sum.splits)
next
  case (ApplyCoords a b c d)
  then show ?thesis using assms
    by (auto intro: on_current_typed map_pass_typed section_typed_apply dest!: render_typed [rotated]
        split: if_splits)
next
  case ResetPoints
  have "app_typed (on_current reset_points (map_pass s))"
    using assms(2) by (intro on_current_typed map_pass_typed section_typed_reset)
  then show ?thesis using ResetPoints assms
    by (auto simp: Let_def dest!: render_typed [rotated] split: if_splits)
qed (use assms in \<open>auto simp: landing_submit_def go_home_def dest!: render_typed [rotated]
       split: if_splits option.splits view.splits\<close>)

text \<open>C14. Type invariant: in every reachable state each section has the shape of the
  spec's Section type: at most two points, a bathymetry curve of exactly the 50
  extracted samples or none, and a design curve of 2 to 20 points or none, with as many
  depths as distances in each curve.\<close>

theorem reachable_sections_typed: "reachable ds s \<Longrightarrow> section_typed (sections s c)"
proof -
  assume "reachable ds s"
  then have "app_typed s"
  proof (induction rule: reachable.induct)
    case start
    show ?case by (rule app_typed_init)
  next
    case (step s e s')
    then show ?case by (blast intro: handle_typed)
  qed
  then show ?thesis by (simp add: app_typed_def)
qed

theorem reachable_sections_typed_witness:
  "\<exists>S. reachable (Some []) S \<and> length (bathy_dist (sections S A)) = 50
     \<and> section_typed (sections S A)"
proof -
  have "\<exists>S. run (Some []) init_state [StartProject ''P'', ApplyCoords 0 0 0 0] = Inr S
      \<and> length (bathy_dist (sections S A)) = 50"
    by (simp add: run_eval)
  then obtain S where r: "run (Some []) init_state [StartProject ''P'', ApplyCoords 0 0 0 0] = Inr S"
    and l: "length (bathy_dist (sections S A)) = 50" by blast
  have "reachable (Some []) S" using run_reachable [OF reachable.start r] .
  with l reachable_sections_typed [of "Some []" S A] show ?thesis by blast
qed

end
