(* ===== verification/Session_Widgets.thy ===== *)
theory Session_Widgets
  imports Session_Props
begin

text \<open>
  The design-parameter widgets of the project page (\<open>Project_Page\<close>) inside the
  session: \<open>param_state\<close> and \<open>toggle_state\<close> of \<open>app_state\<close> hold their widget state,
  \<open>SetParam\<close> and \<open>SetToggle\<close> are their events, and \<open>widget_cleanup\<close> deletes the state
  of the inputs a completed run did not render (all of them on the landing page, the
  groin or sill inputs while their toggle is off).  \<open>params_clean\<close> (only rendered
  inputs have state) holds in every reachable state; from it, no interaction with the
  cross-section tool changes a parameter, while "Home" resets them all.
\<close>

definition params_clean :: "app_state \<Rightarrow> bool" where
  "params_clean s \<longleftrightarrow> dom (param_state s) \<subseteq> {p. param_shown (toggle_state s) p}"

fun profile_event :: "event \<Rightarrow> bool" where
  "profile_event (StartProject _) = False"
| "profile_event GoHome = False"
| "profile_event (SetParam _ _) = False"
| "profile_event (SetToggle _ _) = False"
| "profile_event _ = True"

lemma map_pass_params [simp]:
  "param_state (map_pass s) = param_state s" "toggle_state (map_pass s) = toggle_state s"
  by (auto simp: map_pass_def split: view.splits option.splits prod.splits bool.splits)

lemma on_current_params [simp]:
  "param_state (on_current f s) = param_state s" "toggle_state (on_current f s) = toggle_state s"
  by (auto simp: on_current_def split: view.splits)

lemma script_pass_params:
  "script_pass ds x = Inr y \<Longrightarrow> param_state y = param_state x \<and> toggle_state y = toggle_state x"
  by (auto simp: script_pass_def Let_def split: if_splits view.splits sum.splits)

lemma restrict_map_superset:
  assumes "dom m \<subseteq> K"
  shows "m |` K = m"
proof
  fix x
  show "(m |` K) x = m x"
  proof (cases "m x")
    case (Some v)
    then have "x \<in> K" using assms by blast
    then show ?thesis by simp
  qed (simp add: restrict_map_def)
qed

lemma params_clean_cleanup: "params_clean (widget_cleanup s)"
  by (auto simp: params_clean_def widget_cleanup_def)

lemma render_params_clean: "render ds x = Inr y \<Longrightarrow> params_clean y"
  by (auto simp: render_Inr params_clean_cleanup)

lemma render_keeps_params:
  assumes "render ds x = Inr y" and "page x = ProjectPage" and "params_clean x"
  shows "param_state y = param_state x \<and> toggle_state y = toggle_state x"
proof -
  obtain y1 where p: "script_pass ds x = Inr y1" and y: "y = widget_cleanup y1"
    using assms(1) by (auto simp: render_Inr)
  have "page y1 = ProjectPage" using script_pass_frame [OF p] assms(2) by simp
  moreover have "params_clean y1" using assms(3) script_pass_params [OF p] by (simp add: params_clean_def)
  ultimately show ?thesis using script_pass_params [OF p] y
    by (simp add: widget_cleanup_def params_clean_def restrict_map_superset)
qed

lemma params_clean_fields [simp]:
  "params_clean (s\<lparr>sections := x\<rparr>) = params_clean s"
  by (simp add: params_clean_def)

lemma handle_params_clean:
  assumes "handle ds s e = Inr s'" and "params_clean s"
  shows "params_clean s'"
proof (cases e)
  case (EditPoint i d h)
  then show ?thesis using assms
    by (auto dest: render_params_clean split: view.splits if_splits sum.splits)
qed (use assms in \<open>auto simp: Let_def dest: render_params_clean
       split: view.splits if_splits option.splits sum.splits\<close>)

lemma reachable_params_clean: "reachable ds s \<Longrightarrow> params_clean s"
proof (induction rule: reachable.induct)
  case start
  show ?case by (simp add: params_clean_def init_state_def)
next
  case (step s e s')
  then show ?case by (blast intro: handle_params_clean)
qed

lemma params_clean_cong:
  "param_state x = param_state s \<Longrightarrow> toggle_state x = toggle_state s \<Longrightarrow>
     params_clean x = params_clean s"
  by (simp add: params_clean_def)

lemma render_keeps_params_of:
  assumes "render ds x = Inr y" and "page x = ProjectPage" and "params_clean s"
    and "param_state x = param_state s" and "toggle_state x = toggle_state s"
  shows "param_state y = param_state s \<and> toggle_state y = toggle_state s"
  using render_keeps_params [OF assms(1,2)] assms(3-5) params_clean_cong [OF assms(4,5)] by simp

lemma render_twice_keeps_params:
  assumes "render ds s = Inr x" and "render ds (f x) = Inr y" and "page s = ProjectPage"
    and "params_clean s" and "page (f x) = page x"
    and "param_state (f x) = param_state x" and "toggle_state (f x) = toggle_state x"
  shows "param_state y = param_state s \<and> toggle_state y = toggle_state s"
proof -
  have x: "param_state x = param_state s" "toggle_state x = toggle_state s"
    using render_keeps_params_of [OF assms(1,3,4)] by simp_all
  have "page x = ProjectPage" using render_frame [OF assms(1)] assms(3) by simp
  then show ?thesis
    using render_keeps_params_of [OF assms(2) _ assms(4)] assms(5-7) x by simp
qed

text \<open>C15. The design parameters of the project page survive every interaction with the
  cross-section tool: a profile event changes neither a parameter input nor a toggle.\<close>

theorem profile_events_keep_params:
  assumes "reachable ds s" and pg: "page s = ProjectPage" and "profile_event e"
    and h: "handle ds s e = Inr s'"
  shows "param_state s' = param_state s \<and> toggle_state s' = toggle_state s"
proof -
  have cl: "params_clean s" using assms(1) by (rule reachable_params_clean)
  note one = render_keeps_params_of [OF _ _ cl]
  show ?thesis
  proof (cases e)
    case (NavTo t)
    with h pg have "render ds (s\<lparr>current := t, map_click := (if t = current s then map_click s else None)\<rparr>) = Inr s'"
      by simp
    then show ?thesis using one pg by simp
  next
    case (MapClick la lo)
    with h pg have "s' = s \<or> render ds (s\<lparr>map_click := Some \<lparr>lat = la, lon = lo\<rparr>\<rparr>) = Inr s'"
      by (simp split: if_splits)
    then show ?thesis
    proof
      assume "render ds (s\<lparr>map_click := Some \<lparr>lat = la, lon = lo\<rparr>\<rparr>) = Inr s'"
      from one [OF this] pg show ?thesis by simp
    qed simp
  next
    case (ApplyCoords a b c d)
    with h pg have "s' = s \<or> render ds (on_current (apply_coords a b c d) (map_pass s)) = Inr s'"
      by (simp split: if_splits)
    then show ?thesis
    proof
      assume "render ds (on_current (apply_coords a b c d) (map_pass s)) = Inr s'"
      from one [OF this] pg show ?thesis by simp
    qed simp
  next
    case ResetPoints
    with h pg have "s' = s \<or> render ds ((on_current reset_points (map_pass s))\<lparr>coord_version :=
        Suc (coord_version (on_current reset_points (map_pass s)))\<rparr>) = Inr s'"
      by (simp add: Let_def split: if_splits)
    then show ?thesis
    proof
      assume "render ds ((on_current reset_points (map_pass s))\<lparr>coord_version :=
        Suc (coord_version (on_current reset_points (map_pass s)))\<rparr>) = Inr s'"
      from one [OF this] pg show ?thesis by simp
    qed simp
  next
    case (SetNumPoints k)
    with h pg have "s' = s \<or> (\<exists>c. render ds (s\<lparr>num_pts := (num_pts s)(c := k)\<rparr>) = Inr s')"
      by (auto split: view.splits if_splits)
    then show ?thesis
    proof (elim disjE exE)
      fix c assume "render ds (s\<lparr>num_pts := (num_pts s)(c := k)\<rparr>) = Inr s'"
      from one [OF this] pg show ?thesis by simp
    qed simp
  next
    case Rerun
    with h have "render ds s = Inr s'" by simp
    then show ?thesis using one pg by simp
  next
    case (TypeCoord f v)
    with h pg have "s' = s \<or> (\<exists>c. render ds (s\<lparr>coord_inputs := (coord_inputs s)((c, coord_version s, f) \<mapsto> v)\<rparr>) = Inr s')"
      by (auto split: view.splits if_splits)
    then show ?thesis
    proof (elim disjE exE)
      fix c assume "render ds (s\<lparr>coord_inputs := (coord_inputs s)((c, coord_version s, f) \<mapsto> v)\<rparr>) = Inr s'"
      from one [OF this] pg show ?thesis by simp
    qed simp
  next
    case (EditPoint i d h')
    show ?thesis
    proof (cases "s' = s")
      case False
      then obtain c s1 sec where r: "render ds s = Inr s1"
        and s': "s' = s1\<lparr>sections := (sections s1)(c := sec)\<rparr>"
        using h EditPoint by (auto split: view.splits if_splits sum.splits)
      show ?thesis using one [OF r] pg s' by simp
    qed simp
  next
    case CompareSave
    show ?thesis
    proof (cases "s' = s")
      case False
      then obtain s1 where r: "render ds s = Inr s1" and r2: "render ds (on_current compare_save s1) = Inr s'"
        using h CompareSave by (auto split: view.splits if_splits sum.splits)
      show ?thesis by (rule render_twice_keeps_params [where f = "on_current compare_save", OF r r2 pg cl]) simp_all
    qed simp
  next
    case PrevSection
    show ?thesis
    proof (cases "s' = s")
      case False
      then obtain s1 c' where r: "render ds s = Inr s1"
        and r2: "render ds (s1\<lparr>current := Sec c', map_click := None\<rparr>) = Inr s'"
        using h PrevSection by (auto split: view.splits option.splits if_splits sum.splits)
      show ?thesis by (rule render_twice_keeps_params [where f = "\<lambda>x. x\<lparr>current := Sec c', map_click := None\<rparr>", OF r r2 pg cl]) simp_all
    qed simp
  next
    case NextSection
    show ?thesis
    proof (cases "s' = s")
      case False
      then obtain s1 c' where r: "render ds s = Inr s1"
        and r2: "render ds (s1\<lparr>current := Sec c', map_click := None\<rparr>) = Inr s'"
        using h NextSection by (auto split: view.splits option.splits if_splits sum.splits)
      show ?thesis by (rule render_twice_keeps_params [where f = "\<lambda>x. x\<lparr>current := Sec c', map_click := None\<rparr>", OF r r2 pg cl]) simp_all
    qed simp
  qed (use assms(3) in simp_all)
qed

text \<open>"Home" discards the design parameters: every widget of the project page is
  left unrendered by the landing page's run, so its state is deleted, and on return every
  parameter input shows its default again and both toggles are off.\<close>

theorem home_resets_params:
  assumes "page s = ProjectPage" and "handle ds s GoHome = Inr s'"
  shows "page s' = Landing \<and> param_value (param_state s') = param_default
    \<and> toggle_value (toggle_state s') = (\<lambda>_. False)"
proof -
  have "render ds (go_home s) = Inr s'" using assms by simp
  then have "s' = widget_cleanup (go_home s)"
    by (simp add: render_def script_pass_def go_home_def)
  then show ?thesis by (simp add: widget_cleanup_def go_home_def)
qed

theorem home_resets_params_witness:
  "\<exists>S S'. reachable None S \<and> page S = ProjectPage \<and> param_value (param_state S) Hs = 3
     \<and> handle None S GoHome = Inr S' \<and> param_value (param_state S') Hs = 2"
proof -
  have "\<exists>S. run None init_state [StartProject ''P'', SetParam Hs 3] = Inr S \<and> page S = ProjectPage
      \<and> param_value (param_state S) Hs = 3 \<and> (\<exists>S'. handle None S GoHome = Inr S')"
    by (simp add: run_eval go_home_def param_shown_def)
  then obtain S S' where r: "run None init_state [StartProject ''P'', SetParam Hs 3] = Inr S"
    and p: "page S = ProjectPage" "param_value (param_state S) Hs = 3"
    and h: "handle None S GoHome = Inr S'" by blast
  have "reachable None S" using run_reachable [OF reachable.start r] .
  moreover have "param_value (param_state S') Hs = 2"
    using home_resets_params [OF p(1) h] by simp
  ultimately show ?thesis using p h by blast
qed

theorem profile_events_keep_params_witness:
  "\<exists>S S'. reachable None S \<and> page S = ProjectPage \<and> profile_event (ApplyCoords 0 0 0 1)
     \<and> handle None S (ApplyCoords 0 0 0 1) = Inr S' \<and> param_value (param_state S') Hs = 3"
proof -
  have "\<exists>S. run None init_state [StartProject ''P'', SetParam Hs 3] = Inr S \<and> page S = ProjectPage
      \<and> param_state S Hs = Some 3 \<and> (\<exists>S'. handle None S (ApplyCoords 0 0 0 1) = Inr S')"
    by (simp add: run_eval param_shown_def extract_depth_profile_def)
  then obtain S S' where r: "run None init_state [StartProject ''P'', SetParam Hs 3] = Inr S"
    and p: "page S = ProjectPage" "param_state S Hs = Some 3"
    and h: "handle None S (ApplyCoords 0 0 0 1) = Inr S'" by blast
  have re: "reachable None S" using run_reachable [OF reachable.start r] .
  have "param_state S' = param_state S"
    using profile_events_keep_params [OF re p(1) _ h] by simp
  then have "param_value (param_state S') Hs = 3" using p(2) by (simp add: param_value_def)
  with re p h show ?thesis by auto
qed

end
