(* ===== verification/Session_Reruns.thy ===== *)
theory Session_Reruns
  imports Session_Flow
begin

text \<open>
  The reruns of one script run.  The map-click handler of \<open>render_profile_section\<close>
  (\<open>src/profile_module.py\<close>, lines 248--262) calls \<open>st.rerun()\<close> after appending a
  new point, which abandons the pass and starts the script again; \<open>st_folium\<close> reports
  the same click in the new pass.  \<open>script_pass_once\<close> is one pass, which either runs to
  its end (\<open>Finished\<close>) or stops at that \<open>st.rerun()\<close> (\<open>Reran\<close>); \<open>rerun_loop\<close>
  repeats passes until one finishes, as a \<open>partial_function\<close> in the option monad, so
  that a run that reran forever would be \<open>None\<close>.  The theorem shows that every run ends,
  after at most one rerun, with the result of \<open>script_pass\<close>, the single pass the session
  model of \<open>Session\<close> uses.
\<close>

datatype pass_outcome = Finished app_state | Reran app_state

definition script_pass_once :: "dataset option \<Rightarrow> app_state \<Rightarrow> py_error + pass_outcome" where
  "script_pass_once ds s =
     (if page s = ProjectPage \<and> \<not> click_settled s then Inr (Reran (map_pass s))
      else case script_pass ds s of Inl e \<Rightarrow> Inl e | Inr s' \<Rightarrow> Inr (Finished s'))"

partial_function (option) rerun_loop :: "dataset option \<Rightarrow> app_state \<Rightarrow> (py_error + app_state) option" where
  "rerun_loop ds s =
     (case script_pass_once ds s of
        Inl e \<Rightarrow> Some (Inl e)
      | Inr (Finished s') \<Rightarrow> Some (Inr s')
      | Inr (Reran s') \<Rightarrow> rerun_loop ds s')"

lemma map_pass_idem [simp]: "map_pass (map_pass s) = map_pass s"
  using map_pass_id_iff map_pass_settled by blast

lemma script_pass_map_pass:
  "page s = ProjectPage \<Longrightarrow> script_pass ds (map_pass s) = script_pass ds s"
proof (cases "current s")
  case AllView
  then have "map_pass s = s" by (simp add: map_pass_def)
  then show ?thesis by simp
qed (simp add: script_pass_def)

lemma rerun_loop_finished:
  "page s \<noteq> ProjectPage \<or> click_settled s \<Longrightarrow> rerun_loop ds s = Some (script_pass ds s)"
  by (subst rerun_loop.simps) (auto simp: script_pass_once_def split: sum.splits)

text \<open>C16. Termination: every script run ends, with at most one rerun after a new map
  click, and its result is that of the single pass of the session model.\<close>

theorem rerun_loop_terminates:
  "rerun_loop ds s = Some (script_pass ds s)"
proof (cases "page s = ProjectPage \<and> \<not> click_settled s")
  case True
  then have "rerun_loop ds s = rerun_loop ds (map_pass s)"
    by (subst rerun_loop.simps) (simp add: script_pass_once_def)
  also have "\<dots> = Some (script_pass ds (map_pass s))"
    using map_pass_settled by (intro rerun_loop_finished) simp
  finally show ?thesis using True by (simp add: script_pass_map_pass)
next
  case False
  then show ?thesis by (intro rerun_loop_finished) auto
qed

end
