(* ===== verification/Session_Store.thy ===== *)
theory Session_Store
  imports Session_Props
begin

text \<open>
  The section store of a session.  Lines 80--92 of \<open>src/profile_module.py\<close> are module
  code: they run once per server process, when the first run of \<open>src/app.py\<close> executes
  \<open>import profile_module\<close> (line 2), and they write \<open>sections\<close>, \<open>current_section\<close> and
  \<open>coord_version\<close> into the session state of that run only.  A session opened later (a
  second tab, a reload) starts as \<open>later_session_init\<close>: \<open>has_store\<close> is false, and its
  first project-page pass raises \<open>AttributeError\<close> at line 99.  \<open>later_reachable\<close> is
  the set of states such a session can reach without an exception.
\<close>

inductive later_reachable :: "dataset option \<Rightarrow> app_state \<Rightarrow> bool" for ds where
  start: "later_reachable ds later_session_init"
| step: "later_reachable ds s \<Longrightarrow> handle ds s e = Inr s' \<Longrightarrow> later_reachable ds s'"

lemma script_pass_off_page: "page s \<noteq> ProjectPage \<Longrightarrow> script_pass d s = Inr s"
  by (simp add: script_pass_def)

lemma render_off_page: "page s \<noteq> ProjectPage \<Longrightarrow> render d s = Inr (widget_cleanup s)"
  by (simp add: render_def script_pass_off_page)

lemma later_session_fields [simp]:
  "page later_session_init = Landing" "has_store later_session_init = False"
  "current later_session_init = Sec A"
  by (simp_all add: later_session_init_def init_state_def)

lemma widget_cleanup_later [simp]: "widget_cleanup later_session_init = later_session_init"
  by (simp add: widget_cleanup_def later_session_init_def init_state_def)

lemma handle_later_session:
  "handle ds later_session_init e =
     (case e of
        StartProject n \<Rightarrow> if n \<noteq> [] then Inl AttributeError else Inr later_session_init
      | _ \<Rightarrow> Inr later_session_init)"
  by (cases e) (simp_all add: render_off_page render_def script_pass_def landing_submit_def
                  split: view.splits option.splits)

subsection \<open>Properties\<close>

text \<open>C18. A session opened after \<open>profile_module\<close> was first imported never reaches the
  profile tool: every interaction either leaves it at its start on the landing page or,
  for Start Project with a name, raises \<open>AttributeError\<close> at line 99, because the
  section store was written into another session.\<close>

theorem later_session_never_opens:
  "later_reachable ds s \<Longrightarrow>
   s = later_session_init \<and> (\<forall>n. n \<noteq> [] \<longrightarrow> handle ds s (StartProject n) = Inl AttributeError)"
proof (induction rule: later_reachable.induct)
  case start
  show ?case by (simp del: handle.simps add: handle_later_session)
next
  case (step s e s')
  then show ?case by (auto simp del: handle.simps simp: handle_later_session split: event.splits if_splits)
qed

theorem later_session_never_opens_witness:
  "later_reachable None later_session_init
   \<and> handle None later_session_init (StartProject ''P'') = Inl AttributeError"
  using later_session_never_opens [OF later_reachable.start] later_reachable.start by simp

end
