(* ===== verification/Bathymetry_Load.thy ===== *)
theory Bathymetry_Load
  imports Dataset
begin

text \<open>
  The loading of the bathymetry raster (\<open>load_bathymetry\<close>, \<open>src/profile_module.py\<close>,
  lines 9--24).
  \<^item> \<open>file_system\<close>: what the loader observes: the working directory, the absolute
    path of the module file, which paths exist, and what \<open>xr.open_dataset\<close> returns for
    an engine and a path (\<open>None\<close> when it raises);
  \<^item> \<open>py_dirname\<close>, \<open>path_join\<close>, \<open>py_abspath\<close>: \<open>posixpath.dirname\<close>,
    \<open>posixpath.join\<close> and \<open>os.path.abspath\<close> on a relative name without \<open>.\<close>, \<open>..\<close> or
    doubled separators (the file name is such a name, so \<open>normpath\<close> changes nothing);
  \<^item> \<open>bathy_path\<close>, \<open>load_bathymetry\<close>: the file in the working directory if it exists,
    else beside the module; the \<open>netcdf4\<close> engine, then \<open>scipy\<close>; \<open>None\<close> if both raise;
  \<^item> \<open>cached_load\<close>: \<open>@st.cache_data\<close>: the first call of the process stores its
    return value, a \<open>None\<close> included, and every later call returns it.
  The server process that uses the cache is \<open>Server_Process\<close>.
\<close>

datatype engine = netcdf4 | scipy

record file_system =
  fs_cwd :: string
  fs_module_path :: string
  fs_exists :: "string \<Rightarrow> bool"
  fs_open :: "engine \<Rightarrow> string \<Rightarrow> dataset option"

definition path_join :: "string \<Rightarrow> string \<Rightarrow> string" where
  "path_join a b =
     (if take 1 b = ''/'' then b
      else if a = [] \<or> last a = CHR ''/'' then a @ b
      else a @ ''/'' @ b)"

definition py_dirname :: "string \<Rightarrow> string" where
  "py_dirname p =
     (let head = rev (dropWhile (\<lambda>ch. ch \<noteq> CHR ''/'') (rev p))
      in if head \<noteq> [] \<and> \<not> list_all (\<lambda>ch. ch = CHR ''/'') head
         then rev (dropWhile (\<lambda>ch. ch = CHR ''/'') (rev head)) else head)"

definition py_abspath :: "string \<Rightarrow> string \<Rightarrow> string" where
  "py_abspath cwd p = path_join cwd p"

definition bathy_file_name :: string where
  "bathy_file_name = ''Mean depth in multi colour (no land).nc''"

definition bathy_path :: "file_system \<Rightarrow> string" where
  "bathy_path fs =
     (if fs_exists fs (py_abspath (fs_cwd fs) bathy_file_name)
      then py_abspath (fs_cwd fs) bathy_file_name
      else path_join (py_dirname (fs_module_path fs)) bathy_file_name)"

definition load_bathymetry :: "file_system \<Rightarrow> dataset option" where
  "load_bathymetry fs =
     (let file_path = bathy_path fs
      in case fs_open fs netcdf4 file_path of
           Some d \<Rightarrow> Some d
         | None \<Rightarrow> fs_open fs scipy file_path)"

type_synonym grid_cache = "dataset option option"

definition cached_load :: "grid_cache \<Rightarrow> file_system \<Rightarrow> dataset option \<times> grid_cache" where
  "cached_load c fs = (case c of Some r \<Rightarrow> (r, c) | None \<Rightarrow> (let r = load_bathymetry fs in (r, Some r)))"

definition cache_value :: "grid_cache \<Rightarrow> dataset option" where
  "cache_value c = (case c of Some r \<Rightarrow> r | None \<Rightarrow> None)"

text \<open>Two file systems for the examples: the raster readable everywhere, and no raster.\<close>

definition fs_ok :: file_system where
  "fs_ok = \<lparr>fs_cwd = ''/srv'', fs_module_path = ''/srv/profile_module.py'',
            fs_exists = (\<lambda>_. True), fs_open = (\<lambda>_ _. Some [])\<rparr>"

definition fs_missing :: file_system where
  "fs_missing = \<lparr>fs_cwd = ''/srv'', fs_module_path = ''/srv/profile_module.py'',
                 fs_exists = (\<lambda>_. False), fs_open = (\<lambda>_ _. None)\<rparr>"

subsection \<open>The loader and the cache\<close>

lemma cached_load_Some [simp]: "cached_load (Some r) fs = (r, Some r)"
  by (simp add: cached_load_def Let_def)

lemma cached_load_None [simp]: "cached_load None fs = (load_bathymetry fs, Some (load_bathymetry fs))"
  by (simp add: cached_load_def Let_def)

lemma cache_value_Some [simp]: "cache_value (Some r) = r"
  by (simp add: cache_value_def)

subsection \<open>Properties\<close>

text \<open>C20. The loader returns no dataset exactly when neither engine can open the chosen file:
  the \<open>netcdf4\<close> failure is caught and \<open>scipy\<close> tried, and a \<open>scipy\<close> failure is
  caught by the outer \<open>except\<close>.\<close>

theorem load_bathymetry_None_iff:
  "load_bathymetry fs = None \<longleftrightarrow> (\<forall>en. fs_open fs en (bathy_path fs) = None)"
proof
  assume "load_bathymetry fs = None"
  then have "fs_open fs netcdf4 (bathy_path fs) = None \<and> fs_open fs scipy (bathy_path fs) = None"
    by (simp add: load_bathymetry_def Let_def split: option.splits)
  then show "\<forall>en. fs_open fs en (bathy_path fs) = None"
    by (metis engine.exhaust)
qed (simp add: load_bathymetry_def Let_def)

end
