(* ===== verification/Server_Process.thy ===== *)
theory Server_Process
  imports Session_Store Bathymetry_Load
begin

text \<open>
  One Streamlit server process: the \<open>@st.cache_data\<close> store of \<open>load_bathymetry\<close>,
  whether \<open>profile_module\<close> has been imported yet, and the sessions it serves (one per
  browser tab or reload), each running or stopped by an uncaught exception.
  \<^item> \<open>open_session\<close>: the first run of a new session.  It executes \<open>src/app.py\<close>, whose
    line 2 imports \<open>profile_module\<close> only if the process has not imported it yet; the
    module code of lines 80--92 then writes the section store into this session, so
    only the first session opened starts as \<open>init_state\<close>, every later one as
    \<open>later_session_init\<close>;
  \<^item> \<open>event_loads\<close>, \<open>load_step\<close>: an interaction loads the raster when one of its passes
    reaches line 95 of \<open>render_profile_section\<close> (called at line 107 of \<open>app.py\<close>), that
    is on the project page, except the Home button, whose pass stops at line 81, and when
    Start Project opens it; the load happens before line 99, so also in a pass that then
    raises;
  \<^item> \<open>session_event\<close>: one interaction of one session, with the session model's
    \<open>handle\<close>; an exception stops the session (\<open>Raised\<close>): the model does not follow a
    session past its first uncaught exception;
  \<^item> \<open>process_step\<close>, \<open>process_run\<close>, \<open>process_reachable\<close>: interleaved inputs of
    all sessions.
  The lemmas show that every running session is either the owner of the store in a
  reachable state of \<open>Session\<close> for the cached dataset, or a later session still at its
  start; that at most one session owns the store; and that the only exception any
  session raises is the \<open>AttributeError\<close> of a later session.
\<close>

definition event_loads :: "app_state \<Rightarrow> event \<Rightarrow> bool" where
  "event_loads s e =
     (case e of
        StartProject n \<Rightarrow> page s = Landing \<and> n \<noteq> []
      | GoHome \<Rightarrow> False
      | _ \<Rightarrow> page s = ProjectPage)"

definition load_step :: "app_state \<Rightarrow> event \<Rightarrow> grid_cache \<Rightarrow> file_system \<Rightarrow> dataset option \<times> grid_cache" where
  "load_step s e c fs = (if event_loads s e then cached_load c fs else (cache_value c, c))"

datatype session_status = Running app_state | Raised py_error

fun status_of :: "py_error + app_state \<Rightarrow> session_status" where
  "status_of (Inl err) = Raised err"
| "status_of (Inr s) = Running s"

record process =
  cache :: grid_cache
  imported :: bool
  sessions :: "nat \<rightharpoonup> session_status"

datatype process_input = OpenSession nat | Interact nat event

definition init_process :: process where
  "init_process = \<lparr>cache = None, imported = False, sessions = Map.empty\<rparr>"

definition open_session :: "process \<Rightarrow> nat \<Rightarrow> process" where
  "open_session p sid =
     (if sessions p sid \<noteq> None then p
      else p\<lparr>imported := True,
             sessions := (sessions p)(sid \<mapsto> Running (if imported p then later_session_init else init_state))\<rparr>)"

definition session_event :: "file_system \<Rightarrow> process \<Rightarrow> nat \<Rightarrow> event \<Rightarrow> process" where
  "session_event fs p sid e =
     (case sessions p sid of
        Some (Running s) \<Rightarrow>
          (case load_step s e (cache p) fs of
             (d, c) \<Rightarrow> p\<lparr>cache := c, sessions := (sessions p)(sid \<mapsto> status_of (handle d s e))\<rparr>)
      | _ \<Rightarrow> p)"

fun process_step :: "file_system \<Rightarrow> process \<Rightarrow> process_input \<Rightarrow> process" where
  "process_step fs p (OpenSession sid) = open_session p sid"
| "process_step fs p (Interact sid e) = session_event fs p sid e"

fun process_run :: "process \<Rightarrow> (file_system \<times> process_input) list \<Rightarrow> process" where
  "process_run p [] = p"
| "process_run p ((fs, i) # rest) = process_run (process_step fs p i) rest"

inductive process_reachable :: "process \<Rightarrow> bool" where
  start: "process_reachable init_process"
| step: "process_reachable p \<Longrightarrow> process_reachable (process_step fs p i)"

text \<open>The invariant: running sessions are the store owner (reachable for the cached
  dataset) or a later session at its start; before the first load every running session
  is at its start; stopped sessions raised \<open>AttributeError\<close>; at most one owner; no
  session before the import.\<close>

definition proc_inv :: "process \<Rightarrow> bool" where
  "proc_inv p \<longleftrightarrow>
     (\<forall>sid s. sessions p sid = Some (Running s) \<longrightarrow>
        (has_store s \<and> reachable (cache_value (cache p)) s \<or> s = later_session_init)
        \<and> (cache p = None \<longrightarrow> s = init_state \<or> s = later_session_init))
     \<and> (\<forall>sid err. sessions p sid = Some (Raised err) \<longrightarrow> err = AttributeError)
     \<and> (\<forall>sid1 sid2 s1 s2. sessions p sid1 = Some (Running s1) \<longrightarrow> sessions p sid2 = Some (Running s2)
          \<longrightarrow> has_store s1 \<longrightarrow> has_store s2 \<longrightarrow> sid1 = sid2)
     \<and> (\<not> imported p \<longrightarrow> sessions p = Map.empty)"

subsection \<open>Loading and the steps of one session\<close>

lemma widget_cleanup_init [simp]: "widget_cleanup init_state = init_state"
  by (simp add: widget_cleanup_def init_state_def)

lemma handle_init_no_load:
  assumes "\<not> event_loads init_state e"
  shows "handle d init_state e = Inr init_state"
  using assms
  by (cases e) (simp_all add: event_loads_def render_off_page landing_submit_def
                  split: view.splits option.splits, simp_all add: init_state_def)

lemma load_step_value: "load_step s e c fs = (d, c') \<Longrightarrow> cache_value c' = d"
  by (auto simp: load_step_def cached_load_def cache_value_def Let_def split: if_splits option.splits)

lemma load_step_keep: "load_step s e (Some r) fs = (d, c') \<Longrightarrow> c' = Some r \<and> d = r"
  by (auto simp: load_step_def split: if_splits)

lemma load_step_None: "load_step s e c fs = (d, None) \<Longrightarrow> c = None \<and> \<not> event_loads s e"
  by (auto simp: load_step_def cached_load_def Let_def split: if_splits option.splits)

lemma reachable_has_store: "reachable ds s \<Longrightarrow> has_store s"
  using reachable_app_ok app_ok_has_store by blast

lemma acting_session_step:
  assumes "has_store s \<and> reachable (cache_value cp) s \<or> s = later_session_init"
    and "cp = None \<longrightarrow> s = init_state \<or> s = later_session_init"
    and "load_step s e cp fs = (d, c)"
  shows "(\<forall>s'. status_of (handle d s e) = Running s' \<longrightarrow>
            (has_store s' \<and> reachable (cache_value c) s' \<or> s' = later_session_init)
            \<and> (c = None \<longrightarrow> s' = init_state \<or> s' = later_session_init) \<and> has_store s' = has_store s)
     \<and> (\<forall>err. status_of (handle d s e) = Raised err \<longrightarrow> err = AttributeError)"
proof (cases "s = later_session_init")
  case True
  then show ?thesis
    by (auto simp del: handle.simps simp: handle_later_session split: event.splits if_splits)
next
  case False
  with assms(1) have st: "has_store s" and r: "reachable (cache_value cp) s" by auto
  have rd: "reachable d s"
  proof (cases cp)
    case None
    with assms(2) False have "s = init_state" by simp
    then show ?thesis by (simp add: reachable.start)
  next
    case (Some r')
    with assms(3) have "d = r'" by (auto dest: load_step_keep)
    with r Some show ?thesis by simp
  qed
  obtain s' where h: "handle d s e = Inr s'"
    using handle_ok [OF reachable_app_ok [OF rd]] by blast
  have rs': "reachable d s'" using reachable.step [OF rd h] .
  have c0: "c = None \<Longrightarrow> s' = init_state"
  proof -
    assume "c = None"
    with assms(3) have "cp = None" and nl: "\<not> event_loads s e" using load_step_None by blast+
    with assms(2) False have "s = init_state" by simp
    with h nl show "s' = init_state" using handle_init_no_load by simp
  qed
  show ?thesis
    using h rs' c0 st reachable_has_store [OF rs'] load_step_value [OF assms(3)] by auto
qed

lemma other_session_step:
  assumes "has_store s2 \<and> reachable (cache_value cp) s2 \<or> s2 = later_session_init"
    and "cp = None \<longrightarrow> s2 = init_state \<or> s2 = later_session_init"
    and "load_step s e cp fs = (d, c)"
  shows "(has_store s2 \<and> reachable (cache_value c) s2 \<or> s2 = later_session_init)
         \<and> (c = None \<longrightarrow> s2 = init_state \<or> s2 = later_session_init)"
proof (cases cp)
  case None
  then show ?thesis using assms load_step_None [of s e cp fs d]
    by (cases c) (auto simp: reachable.start)
next
  case (Some r')
  then show ?thesis using assms load_step_keep [of s e r' fs d c] by auto
qed

lemma session_event_inv:
  assumes inv: "proc_inv p"
  shows "proc_inv (session_event fs p sid e)"
proof (cases "sessions p sid")
  case None
  then show ?thesis using inv by (simp add: session_event_def)
next
  case (Some st)
  show ?thesis
  proof (cases st)
    case (Raised err)
    then show ?thesis using inv Some by (simp add: session_event_def)
  next
    case (Running s)
    obtain d c where ls: "load_step s e (cache p) fs = (d, c)" by fastforce
    define st' where "st' = status_of (handle d s e)"
    define q where "q = p\<lparr>cache := c, sessions := (sessions p)(sid \<mapsto> st')\<rparr>"
    have p': "session_event fs p sid e = q"
      using Some Running ls by (simp add: session_event_def q_def st'_def)
    have cq: "cache q = c" and sq: "\<And>x. sessions q x = (if x = sid then Some st' else sessions p x)"
      and iq: "imported q = imported p"
      by (simp_all add: q_def)
    have i1: "\<And>x y. sessions p x = Some (Running y) \<Longrightarrow>
        (has_store y \<and> reachable (cache_value (cache p)) y \<or> y = later_session_init)
        \<and> (cache p = None \<longrightarrow> y = init_state \<or> y = later_session_init)"
      using inv unfolding proc_inv_def by blast
    have i2: "\<And>x err. sessions p x = Some (Raised err) \<Longrightarrow> err = AttributeError"
      using inv unfolding proc_inv_def by blast
    have i3: "\<And>x1 x2 y1 y2. sessions p x1 = Some (Running y1) \<Longrightarrow> sessions p x2 = Some (Running y2)
          \<Longrightarrow> has_store y1 \<Longrightarrow> has_store y2 \<Longrightarrow> x1 = x2"
      using inv unfolding proc_inv_def by blast
    have imp: "imported p" using inv Some unfolding proc_inv_def by auto
    have me: "(has_store s \<and> reachable (cache_value (cache p)) s \<or> s = later_session_init)"
      "cache p = None \<longrightarrow> s = init_state \<or> s = later_session_init"
      using i1 [of sid s] Some Running by simp_all
    note act = acting_session_step [OF me ls, folded st'_def]
    have act1: "\<And>y. st' = Running y \<Longrightarrow>
        (has_store y \<and> reachable (cache_value c) y \<or> y = later_session_init)
        \<and> (c = None \<longrightarrow> y = init_state \<or> y = later_session_init) \<and> has_store y = has_store s"
      by (rule act [THEN conjunct1, rule_format])
    have act2: "\<And>err. st' = Raised err \<Longrightarrow> err = AttributeError"
      by (rule act [THEN conjunct2, rule_format])
    have oth: "\<And>y. sessions p x = Some (Running y) \<Longrightarrow>
        (has_store y \<and> reachable (cache_value c) y \<or> y = later_session_init)
        \<and> (c = None \<longrightarrow> y = init_state \<or> y = later_session_init)" for x
      using other_session_step [OF _ _ ls] i1 by blast
    have R1: "(has_store y \<and> reachable (cache_value (cache q)) y \<or> y = later_session_init)
        \<and> (cache q = None \<longrightarrow> y = init_state \<or> y = later_session_init)"
      if "sessions q x = Some (Running y)" for x y
    proof (cases "x = sid")
      case True
      with that sq have "st' = Running y" by simp
      then show ?thesis using act1 cq by blast
    next
      case False
      with that sq have "sessions p x = Some (Running y)" by simp
      then show ?thesis using oth cq by blast
    qed
    have R2: "err = AttributeError" if "sessions q x = Some (Raised err)" for x err
    proof (cases "x = sid")
      case True
      with that sq have "st' = Raised err" by simp
      then show ?thesis by (rule act2)
    next
      case False
      with that sq have "sessions p x = Some (Raised err)" by simp
      then show ?thesis by (rule i2)
    qed
    have own: "\<exists>z. sessions p x = Some (Running z) \<and> has_store z"
      if "sessions q x = Some (Running y)" and "has_store y" for x y
    proof (cases "x = sid")
      case True
      with that sq have "st' = Running y" by simp
      with act1 that(2) have "has_store s" by blast
      with True Some Running show ?thesis by blast
    next
      case False
      with that sq show ?thesis by auto
    qed
    have R3: "x1 = x2" if "sessions q x1 = Some (Running y1)" "sessions q x2 = Some (Running y2)"
      "has_store y1" "has_store y2" for x1 x2 y1 y2
      using own [OF that(1,3)] own [OF that(2,4)] i3 by blast
    have R4: "\<not> imported q \<longrightarrow> sessions q = Map.empty" using imp iq by simp
    show ?thesis unfolding p' proc_inv_def using R1 R2 R3 R4 by blast
  qed
qed

lemma init_state_has_store [simp]: "has_store init_state"
  by (simp add: init_state_def)

lemma open_session_inv:
  assumes inv: "proc_inv p"
  shows "proc_inv (open_session p sid)"
proof (cases "sessions p sid = None")
  case False
  then show ?thesis using inv by (simp add: open_session_def)
next
  case True
  define s0 where "s0 = (if imported p then later_session_init else init_state)"
  define q where "q = p\<lparr>imported := True, sessions := (sessions p)(sid \<mapsto> Running s0)\<rparr>"
  have q: "open_session p sid = q" using True by (simp add: open_session_def q_def s0_def)
  have sq: "\<And>x. sessions q x = (if x = sid then Some (Running s0) else sessions p x)"
    and cq: "cache q = cache p" and iq: "imported q" by (simp_all add: q_def)
  have i1: "\<And>x y. sessions p x = Some (Running y) \<Longrightarrow>
      (has_store y \<and> reachable (cache_value (cache p)) y \<or> y = later_session_init)
      \<and> (cache p = None \<longrightarrow> y = init_state \<or> y = later_session_init)"
    and i2: "\<And>x err. sessions p x = Some (Raised err) \<Longrightarrow> err = AttributeError"
    and i3: "\<And>x1 x2 y1 y2. sessions p x1 = Some (Running y1) \<Longrightarrow> sessions p x2 = Some (Running y2)
        \<Longrightarrow> has_store y1 \<Longrightarrow> has_store y2 \<Longrightarrow> x1 = x2"
    and i4: "\<not> imported p \<longrightarrow> sessions p = Map.empty"
    using inv unfolding proc_inv_def by blast+
  have new: "(has_store s0 \<and> reachable (cache_value (cache p)) s0 \<or> s0 = later_session_init)
      \<and> (cache p = None \<longrightarrow> s0 = init_state \<or> s0 = later_session_init)"
    by (simp add: s0_def reachable.start)
  have owner: "has_store s0 \<Longrightarrow> sessions p x = None" for x
    using i4 by (simp add: s0_def split: if_splits)
  have R1: "(has_store y \<and> reachable (cache_value (cache q)) y \<or> y = later_session_init)
      \<and> (cache q = None \<longrightarrow> y = init_state \<or> y = later_session_init)"
    if "sessions q x = Some (Running y)" for x y
    using that sq cq new i1 by (cases "x = sid") simp_all
  have R2: "err = AttributeError" if "sessions q x = Some (Raised err)" for x err
    using that sq i2 by (cases "x = sid") simp_all
  have R3: "x1 = x2" if "sessions q x1 = Some (Running y1)" "sessions q x2 = Some (Running y2)"
    "has_store y1" "has_store y2" for x1 x2 y1 y2
  proof (cases "x1 = sid \<or> x2 = sid")
    case True
    then show ?thesis using that sq owner i3 by (cases "x1 = sid"; cases "x2 = sid") auto
  next
    case False
    then show ?thesis using that sq i3 by auto
  qed
  show ?thesis unfolding q proc_inv_def using R1 R2 R3 iq by blast
qed

lemma process_reachable_inv: "process_reachable p \<Longrightarrow> proc_inv p"
proof (induction rule: process_reachable.induct)
  case start
  show ?case by (simp add: proc_inv_def init_process_def)
next
  case (step p fs i)
  then show ?case by (cases i) (simp_all add: open_session_inv session_event_inv)
qed


lemma load_step_Some [simp]: "load_step s e (Some r) fs = (r, Some r)"
  by (simp add: load_step_def)

lemma process_run_reachable: "process_reachable p \<Longrightarrow> process_reachable (process_run p xs)"
proof (induction xs arbitrary: p)
  case Nil
  then show ?case by simp
next
  case (Cons x xs)
  obtain fs i where "x = (fs, i)" by fastforce
  with Cons show ?case by (simp add: process_reachable.step)
qed

lemma process_run_owner:
  "process_run \<lparr>cache = Some r, imported = True, sessions = [sid \<mapsto> st]\<rparr> (map (\<lambda>(fs, e). (fs, Interact sid e)) es) =
     \<lparr>cache = Some r, imported = True,
      sessions = [sid \<mapsto> (case st of Running s \<Rightarrow> status_of (run r s (map snd es)) | Raised err \<Rightarrow> Raised err)]\<rparr>"
proof (induction es arbitrary: st)
  case Nil
  then show ?case by (cases st) simp_all
next
  case (Cons fe es)
  obtain fs e where fe: "fe = (fs, e)" by fastforce
  show ?case
  proof (cases st)
    case (Running s)
    let ?f = "\<lambda>(fs, e). (fs, Interact sid e)"
    have ev: "session_event fs \<lparr>cache = Some r, imported = True, sessions = [sid \<mapsto> Running s]\<rparr> sid e =
        \<lparr>cache = Some r, imported = True, sessions = [sid \<mapsto> status_of (handle r s e)]\<rparr>"
      by (simp add: session_event_def)
    have "process_run \<lparr>cache = Some r, imported = True, sessions = [sid \<mapsto> st]\<rparr> (map ?f (fe # es)) =
        process_run \<lparr>cache = Some r, imported = True, sessions = [sid \<mapsto> status_of (handle r s e)]\<rparr> (map ?f es)"
      by (simp only: fe list.map prod.case process_run.simps process_step.simps Running ev)
    also have "\<dots> = \<lparr>cache = Some r, imported = True,
        sessions = [sid \<mapsto> (case status_of (handle r s e) of Running s \<Rightarrow> status_of (run r s (map snd es))
                                | Raised err \<Rightarrow> Raised err)]\<rparr>"
      by (rule Cons.IH)
    also have "\<dots> = \<lparr>cache = Some r, imported = True,
        sessions = [sid \<mapsto> (case st of Running s \<Rightarrow> status_of (run r s (map snd (fe # es))) | Raised err \<Rightarrow> Raised err)]\<rparr>"
      using Running fe by (cases "handle r s e") simp_all
    finally show ?thesis .
  next
    case (Raised err)
    let ?f = "\<lambda>(fs, e). (fs, Interact sid e)"
    have ev: "session_event fs \<lparr>cache = Some r, imported = True, sessions = [sid \<mapsto> Raised err]\<rparr> sid e =
        \<lparr>cache = Some r, imported = True, sessions = [sid \<mapsto> Raised err]\<rparr>"
      by (simp add: session_event_def)
    have "process_run \<lparr>cache = Some r, imported = True, sessions = [sid \<mapsto> st]\<rparr> (map ?f (fe # es)) =
        process_run \<lparr>cache = Some r, imported = True, sessions = [sid \<mapsto> Raised err]\<rparr> (map ?f es)"
      by (simp only: fe list.map prod.case process_run.simps process_step.simps Raised ev)
    also have "\<dots> = \<lparr>cache = Some r, imported = True,
        sessions = [sid \<mapsto> (case Raised err of Running s \<Rightarrow> status_of (run r s (map snd es))
                                | Raised err \<Rightarrow> Raised err)]\<rparr>"
      by (rule Cons.IH)
    also have "\<dots> = \<lparr>cache = Some r, imported = True,
        sessions = [sid \<mapsto> (case st of Running s \<Rightarrow> status_of (run r s (map snd (fe # es))) | Raised err \<Rightarrow> Raised err)]\<rparr>"
      by (simp only: Raised session_status.case)
    finally show ?thesis .
  qed
qed

lemma status_of_step:
  "(case status_of x of Running s \<Rightarrow> status_of (run r s es) | Raised err \<Rightarrow> Raised err) =
     status_of (case x of Inl err \<Rightarrow> Inl err | Inr s \<Rightarrow> run r s es)"
  by (cases x) simp_all

lemma process_run_before_load:
  "list_all (\<lambda>(fs, e). \<not> event_loads init_state e) pre \<Longrightarrow>
   process_run \<lparr>cache = None, imported = True, sessions = [sid \<mapsto> Running init_state]\<rparr>
     (map (\<lambda>(fs, e). (fs, Interact sid e)) pre @ rest) =
   process_run \<lparr>cache = None, imported = True, sessions = [sid \<mapsto> Running init_state]\<rparr> rest"
  by (induction pre)
     (auto simp: session_event_def load_step_def cache_value_def handle_init_no_load)

subsection \<open>Properties\<close>

text \<open>C17. In every state of a server process, each running session is either the one
  session that owns the section store, in a reachable state of the session model for
  the cached dataset, or a later session still at its start; only the owner ever shows
  the project page, and only once the raster load has been resolved; the only exception
  any session raises is the \<open>AttributeError\<close> of a later session; and at most one
  session owns the store.\<close>

theorem process_sessions_safe:
  assumes "process_reachable p"
  shows "(\<forall>sid s. sessions p sid = Some (Running s) \<longrightarrow>
            (has_store s \<and> reachable (cache_value (cache p)) s \<or> s = later_session_init)
            \<and> (page s = ProjectPage \<longrightarrow> has_store s \<and> cache p \<noteq> None))
       \<and> (\<forall>sid err. sessions p sid = Some (Raised err) \<longrightarrow> err = AttributeError)
       \<and> (\<forall>sid1 sid2 s1 s2. sessions p sid1 = Some (Running s1) \<longrightarrow> sessions p sid2 = Some (Running s2)
            \<longrightarrow> has_store s1 \<longrightarrow> has_store s2 \<longrightarrow> sid1 = sid2)"
proof -
  have inv: "proc_inv p" using process_reachable_inv [OF assms] .
  have pg: "page s = ProjectPage \<longrightarrow> has_store s \<and> cache p \<noteq> None"
    if "sessions p sid = Some (Running s)" for sid s
  proof
    assume pp: "page s = ProjectPage"
    have "(has_store s \<and> reachable (cache_value (cache p)) s \<or> s = later_session_init)
        \<and> (cache p = None \<longrightarrow> s = init_state \<or> s = later_session_init)"
      using inv that unfolding proc_inv_def by blast
    with pp show "has_store s \<and> cache p \<noteq> None" by (auto simp: init_state_def)
  qed
  show ?thesis using inv pg unfolding proc_inv_def by blast
qed

text \<open>C19. For the session that owns the store, from process start: the interactions
  before the first one that reaches the profile tool change nothing, and the file system
  at that interaction decides the dataset of every later interaction of the process, a
  failed load included.\<close>

theorem process_run_first_load:
  assumes "list_all (\<lambda>(fs, e). \<not> event_loads init_state e) pre" and "event_loads init_state e"
  shows "process_run init_process ((fs0, OpenSession sid) # map (\<lambda>(fs, e). (fs, Interact sid e)) (pre @ (fs, e) # post)) =
           \<lparr>cache = Some (load_bathymetry fs), imported = True,
            sessions = [sid \<mapsto> status_of (run (load_bathymetry fs) init_state (e # map snd post))]\<rparr>"
proof -
  have o: "open_session init_process sid =
      \<lparr>cache = None, imported = True, sessions = [sid \<mapsto> Running init_state]\<rparr>"
    by (simp add: init_process_def open_session_def)
  have l: "session_event fs \<lparr>cache = None, imported = True, sessions = [sid \<mapsto> Running init_state]\<rparr> sid e =
      \<lparr>cache = Some (load_bathymetry fs), imported = True,
       sessions = [sid \<mapsto> status_of (handle (load_bathymetry fs) init_state e)]\<rparr>"
    using assms(2) by (simp add: session_event_def load_step_def)
  show ?thesis
    using process_run_before_load [OF assms(1), of sid "(fs, Interact sid e) # map (\<lambda>(fs, e). (fs, Interact sid e)) post"]
    by (simp add: o l process_run_owner status_of_step)
qed

theorem process_run_first_load_witness:
  "list_all (\<lambda>(fs, e). \<not> event_loads init_state e) [(fs_missing, Rerun)] \<and>
   event_loads init_state (StartProject ''P'') \<and>
   process_run init_process [(fs_missing, OpenSession 0), (fs_missing, Interact 0 Rerun),
       (fs_ok, Interact 0 (StartProject ''P'')), (fs_missing, Interact 0 Rerun)] =
     \<lparr>cache = Some (Some []), imported = True,
      sessions = [0 \<mapsto> status_of (run (Some []) init_state [StartProject ''P'', Rerun])]\<rparr>"
proof -
  have l: "load_bathymetry fs_ok = Some []" by (simp add: load_bathymetry_def fs_ok_def)
  have a: "list_all (\<lambda>(fs, e). \<not> event_loads init_state e) [(fs_missing, Rerun)]"
    by (simp add: event_loads_def init_state_def)
  have b: "event_loads init_state (StartProject ''P'')" by (simp add: event_loads_def init_state_def)
  from process_run_first_load [OF a b, of fs_missing 0 fs_ok "[(fs_missing, Rerun)]"]
  have "process_run init_process [(fs_missing, OpenSession 0), (fs_missing, Interact 0 Rerun),
       (fs_ok, Interact 0 (StartProject ''P'')), (fs_missing, Interact 0 Rerun)] =
     \<lparr>cache = Some (Some []), imported = True,
      sessions = [0 \<mapsto> status_of (run (Some []) init_state [StartProject ''P'', Rerun])]\<rparr>"
    by (simp only: append_Cons append_Nil list.map prod.case snd_conv l)
  with a b show ?thesis by blast
qed

theorem process_sessions_safe_witness:
  "\<exists>P S. process_reachable P \<and> sessions P 0 = Some (Running S) \<and> page S = ProjectPage
      \<and> reachable (Some []) S \<and> sessions P 1 = Some (Raised AttributeError)"
proof -
  let ?xs = "[(fs_ok, OpenSession 0), (fs_ok, OpenSession 1), (fs_ok, Interact 0 (StartProject ''P'')),
              (fs_ok, Interact 1 (StartProject ''Q''))]"
  have l: "load_bathymetry fs_ok = Some []" by (simp add: load_bathymetry_def fs_ok_def)
  let ?P = "process_run init_process ?xs"
  have "\<exists>S. sessions ?P 0 = Some (Running S) \<and> page S = ProjectPage
      \<and> sessions ?P 1 = Some (Raised AttributeError) \<and> cache ?P = Some (Some [])"
    by (simp add: init_process_def open_session_def session_event_def load_step_def event_loads_def
        l run_eval later_session_init_def)
  then obtain S where s0: "sessions ?P 0 = Some (Running S)" and pg: "page S = ProjectPage"
    and s1: "sessions ?P 1 = Some (Raised AttributeError)" and c: "cache ?P = Some (Some [])" by blast
  have pr: "process_reachable ?P"
    using process_run_reachable [OF process_reachable.start] .
  have "has_store S \<and> reachable (cache_value (cache ?P)) S \<or> S = later_session_init"
    using process_sessions_safe [OF pr, THEN conjunct1, rule_format, OF s0] by (rule conjunct1)
  then have "reachable (Some []) S" using pg c by auto
  with pr s0 s1 pg show ?thesis by blast
qed


end
