(* ===== verification/Display.thy ===== *)
theory Display
  imports Session_Props
begin

text \<open>
  What \<open>render_profile_section\<close> (\<open>src/profile_module.py\<close>, lines 98--375) shows, as
  data: the folium map of Step 1 as a list of \<open>map_layer\<close>s in the order they are added
  (lines 218--245), the navigation buttons with their labels (lines 101--126), every
  Plotly figure as the list of its \<open>scatter\<close> traces (lines 140--207, 317--320 and
  355--359), and the screen of one completed pass (\<open>screen\<close>) built from them.
  Layout (columns, heights, axis titles) and the text of the \<open>st.markdown\<close>,
  \<open>st.info\<close> and \<open>st.success\<close> calls are left out; numbers shown by \<open>st.metric\<close> are
  kept as values, since their \<open>:.1f\<close> and \<open>:.2f\<close> formatting rounds.
  The lemmas show that the map draws every stored point and highlights the current
  section, that all markers of a section carry the same popup (a finding), that exactly
  one navigation button is highlighted, and that the All Results view gives the
  visualization layer what the spec (section 6) says it consumes.
\<close>

fun sec_name :: "sec_id \<Rightarrow> string" where
  "sec_name A = ''A''"
| "sec_name B = ''B''"
| "sec_name C = ''C''"

fun map_color :: "sec_id \<Rightarrow> string" where
  "map_color A = ''blue''"
| "map_color B = ''green''"
| "map_color C = ''orange''"

fun combined_color :: "sec_id \<Rightarrow> string" where
  "combined_color A = ''#2563EB''"
| "combined_color B = ''#DC2626''"
| "combined_color C = ''#FACC15''"

definition prime :: string where
  "prime = [CHR 0x27]"

fun py_str_nat :: "nat \<Rightarrow> string" where
  "py_str_nat n = (if n < 10 then [char_of (48 + n)] else py_str_nat (n div 10) @ [char_of (48 + n mod 10)])"

datatype map_layer =
    Marker real real string string
  | PolyLine "(real \<times> real) list" string nat real

fun marker_popup :: "map_layer \<Rightarrow> string option" where
  "marker_popup (Marker _ _ p _) = Some p"
| "marker_popup (PolyLine _ _ _ _) = None"

fun marker_pos :: "map_layer \<Rightarrow> (real \<times> real) option" where
  "marker_pos (Marker la lo _ _) = Some (la, lo)"
| "marker_pos (PolyLine _ _ _ _) = None"

fun layer_color :: "map_layer \<Rightarrow> string" where
  "layer_color (Marker _ _ _ col) = col"
| "layer_color (PolyLine _ col _ _) = col"

definition pt_pos :: "geo_point \<Rightarrow> real \<times> real" where
  "pt_pos p = (lat p, lon p)"

definition section_layers :: "sec_id \<Rightarrow> sec_id \<Rightarrow> section_rec \<Rightarrow> map_layer list" where
  "section_layers cur c sd =
     (if points sd = [] then []
      else
        (let color = map_color c
         in map (\<lambda>(idx, pt). Marker (lat pt) (lon pt)
                   ((if idx = 0 then sec_name c else sec_name c) @ prime)
                   (if c = cur then color else ''gray''))
                (enumerate 0 (points sd))
            @ (if length (points sd) = 2
               then [PolyLine (map pt_pos (points sd)) (if c = cur then color else ''gray'')
                       (if c = cur then 3 else 2) (if c = cur then 1.0 else 0.5)]
               else [])))"

definition map_layers :: "sec_id \<Rightarrow> (sec_id \<Rightarrow> section_rec) \<Rightarrow> map_layer list" where
  "map_layers cur secs = concat (map (\<lambda>c. section_layers cur c (secs c)) [A, B, C])"

record nav_button =
  nb_label :: string
  nb_primary :: bool

definition nav_label :: "(sec_id \<Rightarrow> section_rec) \<Rightarrow> sec_id \<Rightarrow> string" where
  "nav_label secs c =
     (if completed (secs c) then ''[Done] '' @ sec_name c @ ''-'' @ sec_name c @ prime
      else sec_name c @ ''-'' @ sec_name c @ prime)"

definition all_results_label :: "nat \<Rightarrow> string" where
  "all_results_label k = ''All Results ('' @ py_str_nat k @ ''/3)''"

definition nav_buttons :: "app_state \<Rightarrow> nav_button list" where
  "nav_buttons s =
     map (\<lambda>c. \<lparr>nb_label = nav_label (sections s) c, nb_primary = (current s = Sec c)\<rparr>) [A, B, C]
     @ [\<lparr>nb_label = all_results_label (completed_count s), nb_primary = (current s = AllView)\<rparr>]"

record scatter =
  sc_x :: "real list"
  sc_y :: "real list"
  sc_mode :: string
  sc_name :: string
  sc_color :: string
  sc_dash :: bool

definition bathy_trace :: "section_rec \<Rightarrow> scatter" where
  "bathy_trace sd =
     \<lparr>sc_x = bathy_dist sd, sc_y = bathy_depth sd, sc_mode = ''lines+markers'',
      sc_name = ''Bathymetry'', sc_color = ''#0077B6'', sc_dash = False\<rparr>"

definition design_trace :: "string \<Rightarrow> section_rec \<Rightarrow> scatter" where
  "design_trace name sd =
     \<lparr>sc_x = user_dist sd, sc_y = user_depth sd, sc_mode = ''lines+markers'',
      sc_name = name, sc_color = ''#FF6B6B'', sc_dash = True\<rparr>"

definition combined_traces :: "(sec_id \<Rightarrow> section_rec) \<Rightarrow> scatter list" where
  "combined_traces secs =
     concat (map (\<lambda>c. if completed (secs c)
                      then [\<lparr>sc_x = bathy_dist (secs c), sc_y = bathy_depth (secs c), sc_mode = ''lines'',
                              sc_name = sec_name c @ '' Bathymetry'', sc_color = combined_color c,
                              sc_dash = False\<rparr>,
                            \<lparr>sc_x = user_dist (secs c), sc_y = user_depth (secs c), sc_mode = ''lines'',
                              sc_name = sec_name c @ '' Design'', sc_color = combined_color c,
                              sc_dash = True\<rparr>]
                      else [])
       [A, B, C])"

definition profile_figure :: "section_rec \<Rightarrow> scatter list" where
  "profile_figure sd = [bathy_trace sd]"

definition comparison_figure :: "section_rec \<Rightarrow> scatter list" where
  "comparison_figure sd = [bathy_trace sd, design_trace ''Design'' sd]"

datatype result_block = SectionResult sec_id "scatter list" "real \<times> real \<times> real"

definition all_results_screen ::
  "(sec_id \<Rightarrow> section_rec) \<Rightarrow> py_error + (result_block list \<times> scatter list) option" where
  "all_results_screen secs =
     (if filter (\<lambda>c. completed (secs c)) [A, B, C] = [] then Inr None
      else case all_results_view secs of
             Inl e \<Rightarrow> Inl e
           | Inr ms \<Rightarrow>
               Inr (Some (map (\<lambda>(c, m). SectionResult c
                                 [bathy_trace (secs c), design_trace ''Design Profile'' (secs c)] m) ms,
                          combined_traces secs)))"

datatype tool_view =
    ResultsView "(result_block list \<times> scatter list) option"
  | SectionView sec_id "map_layer list" bool "scatter list option" "scatter list option"

datatype screen = LandingScreen | ProjectScreen string "nav_button list" tool_view

definition section_view :: "(sec_id \<Rightarrow> section_rec) \<Rightarrow> sec_id \<Rightarrow> tool_view" where
  "section_view secs c =
     SectionView c (map_layers c secs) (length (points (secs c)) = 2)
       (if design_visible (secs c) then Some (profile_figure (secs c)) else None)
       (if design_visible (secs c) \<and> completed (secs c) then Some (comparison_figure (secs c)) else None)"

definition screen :: "app_state \<Rightarrow> py_error + screen" where
  "screen s =
     (if page s = Landing then Inr LandingScreen
      else
        (case current s of
           AllView \<Rightarrow>
             (case all_results_screen (sections s) of
                Inl e \<Rightarrow> Inl e
              | Inr r \<Rightarrow> Inr (ProjectScreen (project_title s) (nav_buttons s) (ResultsView r)))
         | Sec c \<Rightarrow> Inr (ProjectScreen (project_title s) (nav_buttons s) (section_view (sections s) c))))"

text \<open>What the visualization layer consumes according to the spec: per completed section
  its two curves as (distances, depths) pairs and its metrics, total distance (the last
  distance) and the maximum depth of each curve (the absolute value of its minimum).\<close>

definition spec_section_view :: "sec_id \<Rightarrow> section_rec \<Rightarrow> sec_id \<times> (real list \<times> real list) list \<times> real \<times> real \<times> real" where
  "spec_section_view c sd =
     (c, [(bathy_dist sd, bathy_depth sd), (user_dist sd, user_depth sd)],
      last (bathy_dist sd), \<bar>Min (set (bathy_depth sd))\<bar>, \<bar>Min (set (user_depth sd))\<bar>)"

fun block_data :: "result_block \<Rightarrow> sec_id \<times> (real list \<times> real list) list \<times> real \<times> real \<times> real" where
  "block_data (SectionResult c fig m) = (c, map (\<lambda>t. (sc_x t, sc_y t)) fig, m)"

subsection \<open>The map\<close>

lemma map_enumerate_ignore: "map (\<lambda>(i, x). f x) (enumerate n xs) = map f xs"
  by (induction xs arbitrary: n) simp_all

lemma map_filter_concat: "List.map_filter f (concat xss) = concat (map (List.map_filter f) xss)"
  by (induction xss) (simp_all add: map_filter_def)

lemma section_layers_markers:
  "section_layers cur c sd =
     map (\<lambda>pt. Marker (lat pt) (lon pt) (sec_name c @ prime) (if c = cur then map_color c else ''gray'')) (points sd)
     @ (if length (points sd) = 2
        then [PolyLine (map pt_pos (points sd)) (if c = cur then map_color c else ''gray'')
                (if c = cur then 3 else 2) (if c = cur then 1.0 else 0.5)]
        else [])"
  by (simp add: section_layers_def map_enumerate_ignore Let_def)

lemma filter_concat_map: "filter P (concat xss) = concat (map (filter P) xss)"
  by (induction xss) simp_all

lemma map_color_not_gray [simp]: "map_color c \<noteq> ''gray''"
  by (cases c) simp_all

lemma section_layers_pos: "List.map_filter marker_pos (section_layers cur c sd) = map pt_pos (points sd)"
  by (simp add: section_layers_markers map_filter_def pt_pos_def comp_def)

lemma section_layers_highlight:
  "filter (\<lambda>l. layer_color l \<noteq> ''gray'') (section_layers cur c sd) =
     (if c = cur then section_layers cur c sd else [])"
  by (simp add: section_layers_markers comp_def)

subsection \<open>Navigation and results\<close>

lemma py_str_nat_digit [simp]: "n < 10 \<Longrightarrow> py_str_nat n = [char_of (48 + n)]"
  by simp

lemma completed_count_le_3: "completed_count s \<le> 3"
  unfolding completed_count_def by (rule order_trans [OF length_filter_le]) simp

lemma section_metrics_spec:
  assumes "bathy_dist sd \<noteq> []" and "bathy_depth sd \<noteq> []" and "user_depth sd \<noteq> []"
  shows "section_metrics sd =
           Inr (last (bathy_dist sd), \<bar>Min (set (bathy_depth sd))\<bar>, \<bar>Min (set (user_depth sd))\<bar>)"
  using assms by (simp add: section_metrics_def py_min_def)

lemma app_ok_completed_curves:
  assumes "app_ok s" and "completed (sections s c)"
  shows "bathy_dist (sections s c) \<noteq> [] \<and> bathy_depth (sections s c) \<noteq> [] \<and> user_depth (sections s c) \<noteq> []"
proof -
  note ok = app_ok_completed [OF assms]
  then have "bathy_dist (sections s c) \<noteq> []" by (simp add: design_visible_def)
  moreover from ok this have "bathy_depth (sections s c) \<noteq> []" by auto
  moreover from ok have "user_depth (sections s c) \<noteq> []" by auto
  ultimately show ?thesis by blast
qed

lemma all_results_view_spec:
  assumes "app_ok s"
  shows "all_results_view (sections s) =
           Inr (map (\<lambda>c. (c, last (bathy_dist (sections s c)), \<bar>Min (set (bathy_depth (sections s c)))\<bar>,
                            \<bar>Min (set (user_depth (sections s c)))\<bar>))
                    (filter (\<lambda>c. completed (sections s c)) [A, B, C]))"
  unfolding all_results_view_def
  by (rule map_sum_Inr) (simp add: section_metrics_spec app_ok_completed_curves [OF assms])

subsection \<open>Properties\<close>

text \<open>C22. Every marker a section puts on the map has the same popup, the section name
  followed by a prime: the expression \<open>sec_name if idx==0 else sec_name\<close> has two equal
  branches, so the two endpoints of section A are both labelled A', never A and A'.\<close>

theorem section_markers_same_popup:
  "List.map_filter marker_popup (section_layers cur c sd) = replicate (length (points sd)) (sec_name c @ prime)"
  by (simp add: section_layers_markers map_filter_def comp_def map_replicate_const)

text \<open>C23. The map of Step 1 shows one marker at every stored point of every section, in
  section order, and the markers in colour (not grey) are exactly the points of the
  current section.\<close>

theorem map_layers_points:
  "List.map_filter marker_pos (map_layers cur secs) = concat (map (\<lambda>c. map pt_pos (points (secs c))) [A, B, C]) \<and>
   List.map_filter marker_pos (filter (\<lambda>l. layer_color l \<noteq> ''gray'') (map_layers cur secs)) =
     map pt_pos (points (secs cur))"
proof
  show "List.map_filter marker_pos (map_layers cur secs) = concat (map (\<lambda>c. map pt_pos (points (secs c))) [A, B, C])"
    by (simp only: map_layers_def map_filter_concat map_map comp_def section_layers_pos)
  have "filter (\<lambda>l. layer_color l \<noteq> ''gray'') (map_layers cur secs) =
          concat (map (\<lambda>c. if c = cur then section_layers cur c (secs c) else []) [A, B, C])"
    by (simp only: map_layers_def filter_concat_map map_map comp_def section_layers_highlight)
  then show "List.map_filter marker_pos (filter (\<lambda>l. layer_color l \<noteq> ''gray'') (map_layers cur secs)) =
     map pt_pos (points (secs cur))"
    by (cases cur) (simp_all add: map_filter_concat section_layers_pos)
qed

text \<open>C25. Exactly one navigation button is highlighted, the one of the current view; a
  section's button reads "[Done] ..." exactly when the section is completed; and the
  All Results button shows the completed count as one digit out of 3.\<close>

theorem nav_buttons_highlight:
  "length (filter nb_primary (nav_buttons s)) = 1 \<and>
   (\<forall>c. take 7 (nav_label (sections s) c) = ''[Done] '' \<longleftrightarrow> completed (sections s c)) \<and>
   completed_count s \<le> 3 \<and>
   nb_label (last (nav_buttons s)) = ''All Results ('' @ [char_of (48 + completed_count s)] @ ''/3)''"
proof (intro conjI allI)
  show "length (filter nb_primary (nav_buttons s)) = 1"
  proof (cases "current s")
    case (Sec x)
    then show ?thesis by (cases x) (simp_all add: nav_buttons_def)
  qed (simp add: nav_buttons_def)
  fix c
  show "take 7 (nav_label (sections s) c) = ''[Done] '' \<longleftrightarrow> completed (sections s c)"
    by (cases c) (simp_all add: nav_label_def prime_def)
next
  show "completed_count s \<le> 3" by (rule completed_count_le_3)
  then show "nb_label (last (nav_buttons s)) = ''All Results ('' @ [char_of (48 + completed_count s)] @ ''/3)''"
    by (simp add: nav_buttons_def all_results_label_def)
qed

text \<open>C21. Refinement of the visualization contract: in every reachable state the All Results
  view is shown without error and gives, for each completed section in the order A, B,
  C, its bathymetry and design curves as (distances, depths) pairs and the spec's
  metrics (total distance = last distance, maximum depth = absolute value of the minimum
  depth); with no completed section it shows the warning instead.\<close>

theorem results_screen_refines:
  assumes "reachable ds s" and "page s = ProjectPage" and "current s = AllView"
  shows "\<exists>r. screen s = Inr (ProjectScreen (project_title s) (nav_buttons s) (ResultsView r)) \<and>
           map_option (\<lambda>(bs, comb). map block_data bs) r =
             (if completed_count s = 0 then None
              else Some (map (\<lambda>c. spec_section_view c (sections s c))
                          (filter (\<lambda>c. completed (sections s c)) [A, B, C])))"
proof -
  have ok: "app_ok s" using reachable_app_ok [OF assms(1)] .
  show ?thesis
    using assms(2,3)
    by (simp add: screen_def all_results_screen_def all_results_view_spec [OF ok] completed_count_def
        spec_section_view_def bathy_trace_def design_trace_def comp_def)
qed

text \<open>C24. In every reachable state, on a section the Step 4 comparison chart appears
  exactly when the section is completed, and its two traces plot, in this order, the
  section's bathymetry (distances, depths) and its design (distances, depths); the Step 2
  chart appears exactly when the section has a profile and its one trace plots the
  bathymetry.\<close>

theorem section_view_charts:
  assumes "reachable ds s" and "page s = ProjectPage" and "current s = Sec c"
  shows "\<exists>f1 f2. screen s =
           Inr (ProjectScreen (project_title s) (nav_buttons s)
                 (SectionView c (map_layers c (sections s)) (length (points (sections s c)) = 2) f1 f2))
         \<and> map_option (map (\<lambda>t. (sc_x t, sc_y t))) f1 =
             (if design_visible (sections s c) then Some [(bathy_dist (sections s c), bathy_depth (sections s c))]
              else None)
         \<and> map_option (map (\<lambda>t. (sc_x t, sc_y t))) f2 =
             (if completed (sections s c)
              then Some [(bathy_dist (sections s c), bathy_depth (sections s c)),
                         (user_dist (sections s c), user_depth (sections s c))]
              else None)"
proof -
  have "completed (sections s c) \<Longrightarrow> design_visible (sections s c)"
    using app_ok_completed [OF reachable_app_ok [OF assms(1)]] by blast
  with assms(2,3) show ?thesis
    by (auto simp: screen_def section_view_def profile_figure_def comparison_figure_def
                   bathy_trace_def design_trace_def)
qed

theorem section_view_charts_witness:
  "\<exists>S. reachable (Some []) S \<and> page S = ProjectPage \<and> current S = Sec A \<and> completed (sections S A) \<and>
       (\<exists>f1 f2. screen S = Inr (ProjectScreen (project_title S) (nav_buttons S)
                 (SectionView A (map_layers A (sections S)) (length (points (sections S A)) = 2) f1 f2))
          \<and> map_option (map (\<lambda>t. (sc_x t, sc_y t))) f2 =
              Some [(bathy_dist (sections S A), bathy_depth (sections S A)),
                    (user_dist (sections S A), user_depth (sections S A))])"
proof -
  have "\<exists>S. run (Some []) init_state [StartProject ''P'', ApplyCoords 0 0 0 0, CompareSave] = Inr S
      \<and> page S = ProjectPage \<and> current S = Sec A \<and> completed (sections S A)"
    by (simp add: run_eval)
  then obtain S where r: "run (Some []) init_state [StartProject ''P'', ApplyCoords 0 0 0 0, CompareSave] = Inr S"
    and p: "page S = ProjectPage" and v: "current S = Sec A" and c: "completed (sections S A)"
    by blast
  have re: "reachable (Some []) S" using run_reachable [OF reachable.start r] .
  from section_view_charts [OF re p v] c re p v show ?thesis by auto
qed

theorem results_screen_refines_witness:
  "\<exists>S. reachable (Some []) S \<and> page S = ProjectPage \<and> current S = AllView \<and> completed_count S = 1 \<and>
       (\<exists>r. screen S = Inr (ProjectScreen (project_title S) (nav_buttons S) (ResultsView r)) \<and>
            map_option (\<lambda>(bs, comb). map block_data bs) r = Some [spec_section_view A (sections S A)])"
proof -
  have "\<exists>S. run (Some []) init_state [StartProject ''P'', ApplyCoords 0 0 0 0, CompareSave, NavTo AllView] = Inr S
      \<and> page S = ProjectPage \<and> current S = AllView \<and> completed (sections S A)
      \<and> \<not> completed (sections S B) \<and> \<not> completed (sections S C)"
    by (simp add: run_eval all_results_view_def section_metrics_def py_last_def py_min_def)
  then obtain S where r: "run (Some []) init_state [StartProject ''P'', ApplyCoords 0 0 0 0, CompareSave, NavTo AllView] = Inr S"
    and p: "page S = ProjectPage" and v: "current S = AllView" and c: "completed (sections S A)"
    and nb: "\<not> completed (sections S B)" and nc: "\<not> completed (sections S C)"
    by blast
  have re: "reachable (Some []) S" using run_reachable [OF reachable.start r] .
  have k: "completed_count S = 1" using c nb nc by (simp add: completed_count_def)
  from results_screen_refines [OF re p v] k c nb nc re p v show ?thesis by auto
qed

end
