(* ===== verification/Spec2Isabelle.thy ===== *)
theory Spec2Isabelle
  imports Session_Flow Session_Form Session_Types Session_Widgets Session_Reruns Session_Store Server_Process Display
begin

text \<open>
  \<^bold>\<open>A verified model of the beach-nourishment profile tool.\<close>

  The program is a Streamlit application in two files.  \<open>src/app.py\<close> shows a landing
  page (project name and "Start Project") and a project page whose parameter widgets
  (sediment size, berm height, closure depth, ...) are only read and displayed; the
  project page calls \<open>render_profile_section()\<close> of \<open>src/profile_module.py\<close>.  That
  module keeps three cross-shore sections A, B, C in \<open>st.session_state\<close>; for the
  current section the user picks two points (map clicks or the manual form), the module
  extracts a 50-sample bathymetry profile between them from a NetCDF grid
  (\<open>extract_depth_profile\<close>), lays out an editable design curve, and marks the section
  completed with "Compare \& Save"; an "All Results" view lists the completed sections.
  The module code that creates this store (lines 80--92) runs once per server process,
  at the first \<open>import profile_module\<close> (line 2 of \<open>app.py\<close>), so only the session
  whose run imported the module has it; every later session raises \<open>AttributeError\<close> at
  line 99 when it reaches the project page (a finding).  The properties of \<open>Session\<close>
  and the theories built on it are about the session that owns the store;
  \<open>Session_Store\<close> and \<open>Server_Process\<close> treat the others and the whole process.

  \<^bold>\<open>Theories.\<close>  Each theory models one part and opens with its own summary.
  \<^item> \<open>Beach_Prelude\<close>: Python floats as \<open>real\<close> (no rounding, NaN as \<open>None\<close> where
    it can occur), Python exceptions as the datatype \<open>py_error\<close> in the result type
    \<open>py_error + 'a\<close>, and the list, string and indexing built-ins the code uses
    (\<open>xs[-1]\<close>, \<open>min\<close>, \<open>xs[i]\<close>, \<open>str.lower\<close> on ASCII, \<open>in\<close> on strings, proved equal
    to \<open>sublist\<close>), with shared lemmas on sorted lists and sums.
  \<^item> \<open>Numpy\<close>: \<open>np.linspace\<close> (\<open>linspace\<close>) and \<open>np.interp\<close> (\<open>np_interp\<close> over
    \<open>interp_pts\<close>/\<open>interp_seg\<close>: constant outside the knots, linear between them,
    \<open>ValueError\<close> on empty or mismatched inputs).  Proved: knots are reproduced,
    values between knots are the straight line, results lie within the range of the
    \<open>fp\<close> values, and \<open>linspace\<close> is evenly spaced with exact endpoints.
  \<^item> \<open>Geodesy\<close>: lines 30--41 of \<open>extract_depth_profile\<close>: \<open>haversine\<close> (with
    \<open>arctan2\<close> as numpy defines it, \<open>R = 6371000\<close>) and \<open>profile_distances\<close>.  Proved:
    distances lie in \<open>[0, pi R]\<close>, the first is 0, along a meridian or the equator the
    distance is the arc length, and along a meridian the column is sorted; for two
    spellings \<open>(la, lo)\<close>, \<open>(la, lo + 360)\<close> of one point, as on the antimeridian, it is
    not (a finding).
  \<^item> \<open>Dataset\<close>: the xarray dataset as a list of variables; \<open>select_depth_var\<close>,
    \<open>find_coord\<close>, \<open>sel_nearest\<close> (\<open>.sel(method='nearest')\<close> as pandas'
    \<open>get_indexer\<close> computes it) and \<open>sel_value\<close> (the per-sample \<open>try\<close>).  Proved: which
    variable is chosen, every error of \<open>sel_nearest\<close> (empty, repeated or non-monotone
    axis), that on a monotone axis the nearest position is returned (on a tie the later
    one on an increasing axis, the earlier one on a decreasing axis), and that a grid node
    is read exactly.
  \<^item> \<open>Profile\<close>: \<open>fill_gaps\<close>, \<open>flip_sign\<close>, \<open>sample_depths\<close> and
    \<open>extract_depth_profile\<close> (lines 26--78).  Proved: the shape of the result on every
    path (no dataset, missing coordinate, success), kept samples, interpolated gaps, the
    \<open>-5.0\<close> fallback, bounds of filled values and the sign convention, with the
    findings on the fallback and on leading gaps.
  \<^item> \<open>Sections\<close>: one section dictionary as the record \<open>section_rec\<close> and the
    operations of \<open>render_profile_section\<close> on it (\<open>click_point\<close>, \<open>manual_defaults\<close>
    (the manual-coordinate form), \<open>apply_coords\<close>,
    \<open>reset_points\<close>, \<open>bathy_step\<close>, \<open>design_step\<close>, \<open>edit_point\<close>, \<open>compare_save\<close>),
    the invariant \<open>section_ok\<close> and its preservation, and the default design curve.
  \<^item> \<open>Session\<close>: the whole session as the record \<open>app_state\<close> (its field
    \<open>has_store\<close> says whether lines 80--92 ran in it: \<open>init_state\<close> is the session that
    imported the module, \<open>later_session_init\<close> any later one), user interactions as
    the datatype \<open>event\<close>, \<open>handle\<close> as the script pass in which an interaction fires
    followed by the pass after \<open>st.rerun()\<close> (\<open>render\<close>: the pass \<open>script_pass\<close>, which
    runs to its end, then \<open>widget_cleanup\<close>, Streamlit's removal of the state of the
    widgets that run did not render, which returns a number-of-points input to its
    default 5; a run stopped by \<open>st.rerun()\<close> removes nothing, so the interrupted pass and
    the fresh one are one step with one cleanup; the landing form and the Home
    button of \<open>app.py\<close> are \<open>landing_submit\<close> and \<open>go_home\<close>), \<open>run\<close> on a list of events,
    and \<open>reachable\<close>, the inductive set of states reachable from \<open>init_state\<close>, with the
    invariant \<open>app_ok\<close> proved by rule induction.
  \<^item> \<open>Session_Props\<close>: properties of reachable sessions: no interaction raises, a
    completed section has points, profile and design curve, only "Compare \& Save"
    completes a section, reset, navigation, the number-of-points input and the design
    point inputs behave as the widgets say, other sections are untouched; and the two
    stale-state findings (reset re-adds the last map click, re-applied coordinates keep
    the old profile).
  \<^item> \<open>Session_Flow\<close>: properties of interaction sequences: the replayed map click is
    settled in every reachable state (so the model's ordering of the click handler before
    the buttons is exact), each section can still be completed from every reachable
    state when a dataset is loaded (liveness), the manual-coordinate form shows the
    applied coordinates (round trip), and the finding that leaving a section resets its
    number of design points and regenerates its curve.
  \<^item> \<open>Session_Form\<close>: the manual-coordinate inputs, keyed by section and
    \<open>coord_version\<close> (\<open>coord_inputs\<close>, event \<open>TypeCoord\<close>, \<open>form_value\<close>, and
    \<open>apply_click\<close>, the Apply button reading them).  Proved: every typed entry belongs
    to the current version (rule induction), so an interaction that bumps the version
    shows the section's points again; and typing four coordinates, then Apply, stores
    them and keeps them on screen (round trip).
  \<^item> \<open>Project_Page\<close>: the design-parameter form of \<open>app.py\<close> (sixteen number
    inputs and two toggles, their defaults and which toggle shows which input) and the
    fixed figures of "START CALCULATIONS"; \<open>Session_Widgets\<close> puts the form into the
    session (events \<open>SetParam\<close>, \<open>SetToggle\<close>) and shows that the parameters survive every
    interaction with the cross-section tool but are reset by "Home".
  \<^item> \<open>Session_Types\<close>: the spec's Section type (at most two points, a 50-sample
    profile or none, a design curve of 2 to 20 points or none) as an invariant of every
    reachable state.
  \<^item> \<open>Session_Reruns\<close>: the restart of the script by the map-click handler's
    \<open>st.rerun()\<close>: \<open>script_pass_once\<close> is one pass, which finishes or stops at that
    call, and \<open>rerun_loop\<close> repeats passes until one finishes (a \<open>partial_function\<close> in
    the option monad).  Proved: every run ends, after at most one rerun, with the result
    of \<open>script_pass\<close>, so the single pass of \<open>Session\<close> is the whole run.
  \<^item> \<open>Session_Store\<close>: a session opened after the import (\<open>later_session_init\<close>) and
    \<open>later_reachable\<close>, its states.  Proved: such a session never leaves the landing
    page; Start Project with a name raises \<open>AttributeError\<close>.
  \<^item> \<open>Bathymetry_Load\<close>: \<open>load_bathymetry\<close> (lines 9--24: the file in the working
    directory or beside the module, the \<open>netcdf4\<close> engine then \<open>scipy\<close>, \<open>None\<close> on any
    exception) over a model of the file system, and its \<open>@st.cache_data\<close> cache
    (\<open>cached_load\<close>).  Proved: it returns \<open>None\<close> exactly when neither engine opens the
    file.
  \<^item> \<open>Server_Process\<close>: the server process as the record \<open>process\<close>: the cache, whether
    the module was imported, and the sessions (running, or stopped by an exception),
    with \<open>open_session\<close> (a new tab: the first one gets the store), \<open>session_event\<close> (one
    interaction of one session: the raster is loaded through the cache when a pass
    reaches line 95, then the session model's \<open>handle\<close> runs with the cached value as its
    \<open>ds\<close>, which is why every other theory takes the dataset as a parameter),
    \<open>process_run\<close> and \<open>process_reachable\<close> (any interleaving of the sessions'
    inputs).  Proved by rule induction on the invariant \<open>proc_inv\<close>: every running
    session is the owner in a reachable state of \<open>Session\<close> for the cached dataset or a
    later session at its start, only the owner shows the project page and only after the
    load was resolved, at most one session owns the store, and the only exception is
    the later sessions' \<open>AttributeError\<close>; and the file system seen by the owner's first
    loading interaction decides the dataset for the life of the process, a failed load
    included.
  \<^item> \<open>Display\<close>: what the profile tool shows, as data: the folium layers of the
    Step 1 map (\<open>map_layers\<close>), the navigation buttons (\<open>nav_buttons\<close>), the traces
    of every Plotly figure, the All Results blocks with their metric values, and the
    \<open>screen\<close> of a completed pass.  Proved: the All Results view refines the spec's
    visualization contract (section 6) in every reachable state; the Step 4 chart
    appears exactly for completed sections and plots their bathymetry and design curves; the map shows every stored point and
    highlights the current section; exactly one navigation button is highlighted; and
    both markers of a section carry the same popup (a finding).
  \<^item> this theory: the end-to-end statement that connects the session to the
    extraction.

  \<^bold>\<open>Bounds and choices.\<close>  The profile is extracted with the code's default of 50
  samples; the number of design points is the widget's range 2..20 (default 5), which
  the invariant \<open>app_ok\<close> records, so the division by \<open>num_pts - 1\<close> in Step 3 never
  fails in a reachable state.  Every loop of the code is a comprehension over a finite
  list, modelled by structural recursion; the one loop that could run on is Streamlit's
  restart of the script after \<open>st.rerun()\<close>, modelled without fuel as a partial function
  whose result is proved to be defined.  \<open>np.interp\<close> is modelled by a scan that agrees with numpy on strictly
  increasing \<open>xp\<close>, the only case the code produces for its own inputs (sample
  indices); on profile distances it relies on them increasing, which holds along a
  meridian.

  \<^bold>\<open>Not modelled.\<close>  The contents of the NetCDF file and the work of the two
  \<open>xarray\<close> engines (the file system returns a dataset or raises); \<open>normpath\<close>, which
  changes nothing for the file name the code uses; of the display, the layout
  (columns, heights, axis titles, the map's tile layer), the texts of \<open>st.markdown\<close>,
  \<open>st.info\<close>, \<open>st.success\<close> and \<open>st.warning\<close>, and the \<open>:.1f\<close>/\<open>:.2f\<close> formatting of
  metrics (the values are modelled); the landing page's image and embedded map, which
  change no state; floating-point rounding; a session after its first uncaught
  exception (Streamlit shows the traceback and keeps the state the failed run left), and
  the closing of sessions.  Of Streamlit's widget state only the removal of
  unrendered widgets is modelled: whether a keyed design-point input keeps its own value
  when its \<open>value=\<close> argument changes depends on the Streamlit version, which the
  repository does not pin, so an edit is one \<open>EditPoint\<close> event on the section lists and
  a regenerated curve is taken as shown.  The manual-coordinate inputs do not have this
  problem: the code bumps \<open>coord_version\<close>, part of their keys, whenever it changes the
  points itself, so \<open>Session_Form\<close> models them exactly; \<open>ApplyCoords\<close> carries the
  values the inputs show, which \<open>apply_click\<close> reads.
\<close>

text \<open>C5. End to end: on a fresh project with a loaded dataset, "Apply Coordinates"
  stores the profile that \<open>extract_depth_profile\<close> computes for the two points
  (50 haversine distances and 50 depths) and a default design curve of 5 points spread
  evenly up to its total distance.\<close>

theorem apply_on_fresh_project:
  "\<exists>S. run (Some d) init_state [StartProject ''P'', ApplyCoords la lo la' lo'] = Inr S
     \<and> bathy_dist (sections S A) = profile_distances \<lparr>lat = la, lon = lo\<rparr> \<lparr>lat = la', lon = lo'\<rparr> 50
     \<and> length (bathy_depth (sections S A)) = 50
     \<and> user_dist (sections S A)
         = default_dists 5 (last (profile_distances \<lparr>lat = la, lon = lo\<rparr> \<lparr>lat = la', lon = lo'\<rparr> 50))"
proof -
  let ?p = "\<lparr>lat = la, lon = lo\<rparr>" and ?q = "\<lparr>lat = la', lon = lo'\<rparr>"
  let ?T = "init_state\<lparr>page := ProjectPage, project_name := Some ''P''\<rparr>"
  have h1: "handle (Some d) init_state (StartProject ''P'') = Inr ?T"
    by (simp add: landing_submit_def render_def script_pass_def widget_cleanup_def init_state_def
        map_pass_def bathy_step_def design_step_def design_visible_def empty_section_def fun_eq_iff)
  let ?sec1 = "apply_coords la lo la' lo' empty_section"
  let ?T1 = "?T\<lparr>sections := (sections ?T)(A := ?sec1)\<rparr>"
  have T1: "on_current (apply_coords la lo la' lo') (map_pass ?T) = ?T1"
    by (simp add: map_pass_no_click init_state_def on_current_def)
  obtain dist dep where ex: "extract_depth_profile (Some d) ?p ?q 50 = Some (dist, dep)"
    and dist: "dist = profile_distances ?p ?q 50" and dep: "length dep = 50"
    using extract_depth_profile_shape [of d ?p ?q 50] by blast
  have ne: "dist \<noteq> []" "dep \<noteq> []" using dist dep by (auto simp flip: length_0_conv)
  let ?sec2 = "?sec1\<lparr>bathy_dist := dist, bathy_depth := dep\<rparr>"
  have b: "bathy_step (Some d) ?sec1 = ?sec2"
    using ex ne by (simp add: bathy_step_def apply_coords_def empty_section_def)
  obtain sec3 where d3: "design_step 5 ?sec2 = Inr sec3"
    and u3: "user_dist sec3 = default_dists 5 (last dist)"
    and f3: "bathy_dist sec3 = dist" "bathy_depth sec3 = dep"
  proof -
    have "design_step 5 ?sec2 = Inr (?sec2\<lparr>user_dist := default_dists 5 (last dist),
        user_depth := map (\<lambda>x. interp_pts x (zip dist dep)) (default_dists 5 (last dist))\<rparr>)"
      using design_step_regenerate [of ?sec2 5] ne dep dist
      by (simp add: design_visible_def apply_coords_def empty_section_def)
    then show ?thesis using that by simp
  qed
  have r: "render (Some d) ?T1 = Inr (widget_cleanup (?T1\<lparr>sections := (sections ?T1)(A := sec3)\<rparr>))"
    using b d3 by (simp add: render_def script_pass_def map_pass_no_click init_state_def)
  have "run (Some d) init_state [StartProject ''P'', ApplyCoords la lo la' lo']
      = Inr (widget_cleanup (?T1\<lparr>sections := (sections ?T1)(A := sec3)\<rparr>))"
    using h1 T1 r by (simp add: init_state_def)
  then show ?thesis using u3 f3 dist dep by simp
qed

end
